(* ===== verification/Go_Base.thy ===== *)
theory Go_Base
  imports Main "HOL-Library.Word" "HOL-Library.AList" "HOL-Library.Multiset" "HOL-Library.Sublist"
begin

text \<open>
  Prelude of the development: the Go types the components share and the lemmas their proofs
  rest on.

  \<^item> \<open>uint\<close> and \<open>uint64\<close> are 64-bit words, \<open>uint32\<close> (the \<open>atomic.Uint32\<close> id counters of the
    in-memory repositories) a 32-bit word; both wrap around.
  \<^item> A \<open>time.Time\<close> is the number of nanoseconds since Go's zero time, so \<open>IsZero\<close> is \<open>t = 0\<close>;
    a \<open>time.Duration\<close> is a number of nanoseconds.  An operation takes the instant it reads from
    \<open>time.Now\<close> as an argument \<open>now\<close>.
  \<^item> A pointer or a nilable value is an \<open>option\<close>, \<open>nil\<close> being \<open>None\<close>; a Go \<open>error\<close> result is
    \<open>error option\<close>, a pair of a value and an error is \<open>error + 'a\<close>, a panic is the error value
    \<open>Panic\<close>.
  \<^item> A Go map that is ranged over is an association list with distinct keys.  The order of the
    list is the order in which the loop meets the entries: Go leaves it open, so theorems are
    stated for every order.  A map that is only looked up is a partial function.
\<close>

section \<open>Types\<close>

type_synonym uint = "64 word"
type_synonym uint64 = "64 word"
type_synonym uint32 = "32 word"
type_synonym time = int
type_synonym duration = int

datatype error =
    Errorf string
  | HTTPError nat string
  | WithMessage error string
  | InvalidRoleNameError string
  | TaskAlreadyExistsError string
  | CorruptInputError nat
  | Panic string

type_synonym 'a result = "error + 'a"

section \<open>Collections of facts\<close>

named_theorems alist_simps \<open>association lists standing for Go maps\<close>
named_theorems repo_defs \<open>definitions of repository operations\<close>

section \<open>Results\<close>

text \<open>\<open>errors.WithMessage(err, msg)\<close> on a result: the error is wrapped, a value passes.\<close>

definition with_message :: "string \<Rightarrow> 'a result \<Rightarrow> 'a result" where
  "with_message msg r = (case r of Inl e \<Rightarrow> Inl (WithMessage e msg) | Inr v \<Rightarrow> Inr v)"

lemma with_message_simps [simp]:
  "with_message m (Inl e) = Inl (WithMessage e m)"
  "with_message m (Inr v) = Inr v"
  by (simp_all add: with_message_def)

section \<open>Go maps as association lists\<close>

abbreviation keys :: "('k \<times> 'v) list \<Rightarrow> 'k list" where
  "keys m \<equiv> map fst m"

definition wf_map :: "('k \<times> 'v) list \<Rightarrow> bool" where
  "wf_map m \<longleftrightarrow> distinct (keys m)"

text \<open>What a total operation promises holds of the state it returned.\<close>

lemma ran: "\<exists>q. f = (e, q) \<and> P q \<Longrightarrow> f = (e, r) \<Longrightarrow> P r"
  by auto

text \<open>\<open>for k, v := range m { if p(k, v) { delete(m, k) } }\<close>\<close>

definition delete_if :: "('k \<Rightarrow> 'v \<Rightarrow> bool) \<Rightarrow> ('k \<times> 'v) list \<Rightarrow> ('k \<times> 'v) list" where
  "delete_if p m = filter (\<lambda>(k, v). \<not> p k v) m"

lemma wf_map_Nil [simp, alist_simps]: "wf_map []"
  by (simp add: wf_map_def)

lemma wf_map_update [simp, alist_simps]: "wf_map m \<Longrightarrow> wf_map (AList.update k v m)"
  by (simp add: wf_map_def distinct_update)

lemma wf_map_delete [simp, alist_simps]: "wf_map m \<Longrightarrow> wf_map (AList.delete k m)"
  by (simp add: wf_map_def distinct_delete)

lemma wf_map_filter: "wf_map m \<Longrightarrow> wf_map (filter P m)"
  by (simp add: wf_map_def distinct_map_filter)

lemma wf_map_delete_if [simp, alist_simps]: "wf_map m \<Longrightarrow> wf_map (delete_if p m)"
  by (simp add: delete_if_def wf_map_filter)

lemma map_of_update [simp, alist_simps]: "map_of (AList.update k v m) = (map_of m)(k \<mapsto> v)"
  by (rule ext) (simp add: update_conv)

lemma map_of_delete [simp, alist_simps]: "map_of (AList.delete k m) = (map_of m)(k := None)"
  by (rule ext) (simp add: delete_conv')

lemma map_of_eq_Some [alist_simps]: "wf_map m \<Longrightarrow> map_of m k = Some v \<longleftrightarrow> (k, v) \<in> set m"
  by (simp add: wf_map_def)

lemma set_alist_delete [simp, alist_simps]:
  "set (AList.delete k m) = {(j, v) \<in> set m. j \<noteq> k}"
  by (auto simp: AList.delete_eq)

lemma set_alist_update: "p \<in> set (AList.update k v m) \<Longrightarrow> p = (k, v) \<or> p \<in> set m"
  by (induction m) (auto split: if_splits)

lemma set_delete_if [simp, alist_simps]: "set (delete_if p m) = {(k, v) \<in> set m. \<not> p k v}"
  by (auto simp: delete_if_def)

lemma map_of_delete_if [alist_simps]:
  assumes "wf_map m"
  shows "map_of (delete_if p m) k =
    (case map_of m k of None \<Rightarrow> None | Some v \<Rightarrow> if p k v then None else Some v)"
proof (cases "map_of m k")
  case None
  then have "k \<notin> fst ` set m" by (simp add: map_of_eq_None_iff)
  then have "k \<notin> fst ` set (delete_if p m)" by auto
  then have "map_of (delete_if p m) k = None" by (simp only: map_of_eq_None_iff not_False_eq_True)
  then show ?thesis using None by simp
next
  case (Some v)
  note kv = Some
  have wf: "wf_map (delete_if p m)" using assms by simp
  show ?thesis
  proof (cases "p k v")
    case True
    have "map_of (delete_if p m) k = None"
    proof (rule ccontr)
      assume "map_of (delete_if p m) k \<noteq> None"
      then obtain w where "map_of (delete_if p m) k = Some w" by auto
      then have "(k, w) \<in> set m \<and> \<not> p k w" using wf by (auto simp: map_of_eq_Some)
      with kv assms True show False by (auto simp: map_of_eq_Some[symmetric])
    qed
    with Some True show ?thesis by simp
  next
    case False
    with Some assms have "(k, v) \<in> set (delete_if p m)" by (auto simp: map_of_eq_Some)
    with wf have "map_of (delete_if p m) k = Some v" by (simp only: map_of_eq_Some)
    with Some False show ?thesis by simp
  qed
qed

lemma delete_if_none: "(\<And>k v. (k, v) \<in> set m \<Longrightarrow> \<not> p k v) \<Longrightarrow> delete_if p m = m"
  by (auto simp: delete_if_def filter_id_conv)

lemma filter_key:
  assumes "wf_map m" and "\<forall>(k, v) \<in> set m. key v = k"
  shows "filter (\<lambda>v. key v = i) (map snd m) = (case map_of m i of None \<Rightarrow> [] | Some v \<Rightarrow> [v])"
  using assms
proof (induction m)
  case (Cons p m)
  then have "i \<noteq> fst p \<or> map_of m i = None"
    by (auto simp: wf_map_def map_of_eq_None_iff)
  with Cons show ?case by (cases p) (auto simp: wf_map_def split: option.splits)
qed simp

lemma map_snd_delete_if: "map snd (delete_if (\<lambda>_. p) m) = filter (\<lambda>v. \<not> p v) (map snd m)"
  by (simp add: delete_if_def filter_map o_def case_prod_unfold)

lemma keys_update: "set (keys (AList.update k v m)) = insert k (set (keys m))"
  by (simp add: dom_update)

lemma update_fresh: "k \<notin> set (keys m) \<Longrightarrow> AList.update k v m = m @ [(k, v)]"
  by (induction m) auto

lemma find_SomeD: "List.find P xs = Some x \<Longrightarrow> x \<in> set xs \<and> P x"
  by (induction xs) (auto split: if_splits)

lemma set_map_filter [simp]: "set (List.map_filter f xs) = {y. \<exists>x \<in> set xs. f x = Some y}"
  by (induction xs) (auto simp: List.map_filter_simps split: option.splits)

lemma map_filter_skip:
  "(\<And>x. x \<in> set xs \<Longrightarrow> \<not> P x \<Longrightarrow> f x = None) \<Longrightarrow>
    List.map_filter f (filter P xs) = List.map_filter f xs"
  by (induction xs) (auto simp: List.map_filter_simps split: option.split)

lemma length_map_filter_le: "length (List.map_filter f xs) \<le> length xs"
  by (induction xs) (auto simp: List.map_filter_simps split: option.splits)

section \<open>Identifier counters\<close>

text \<open>
  \<open>uint(r.nextID.Add(1))\<close>: the counter is a 32-bit word, the identifier its value as a 64-bit
  word.  \<open>counter_room c n\<close> says that \<open>n\<close> more identifiers can be drawn before the counter wraps.
\<close>

definition counter_room :: "uint32 \<Rightarrow> nat \<Rightarrow> bool" where
  "counter_room c n \<longleftrightarrow> unat c + n < 2 ^ 32"

definition id_of_counter :: "uint32 \<Rightarrow> uint" where
  "id_of_counter c = ucast c"

lemma unat_id_of_counter [simp]: "unat (id_of_counter c) = unat c"
proof -
  have "Word.uint (ucast c :: uint) = Word.uint c"
    by (rule uint_up_ucast) (simp add: is_up)
  then show ?thesis by (simp only: id_of_counter_def unat_eq_nat_uint)
qed

lemma counter_room_Suc: "counter_room c (Suc n) \<Longrightarrow> unat (c + 1) = Suc (unat c)"
  by (simp add: counter_room_def unat_word_ariths)

lemma counter_room_step: "counter_room c (Suc n) \<Longrightarrow> counter_room (c + 1) n"
  using counter_room_Suc [of c n] by (simp add: counter_room_def)

lemma counter_room_mono: "counter_room c n \<Longrightarrow> k \<le> n \<Longrightarrow> counter_room c k"
  by (simp add: counter_room_def)

lemma next_id_fresh:
  assumes "counter_room c (Suc n)" and "\<forall>k \<in> set ks. unat k \<le> unat c"
  shows "id_of_counter (c + 1) \<notin> set ks" and "id_of_counter (c + 1) \<noteq> 0"
proof -
  have u: "unat (id_of_counter (c + 1)) = Suc (unat c)"
    using assms(1) by (simp add: counter_room_Suc)
  show "id_of_counter (c + 1) \<notin> set ks"
    using assms(2) u by (metis Suc_n_not_le_n)
  show "id_of_counter (c + 1) \<noteq> 0"
    using u by (metis unat_0 nat.distinct(1))
qed

section \<open>Slices and sorting\<close>

text \<open>\<open>xs[lo:hi]\<close>: out-of-range bounds panic.\<close>

definition slice :: "'a list \<Rightarrow> nat \<Rightarrow> nat \<Rightarrow> 'a list result" where
  "slice xs lo hi =
     (if lo \<le> hi \<and> hi \<le> length xs then Inr (take (hi - lo) (drop lo xs))
      else Inl (Panic ''slice bounds out of range''))"

text \<open>
  \<open>sort.Slice(xs, lt)\<close>: Go promises a permutation that is sorted by \<open>lt\<close> and leaves the order
  of equivalent elements open; the model inserts every element before the ones it is not after.
\<close>

fun insert_by :: "('a \<Rightarrow> 'a \<Rightarrow> bool) \<Rightarrow> 'a \<Rightarrow> 'a list \<Rightarrow> 'a list" where
  "insert_by lt x [] = [x]"
| "insert_by lt x (y # ys) = (if lt y x then y # insert_by lt x ys else x # y # ys)"

definition sort_slice :: "('a \<Rightarrow> 'a \<Rightarrow> bool) \<Rightarrow> 'a list \<Rightarrow> 'a list" where
  "sort_slice lt xs = foldr (insert_by lt) xs []"

lemma mset_insert_by [simp]: "mset (insert_by lt x ys) = add_mset x (mset ys)"
  by (induction ys) auto

lemma set_insert_by [simp]: "set (insert_by lt x ys) = insert x (set ys)"
  by (induction ys) auto

lemma sort_slice_simps [simp]:
  "sort_slice lt [] = []"
  "sort_slice lt (x # xs) = insert_by lt x (sort_slice lt xs)"
  by (simp_all add: sort_slice_def)

lemma mset_sort_slice [simp]: "mset (sort_slice lt xs) = mset xs"
  by (induction xs) auto

lemma set_sort_slice [simp]: "set (sort_slice lt xs) = set xs"
  by (induction xs) auto

lemma length_sort_slice [simp]: "length (sort_slice lt xs) = length xs"
  using mset_sort_slice [of lt xs] by (metis size_mset)

text \<open>A strict weak order, as the comparison functions of the repositories are.\<close>

definition weak_order :: "('a \<Rightarrow> 'a \<Rightarrow> bool) \<Rightarrow> bool" where
  "weak_order lt \<longleftrightarrow>
     (\<forall>x. \<not> lt x x) \<and> (\<forall>x y z. lt x y \<longrightarrow> lt y z \<longrightarrow> lt x z) \<and>
     (\<forall>x y z. lt x z \<longrightarrow> lt x y \<or> lt y z)"

lemma sorted_insert_by:
  assumes "weak_order lt" and "sorted_wrt (\<lambda>a b. \<not> lt b a) ys"
  shows "sorted_wrt (\<lambda>a b. \<not> lt b a) (insert_by lt x ys)"
  using assms(2)
proof (induction ys)
  case Nil
  then show ?case by simp
next
  case (Cons y ys)
  have asym: "\<not> lt x y" if "lt y x"
    using assms(1) that unfolding weak_order_def by blast
  have neg: "\<not> lt b x" if "\<not> lt y x" and "\<not> lt b y" for b
    using assms(1) that unfolding weak_order_def by blast
  show ?case using Cons asym neg by auto
qed

lemma sorted_sort_slice:
  "weak_order lt \<Longrightarrow> sorted_wrt (\<lambda>a b. \<not> lt b a) (sort_slice lt xs)"
  by (induction xs) (auto simp: sorted_insert_by)

end
