(* ===== verification/RBAC_Domain.thy ===== *)
theory RBAC_Domain
  imports Go_Base
begin

text \<open>
  The access-control data of \<open>internal/domain/rbac.go\<close> and \<open>internal/domain/entity.go\<close>: abilities,
  roles, permissions and role assignments, as the records the service and the repositories
  exchange.  A field \<open>F\<close> of the Go type \<open>T\<close> is the record field \<open>T_F\<close>.
\<close>

type_synonym EntityType = string
type_synonym AbilityName = string

definition model_path :: "string \<Rightarrow> EntityType" where
  "model_path cls = ''Gameap'' @ [CHR 0x5C] @ ''Models'' @ [CHR 0x5C] @ cls"

definition EntityTypeEmpty :: EntityType where "EntityTypeEmpty = ''''"
definition EntityTypeUser :: EntityType where "EntityTypeUser = model_path ''User''"
definition EntityTypeNode :: EntityType where "EntityTypeNode = model_path ''DedicatedServer''"
definition EntityTypeServer :: EntityType where "EntityTypeServer = model_path ''Server''"
definition EntityTypeRole :: EntityType where "EntityTypeRole = ''roles''"

lemma entity_types_distinct [simp]:
  "EntityTypeUser \<noteq> EntityTypeRole" "EntityTypeRole \<noteq> EntityTypeUser"
  "EntityTypeServer \<noteq> EntityTypeNode" "EntityTypeNode \<noteq> EntityTypeServer"
  by (simp_all add: EntityTypeUser_def EntityTypeRole_def EntityTypeServer_def EntityTypeNode_def
        model_path_def)

text \<open>The ability names.\<close>

definition AbilityNameGameServerCommon :: AbilityName where
  "AbilityNameGameServerCommon = ''game-server-common''"

definition AbilityNameAdminRolesPermissions :: AbilityName where
  "AbilityNameAdminRolesPermissions = ''admin roles & permissions''"

definition ServersAbilities :: "AbilityName list" where
  "ServersAbilities =
     [AbilityNameGameServerCommon, ''game-server-start'', ''game-server-stop'',
      ''game-server-restart'', ''game-server-pause'', ''game-server-update'',
      ''game-server-files'', ''game-server-tasks'', ''game-server-settings'',
      ''game-server-console-view'', ''game-server-console-send'',
      ''game-server-rcon-console'', ''game-server-rcon-players'',
      ''game-server-metrics'']"

record Ability =
  Ability_ID :: uint
  Ability_Name :: AbilityName
  Ability_Title :: "string option"
  Ability_EntityID :: "uint option"
  Ability_EntityType :: "EntityType option"
  Ability_OnlyOwned :: bool
  Ability_Options :: "string option"
  Ability_Scope :: "int option"
  Ability_CreatedAt :: "time option"
  Ability_UpdatedAt :: "time option"

definition CreateAbilityForEntity :: "time \<Rightarrow> AbilityName \<Rightarrow> uint \<Rightarrow> EntityType \<Rightarrow> Ability" where
  "CreateAbilityForEntity now name entityID entityType =
     \<lparr>Ability_ID = 0, Ability_Name = name, Ability_Title = None,
      Ability_EntityID = Some entityID, Ability_EntityType = Some entityType,
      Ability_OnlyOwned = False, Ability_Options = None, Ability_Scope = None,
      Ability_CreatedAt = Some now, Ability_UpdatedAt = Some now\<rparr>"

record Role =
  Role_ID :: uint
  Role_Name :: string
  Role_Title :: "string option"
  Role_Level :: "uint option"
  Role_Scope :: "int option"
  Role_CreatedAt :: "time option"
  Role_UpdatedAt :: "time option"

text \<open>\<open>RestrictedRole\<close> embeds a \<open>Role\<close>.\<close>

record RestrictedRole =
  RestrictedRole_Role :: Role
  RestrictedRole_RestrictedToID :: "uint option"
  RestrictedRole_RestrictedToType :: "EntityType option"

definition NewRestrictedRoleFromRole :: "Role \<Rightarrow> RestrictedRole" where
  "NewRestrictedRoleFromRole role =
     \<lparr>RestrictedRole_Role = role, RestrictedRole_RestrictedToID = None,
      RestrictedRole_RestrictedToType = None\<rparr>"

record Permission =
  Permission_ID :: uint
  Permission_AbilityID :: uint
  Permission_EntityID :: "uint option"
  Permission_EntityType :: "EntityType option"
  Permission_Forbidden :: bool
  Permission_Scope :: "int option"
  Permission_Ability :: "Ability option"

record AssignedRole =
  AssignedRole_ID :: uint
  AssignedRole_RoleID :: uint
  AssignedRole_EntityID :: uint
  AssignedRole_EntityType :: EntityType
  AssignedRole_RestrictedToID :: "uint option"
  AssignedRole_RestrictedToType :: "EntityType option"
  AssignedRole_Scope :: "int option"

section \<open>Abilities up to their key\<close>

text \<open>
  An ability is identified by its name, its entity and its scope; two rows with the same key are
  the same grant for every check.
\<close>

type_synonym ability_key = "AbilityName \<times> uint option \<times> EntityType option \<times> int option"

definition key_of :: "Ability \<Rightarrow> ability_key" where
  "key_of a = (Ability_Name a, Ability_EntityID a, Ability_EntityType a, Ability_Scope a)"

text \<open>What a check reads of a permission row: the key of its ability and whether it forbids.\<close>

definition row_of :: "Permission \<Rightarrow> ability_key option \<times> bool" where
  "row_of p = (map_option key_of (Permission_Ability p), Permission_Forbidden p)"

lemma key_of_CreateAbilityForEntity [simp]:
  "key_of (CreateAbilityForEntity now n i t) = (n, Some i, Some t, None)"
  by (simp add: key_of_def CreateAbilityForEntity_def)

lemma NewRestrictedRoleFromRole_simps [simp]:
  "RestrictedRole_Role (NewRestrictedRoleFromRole r) = r"
  "RestrictedRole_RestrictedToID (NewRestrictedRoleFromRole r) = None"
  "RestrictedRole_RestrictedToType (NewRestrictedRoleFromRole r) = None"
  by (simp_all add: NewRestrictedRoleFromRole_def)

end
