(* ===== verification/RBAC_Repository.thy ===== *)
theory RBAC_Repository
  imports RBAC_Domain
begin

text \<open>
  The access-control store: the interface \<open>rbac.Repository\<close> of \<open>internal/rbac/contracts.go\<close> as a
  record of operations over a store \<open>'s\<close>, the contract its clients rely on as the locale
  \<open>rbac_repository\<close>, and the in-memory implementation of
  \<open>internal/repositories/inmemory/rbac.go\<close>, which interprets the locale.

  A read returns its rows or an error; a write returns its error, if any, and the new store.
\<close>

section \<open>The interface\<close>

record 's Repository =
  GetRoles :: "'s \<Rightarrow> Role list result"
  GetPermissions :: "'s \<Rightarrow> uint \<Rightarrow> EntityType \<Rightarrow> Permission list result"
  GetRolesForEntity :: "'s \<Rightarrow> uint \<Rightarrow> EntityType \<Rightarrow> RestrictedRole list result"
  AssignRolesForEntity :: "'s \<Rightarrow> uint \<Rightarrow> EntityType \<Rightarrow> RestrictedRole list \<Rightarrow> error option \<times> 's"
  ClearRolesForEntity :: "'s \<Rightarrow> uint \<Rightarrow> EntityType \<Rightarrow> error option \<times> 's"
  Allow :: "'s \<Rightarrow> uint \<Rightarrow> EntityType \<Rightarrow> Ability list \<Rightarrow> error option \<times> 's"
  Forbid :: "'s \<Rightarrow> uint \<Rightarrow> EntityType \<Rightarrow> Ability list \<Rightarrow> error option \<times> 's"
  Revoke :: "'s \<Rightarrow> uint \<Rightarrow> EntityType \<Rightarrow> Ability list \<Rightarrow> error option \<times> 's"

text \<open>A permission row is about one of the listed abilities when the keys agree.\<close>

definition about :: "Ability list \<Rightarrow> Permission \<Rightarrow> bool" where
  "about abls p \<longleftrightarrow> (\<exists>a. Permission_Ability p = Some a \<and> key_of a \<in> key_of ` set abls)"

text \<open>Rows held by every holder but \<open>(i, t)\<close> are the same before and after.\<close>

definition frame :: "('s \<Rightarrow> uint \<Rightarrow> EntityType \<Rightarrow> 'r) \<Rightarrow> 's \<Rightarrow> 's \<Rightarrow> uint \<Rightarrow> EntityType \<Rightarrow> bool" where
  "frame view s s' i t \<longleftrightarrow> (\<forall>j u. (j, u) \<noteq> (i, t) \<longrightarrow> view s' j u = view s j u)"

section \<open>The in-memory repository\<close>

record RBACRepository =
  rr_roles :: "(uint \<times> Role) list"
  rr_assignedRoles :: "(uint \<times> AssignedRole) list"
  rr_abilities :: "(uint \<times> Ability) list"
  rr_permissions :: "(uint \<times> Permission) list"
  rr_nextRoleID :: uint32
  rr_nextAssignedID :: uint32
  rr_nextAbilityID :: uint32
  rr_nextPermissionID :: uint32

definition NewRBACRepository :: RBACRepository where
  "NewRBACRepository =
     \<lparr>rr_roles = [], rr_assignedRoles = [], rr_abilities = [], rr_permissions = [],
      rr_nextRoleID = 0, rr_nextAssignedID = 0, rr_nextAbilityID = 0, rr_nextPermissionID = 0\<rparr>"

definition RBACRepository_GetRoles :: "RBACRepository \<Rightarrow> Role list result" where
  "RBACRepository_GetRoles r = Inr (map snd (rr_roles r))"

definition restrictedRole :: "RBACRepository \<Rightarrow> AssignedRole \<Rightarrow> RestrictedRole option" where
  "restrictedRole r assigned =
     (case map_of (rr_roles r) (AssignedRole_RoleID assigned) of
        None \<Rightarrow> None
      | Some role \<Rightarrow> Some
          \<lparr>RestrictedRole_Role = role,
           RestrictedRole_RestrictedToID = AssignedRole_RestrictedToID assigned,
           RestrictedRole_RestrictedToType = AssignedRole_RestrictedToType assigned\<rparr>)"

definition assigned_to :: "uint \<Rightarrow> EntityType \<Rightarrow> AssignedRole \<Rightarrow> bool" where
  "assigned_to entityID entityType a \<longleftrightarrow>
     AssignedRole_EntityID a = entityID \<and> AssignedRole_EntityType a = entityType"

definition RBACRepository_GetRolesForEntity ::
    "RBACRepository \<Rightarrow> uint \<Rightarrow> EntityType \<Rightarrow> RestrictedRole list result" where
  "RBACRepository_GetRolesForEntity r entityID entityType =
     Inr (List.map_filter (\<lambda>a. if assigned_to entityID entityType a then restrictedRole r a else None)
           (map snd (rr_assignedRoles r)))"

definition permission_of :: "uint \<Rightarrow> EntityType \<Rightarrow> Permission \<Rightarrow> bool" where
  "permission_of entityID entityType p \<longleftrightarrow>
     Permission_EntityID p = Some entityID \<and> Permission_EntityType p = Some entityType"

definition attach_ability :: "RBACRepository \<Rightarrow> Permission \<Rightarrow> Permission" where
  "attach_ability r p =
     (case map_of (rr_abilities r) (Permission_AbilityID p) of
        None \<Rightarrow> p
      | Some ability \<Rightarrow> p\<lparr>Permission_Ability := Some ability\<rparr>)"

definition RBACRepository_GetPermissions ::
    "RBACRepository \<Rightarrow> uint \<Rightarrow> EntityType \<Rightarrow> Permission list result" where
  "RBACRepository_GetPermissions r entityID entityType =
     Inr (map (attach_ability r)
           (filter (permission_of entityID entityType) (map snd (rr_permissions r))))"

text \<open>The saving operations write the new identifier into the caller's record, which they return.\<close>

definition RBACRepository_SaveRole :: "Role \<Rightarrow> RBACRepository \<Rightarrow> Role \<times> RBACRepository" where
  "RBACRepository_SaveRole role r =
     (let next = rr_nextRoleID r + 1;
          role' = (if Role_ID role = 0 then role\<lparr>Role_ID := id_of_counter next\<rparr> else role);
          r' = (if Role_ID role = 0 then r\<lparr>rr_nextRoleID := next\<rparr> else r)
      in (role', r'\<lparr>rr_roles := AList.update (Role_ID role') role' (rr_roles r')\<rparr>))"

definition RBACRepository_SaveAssignedRole ::
    "AssignedRole \<Rightarrow> RBACRepository \<Rightarrow> AssignedRole \<times> RBACRepository" where
  "RBACRepository_SaveAssignedRole a r =
     (let next = rr_nextAssignedID r + 1;
          a' = (if AssignedRole_ID a = 0 then a\<lparr>AssignedRole_ID := id_of_counter next\<rparr> else a);
          r' = (if AssignedRole_ID a = 0 then r\<lparr>rr_nextAssignedID := next\<rparr> else r)
      in (a', r'\<lparr>rr_assignedRoles :=
            AList.update (AssignedRole_ID a') a' (rr_assignedRoles r')\<rparr>))"

definition RBACRepository_DeleteRole :: "uint \<Rightarrow> RBACRepository \<Rightarrow> RBACRepository" where
  "RBACRepository_DeleteRole i r =
     r\<lparr>rr_roles := AList.delete i (rr_roles r),
       rr_assignedRoles := delete_if (\<lambda>_ a. AssignedRole_RoleID a = i) (rr_assignedRoles r),
       rr_permissions := delete_if (\<lambda>_ p. permission_of i EntityTypeRole p) (rr_permissions r)\<rparr>"

definition RBACRepository_DeleteAssignedRole :: "uint \<Rightarrow> RBACRepository \<Rightarrow> RBACRepository" where
  "RBACRepository_DeleteAssignedRole i r =
     r\<lparr>rr_assignedRoles := AList.delete i (rr_assignedRoles r)\<rparr>"

definition RBACRepository_SaveAbility :: "Ability \<Rightarrow> RBACRepository \<Rightarrow> Ability \<times> RBACRepository" where
  "RBACRepository_SaveAbility a r =
     (let next = rr_nextAbilityID r + 1;
          a' = (if Ability_ID a = 0 then a\<lparr>Ability_ID := id_of_counter next\<rparr> else a);
          r' = (if Ability_ID a = 0 then r\<lparr>rr_nextAbilityID := next\<rparr> else r)
      in (a', r'\<lparr>rr_abilities := AList.update (Ability_ID a') a' (rr_abilities r')\<rparr>))"

text \<open>The stored permission carries no ability; a read attaches it.\<close>

definition RBACRepository_SavePermission ::
    "Permission \<Rightarrow> RBACRepository \<Rightarrow> Permission \<times> RBACRepository" where
  "RBACRepository_SavePermission p r =
     (let next = rr_nextPermissionID r + 1;
          p' = (if Permission_ID p = 0 then p\<lparr>Permission_ID := id_of_counter next\<rparr> else p);
          r' = (if Permission_ID p = 0 then r\<lparr>rr_nextPermissionID := next\<rparr> else r)
      in (p', r'\<lparr>rr_permissions :=
            AList.update (Permission_ID p') (p'\<lparr>Permission_Ability := None\<rparr>) (rr_permissions r')\<rparr>))"

definition RBACRepository_AssignAbilityToUser :: "uint \<Rightarrow> uint \<Rightarrow> RBACRepository \<Rightarrow> RBACRepository" where
  "RBACRepository_AssignAbilityToUser userID abilityID r =
     snd (RBACRepository_SavePermission
       \<lparr>Permission_ID = 0, Permission_AbilityID = abilityID,
        Permission_EntityID = Some userID, Permission_EntityType = Some EntityTypeUser,
        Permission_Forbidden = False, Permission_Scope = None, Permission_Ability = None\<rparr> r)"

definition same_assignment :: "uint \<Rightarrow> EntityType \<Rightarrow> RestrictedRole \<Rightarrow> AssignedRole \<Rightarrow> bool" where
  "same_assignment entityID entityType role a \<longleftrightarrow>
     AssignedRole_EntityID a = entityID \<and> AssignedRole_EntityType a = entityType \<and>
     AssignedRole_RoleID a = Role_ID (RestrictedRole_Role role) \<and>
     AssignedRole_RestrictedToID a = RestrictedRole_RestrictedToID role \<and>
     AssignedRole_RestrictedToType a = RestrictedRole_RestrictedToType role"

definition new_assignment :: "uint \<Rightarrow> uint \<Rightarrow> EntityType \<Rightarrow> RestrictedRole \<Rightarrow> AssignedRole" where
  "new_assignment i entityID entityType role =
     \<lparr>AssignedRole_ID = i, AssignedRole_RoleID = Role_ID (RestrictedRole_Role role),
      AssignedRole_EntityID = entityID, AssignedRole_EntityType = entityType,
      AssignedRole_RestrictedToID = RestrictedRole_RestrictedToID role,
      AssignedRole_RestrictedToType = RestrictedRole_RestrictedToType role,
      AssignedRole_Scope = Role_Scope (RestrictedRole_Role role)\<rparr>"

definition assign_role :: "uint \<Rightarrow> EntityType \<Rightarrow> RestrictedRole \<Rightarrow> RBACRepository \<Rightarrow> RBACRepository" where
  "assign_role entityID entityType role r =
     (if list_ex (\<lambda>(_, a). same_assignment entityID entityType role a) (rr_assignedRoles r) then r
      else let next = rr_nextAssignedID r + 1; i = id_of_counter next
           in r\<lparr>rr_nextAssignedID := next,
                rr_assignedRoles :=
                  AList.update i (new_assignment i entityID entityType role) (rr_assignedRoles r)\<rparr>)"

definition RBACRepository_AssignRolesForEntity ::
    "RBACRepository \<Rightarrow> uint \<Rightarrow> EntityType \<Rightarrow> RestrictedRole list \<Rightarrow> error option \<times> RBACRepository" where
  "RBACRepository_AssignRolesForEntity r entityID entityType roles =
     (None, fold (assign_role entityID entityType) roles r)"

definition RBACRepository_ClearRolesForEntity ::
    "RBACRepository \<Rightarrow> uint \<Rightarrow> EntityType \<Rightarrow> error option \<times> RBACRepository" where
  "RBACRepository_ClearRolesForEntity r entityID entityType =
     (None, r\<lparr>rr_assignedRoles :=
        delete_if (\<lambda>_ a. assigned_to entityID entityType a) (rr_assignedRoles r)\<rparr>)"

text \<open>
  \<open>abilitiesMatch\<close> compares name, entity id, entity type and scope, a \<open>nil\<close> matching only \<open>nil\<close>:
  equality of options.
\<close>

definition abilitiesMatch :: "Ability \<Rightarrow> Ability \<Rightarrow> bool" where
  "abilitiesMatch a b \<longleftrightarrow>
     Ability_Name a = Ability_Name b \<and> Ability_EntityID a = Ability_EntityID b \<and>
     Ability_EntityType a = Ability_EntityType b \<and> Ability_Scope a = Ability_Scope b"

definition saveOrGetAbility :: "Ability \<Rightarrow> RBACRepository \<Rightarrow> uint \<times> RBACRepository" where
  "saveOrGetAbility ability r =
     (case List.find (\<lambda>(_, e). abilitiesMatch e ability) (rr_abilities r) of
        Some (_, e) \<Rightarrow> (Ability_ID e, r)
      | None \<Rightarrow>
          let next = rr_nextAbilityID r + 1; i = id_of_counter next
          in (i, r\<lparr>rr_nextAbilityID := next,
                   rr_abilities := AList.update i (ability\<lparr>Ability_ID := i\<rparr>) (rr_abilities r)\<rparr>))"

definition findAbilityIDs :: "Ability list \<Rightarrow> RBACRepository \<Rightarrow> uint list" where
  "findAbilityIDs abilities r =
     List.map_filter
       (\<lambda>ability. map_option (\<lambda>(_, e). Ability_ID e)
          (List.find (\<lambda>(_, e). abilitiesMatch e ability) (rr_abilities r)))
       abilities"

definition add_permission :: "uint \<Rightarrow> EntityType \<Rightarrow> bool \<Rightarrow> uint \<Rightarrow> RBACRepository \<Rightarrow> RBACRepository" where
  "add_permission entityID entityType forbidden abilityID r =
     (let next = rr_nextPermissionID r + 1; i = id_of_counter next
      in r\<lparr>rr_nextPermissionID := next,
           rr_permissions := AList.update i
             \<lparr>Permission_ID = i, Permission_AbilityID = abilityID,
              Permission_EntityID = Some entityID, Permission_EntityType = Some entityType,
              Permission_Forbidden = forbidden, Permission_Scope = None, Permission_Ability = None\<rparr>
             (rr_permissions r)\<rparr>)"

definition applyAbilities ::
    "uint \<Rightarrow> EntityType \<Rightarrow> Ability list \<Rightarrow> bool \<Rightarrow> RBACRepository \<Rightarrow> error option \<times> RBACRepository" where
  "applyAbilities entityID entityType abilities forbidden r =
     (if abilities = [] then (None, r)
      else let r1 = fold (\<lambda>ability s. snd (saveOrGetAbility ability s)) abilities r;
               abilityIDs = findAbilityIDs abilities r1
           in if abilityIDs = [] then (None, r1)
              else (None, fold (add_permission entityID entityType forbidden) abilityIDs r1))"

definition RBACRepository_Allow ::
    "RBACRepository \<Rightarrow> uint \<Rightarrow> EntityType \<Rightarrow> Ability list \<Rightarrow> error option \<times> RBACRepository" where
  "RBACRepository_Allow r entityID entityType abilities =
     applyAbilities entityID entityType abilities False r"

definition RBACRepository_Forbid ::
    "RBACRepository \<Rightarrow> uint \<Rightarrow> EntityType \<Rightarrow> Ability list \<Rightarrow> error option \<times> RBACRepository" where
  "RBACRepository_Forbid r entityID entityType abilities =
     applyAbilities entityID entityType abilities True r"

definition RBACRepository_Revoke ::
    "RBACRepository \<Rightarrow> uint \<Rightarrow> EntityType \<Rightarrow> Ability list \<Rightarrow> error option \<times> RBACRepository" where
  "RBACRepository_Revoke r entityID entityType abilities =
     (if abilities = [] then (None, r)
      else let abilityIDs = findAbilityIDs abilities r
           in if abilityIDs = [] then (None, r)
              else (None, r\<lparr>rr_permissions :=
                     delete_if (\<lambda>_ p. permission_of entityID entityType p \<and>
                                      List.member abilityIDs (Permission_AbilityID p))
                       (rr_permissions r)\<rparr>))"

definition inmemory_repository :: "RBACRepository Repository" where
  "inmemory_repository =
     \<lparr>GetRoles = RBACRepository_GetRoles,
      GetPermissions = RBACRepository_GetPermissions,
      GetRolesForEntity = RBACRepository_GetRolesForEntity,
      AssignRolesForEntity = RBACRepository_AssignRolesForEntity,
      ClearRolesForEntity = RBACRepository_ClearRolesForEntity,
      Allow = RBACRepository_Allow,
      Forbid = RBACRepository_Forbid,
      Revoke = RBACRepository_Revoke\<rparr>"

section \<open>Well-formed stores\<close>

text \<open>
  Every table maps an identifier to the row that carries it, the counters are not behind the
  identifiers in use, an ability key occurs once, a permission refers to a stored ability and an
  assignment to a stored role.
\<close>

definition rbac_wf :: "RBACRepository \<Rightarrow> bool" where
  "rbac_wf r \<longleftrightarrow>
     wf_map (rr_roles r) \<and> wf_map (rr_assignedRoles r) \<and>
     wf_map (rr_abilities r) \<and> wf_map (rr_permissions r) \<and>
     (\<forall>(k, v) \<in> set (rr_roles r). Role_ID v = k \<and> unat k \<le> unat (rr_nextRoleID r)) \<and>
     (\<forall>(k, v) \<in> set (rr_assignedRoles r). AssignedRole_ID v = k \<and>
        unat k \<le> unat (rr_nextAssignedID r) \<and>
        AssignedRole_RoleID v \<in> set (keys (rr_roles r))) \<and>
     (\<forall>(k, v) \<in> set (rr_abilities r). Ability_ID v = k \<and> unat k \<le> unat (rr_nextAbilityID r)) \<and>
     (\<forall>(k, v) \<in> set (rr_permissions r). Permission_ID v = k \<and>
        unat k \<le> unat (rr_nextPermissionID r) \<and> Permission_Ability v = None \<and>
        Permission_AbilityID v \<in> set (keys (rr_abilities r))) \<and>
     distinct (map (key_of \<circ> snd) (rr_abilities r))"

text \<open>\<open>n\<close> more rows fit into each table that the service writes before a counter wraps.\<close>

definition rbac_room :: "RBACRepository \<Rightarrow> nat \<Rightarrow> bool" where
  "rbac_room r n \<longleftrightarrow>
     counter_room (rr_nextAssignedID r) n \<and> counter_room (rr_nextAbilityID r) n \<and>
     counter_room (rr_nextPermissionID r) n"

definition roles_in :: "RBACRepository \<Rightarrow> Role list" where
  "roles_in r = map snd (rr_roles r)"

definition perms_in :: "RBACRepository \<Rightarrow> uint \<Rightarrow> EntityType \<Rightarrow> Permission list" where
  "perms_in r i t = map (attach_ability r) (filter (permission_of i t) (map snd (rr_permissions r)))"

definition assigned_in :: "RBACRepository \<Rightarrow> uint \<Rightarrow> EntityType \<Rightarrow> RestrictedRole list" where
  "assigned_in r i t =
     List.map_filter (\<lambda>a. if assigned_to i t a then restrictedRole r a else None)
       (map snd (rr_assignedRoles r))"

lemmas rbac_view_defs = roles_in_def perms_in_def assigned_in_def

lemma abilitiesMatch_key: "abilitiesMatch a b \<longleftrightarrow> key_of a = key_of b"
  by (auto simp: abilitiesMatch_def key_of_def)

lemma rbac_wf_new [simp]: "rbac_wf NewRBACRepository"
  by (simp add: rbac_wf_def NewRBACRepository_def)

text \<open>Reading a table of a well-formed store.\<close>

lemma wf_abilityD:
  assumes "rbac_wf r" and "(k, a) \<in> set (rr_abilities r)"
  shows "Ability_ID a = k" and "map_of (rr_abilities r) k = Some a"
  using assms by (auto simp: rbac_wf_def map_of_eq_Some)

lemma wf_ability_unique:
  assumes "rbac_wf r" and "(k, a) \<in> set (rr_abilities r)" and "(l, b) \<in> set (rr_abilities r)"
    and "key_of a = key_of b"
  shows "k = l \<and> a = b"
proof -
  have "inj_on (key_of \<circ> snd) (set (rr_abilities r))"
    using assms(1) by (simp add: rbac_wf_def distinct_map)
  from inj_onD [OF this, of "(k, a)" "(l, b)"] have "(k, a) = (l, b)" using assms(2-4) by simp
  then show ?thesis by simp
qed

lemma find_ability_Some:
  assumes "rbac_wf r" and "(k, e) \<in> set (rr_abilities r)" and "key_of e = key_of a"
  shows "List.find (\<lambda>(_, e). abilitiesMatch e a) (rr_abilities r) = Some (k, e)"
proof (cases "List.find (\<lambda>(_, e). abilitiesMatch e a) (rr_abilities r)")
  case None
  with assms show ?thesis by (auto simp: find_None_iff abilitiesMatch_key)
next
  case (Some p)
  then have "p \<in> set (rr_abilities r)" and "abilitiesMatch (snd p) a"
    by (auto dest: find_SomeD)
  then have "p = (k, e)"
    using wf_ability_unique [OF assms(1), of "fst p" "snd p" k e] assms(2,3)
    by (auto simp: abilitiesMatch_key)
  with Some show ?thesis by simp
qed

lemma set_findAbilityIDs:
  assumes "rbac_wf r"
  shows "set (findAbilityIDs abls r) =
    {k. \<exists>e. (k, e) \<in> set (rr_abilities r) \<and> key_of e \<in> key_of ` set abls}"
proof -
  have *: "(\<exists>x. List.find (\<lambda>(_, e). abilitiesMatch e a) (rr_abilities r) = Some x \<and>
             (\<lambda>(_, e). Ability_ID e) x = k) \<longleftrightarrow>
           (\<exists>e. (k, e) \<in> set (rr_abilities r) \<and> key_of e = key_of a)" for a k
  proof
    assume "\<exists>x. List.find (\<lambda>(_, e). abilitiesMatch e a) (rr_abilities r) = Some x \<and>
             (\<lambda>(_, e). Ability_ID e) x = k"
    then obtain l e where "List.find (\<lambda>(_, e). abilitiesMatch e a) (rr_abilities r) = Some (l, e)"
      and "Ability_ID e = k" by auto
    moreover from this have "(l, e) \<in> set (rr_abilities r)" "key_of e = key_of a"
      by (auto dest!: find_SomeD simp: abilitiesMatch_key)
    ultimately show "\<exists>e. (k, e) \<in> set (rr_abilities r) \<and> key_of e = key_of a"
      using wf_abilityD [OF assms] by metis
  next
    assume "\<exists>e. (k, e) \<in> set (rr_abilities r) \<and> key_of e = key_of a"
    then obtain e where e: "(k, e) \<in> set (rr_abilities r)" "key_of e = key_of a" by auto
    show "\<exists>x. List.find (\<lambda>(_, e). abilitiesMatch e a) (rr_abilities r) = Some x \<and>
             (\<lambda>(_, e). Ability_ID e) x = k"
      using find_ability_Some [OF assms e] wf_abilityD(1) [OF assms e(1)] by auto
  qed
  have "k \<in> set (findAbilityIDs abls r) \<longleftrightarrow>
      (\<exists>a \<in> set abls. \<exists>x. List.find (\<lambda>(_, e). abilitiesMatch e a) (rr_abilities r) = Some x \<and>
             (\<lambda>(_, e). Ability_ID e) x = k)" for k
    unfolding findAbilityIDs_def set_map_filter by (auto simp: split: option.splits)
  then show ?thesis unfolding * by (simp only: set_eq_iff mem_Collect_eq image_iff) blast
qed

lemma about_attach:
  assumes "rbac_wf r" and "(k, p) \<in> set (rr_permissions r)"
  shows "about abls (attach_ability r p) \<longleftrightarrow> Permission_AbilityID p \<in> set (findAbilityIDs abls r)"
proof -
  obtain a where a: "(Permission_AbilityID p, a) \<in> set (rr_abilities r)"
    using assms by (fastforce simp: rbac_wf_def)
  from wf_abilityD(2) [OF assms(1) a]
  have "about abls (attach_ability r p) \<longleftrightarrow> key_of a \<in> key_of ` set abls"
    by (simp add: about_def attach_ability_def)
  also have "\<dots> \<longleftrightarrow> Permission_AbilityID p \<in> set (findAbilityIDs abls r)"
  proof
    assume "Permission_AbilityID p \<in> set (findAbilityIDs abls r)"
    then obtain e where "(Permission_AbilityID p, e) \<in> set (rr_abilities r)"
      and "key_of e \<in> key_of ` set abls"
      using assms(1) by (auto simp: set_findAbilityIDs)
    with a show "key_of a \<in> key_of ` set abls"
      using wf_abilityD(2) [OF assms(1)] by (metis option.inject)
  qed (use a assms(1) in \<open>auto simp: set_findAbilityIDs\<close>)
  finally show ?thesis .
qed

section \<open>What the writes do to the views\<close>

lemma view_frame_simps [simp]:
  "restrictedRole (r\<lparr>rr_permissions := ps\<rparr>) = restrictedRole r"
  "restrictedRole (r\<lparr>rr_assignedRoles := as\<rparr>) = restrictedRole r"
  "restrictedRole (r\<lparr>rr_abilities := bs\<rparr>) = restrictedRole r"
  "restrictedRole (r\<lparr>rr_nextPermissionID := n\<rparr>) = restrictedRole r"
  "restrictedRole (r\<lparr>rr_nextAssignedID := n\<rparr>) = restrictedRole r"
  "restrictedRole (r\<lparr>rr_nextAbilityID := n\<rparr>) = restrictedRole r"
  "attach_ability (r\<lparr>rr_permissions := ps\<rparr>) = attach_ability r"
  "attach_ability (r\<lparr>rr_assignedRoles := as\<rparr>) = attach_ability r"
  "attach_ability (r\<lparr>rr_nextPermissionID := n\<rparr>) = attach_ability r"
  "attach_ability (r\<lparr>rr_nextAssignedID := n\<rparr>) = attach_ability r"
  "attach_ability (r\<lparr>rr_nextAbilityID := n\<rparr>) = attach_ability r"
  by (simp_all add: fun_eq_iff restrictedRole_def attach_ability_def)

text \<open>Revoking deletes exactly the holder's rows about the listed abilities.\<close>

lemma Revoke_eq:
  "RBACRepository_Revoke r i t abls =
    (None, r\<lparr>rr_permissions :=
      delete_if (\<lambda>_ p. permission_of i t p \<and> Permission_AbilityID p \<in> set (findAbilityIDs abls r))
        (rr_permissions r)\<rparr>)"
proof (cases "findAbilityIDs abls r = []")
  case True
  then show ?thesis by (simp add: RBACRepository_Revoke_def delete_if_none)
next
  case False
  moreover from False have "abls \<noteq> []" by (auto simp: findAbilityIDs_def List.map_filter_simps)
  ultimately show ?thesis by (simp add: RBACRepository_Revoke_def Let_def)
qed

lemma Revoke_wf: "rbac_wf r \<Longrightarrow> rbac_wf (snd (RBACRepository_Revoke r i t abls))"
  unfolding Revoke_eq rbac_wf_def by auto

lemma permission_of_unique: "permission_of i t p \<Longrightarrow> permission_of j u p \<Longrightarrow> j = i \<and> u = t"
  by (auto simp: permission_of_def)

lemma Revoke_frame: "frame perms_in r (snd (RBACRepository_Revoke r i t abls)) i t"
proof -
  have "filter (permission_of j u) (map snd (delete_if
      (\<lambda>_ p. permission_of i t p \<and> Permission_AbilityID p \<in> set (findAbilityIDs abls r))
      (rr_permissions r))) = filter (permission_of j u) (map snd (rr_permissions r))"
    if "(j, u) \<noteq> (i, t)" for j u
    unfolding map_snd_delete_if filter_filter
    using that by (auto intro!: filter_cong dest: permission_of_unique)
  then show ?thesis
    unfolding frame_def perms_in_def Revoke_eq by simp
qed

lemma Revoke_perms:
  assumes "rbac_wf r"
  shows "perms_in (snd (RBACRepository_Revoke r i t abls)) i t =
    filter (\<lambda>p. \<not> about abls p) (perms_in r i t)"
proof -
  have "filter (permission_of i t) (map snd (delete_if
      (\<lambda>_ p. permission_of i t p \<and> Permission_AbilityID p \<in> set (findAbilityIDs abls r))
      (rr_permissions r))) =
    filter (\<lambda>p. \<not> about abls (attach_ability r p))
      (filter (permission_of i t) (map snd (rr_permissions r)))"
    unfolding map_snd_delete_if filter_filter
    by (rule filter_cong [OF refl]) (auto simp: about_attach [OF assms])
  then show ?thesis
    unfolding perms_in_def Revoke_eq by (simp add: filter_map o_def)
qed

lemma Revoke_other_views:
  "roles_in (snd (RBACRepository_Revoke r i t abls)) = roles_in r"
  "assigned_in (snd (RBACRepository_Revoke r i t abls)) = assigned_in r"
  "rbac_room r n \<Longrightarrow> rbac_room (snd (RBACRepository_Revoke r i t abls)) n"
  by (auto simp: Revoke_eq roles_in_def assigned_in_def rbac_room_def fun_eq_iff cong: if_cong)

lemma Revoke_ok:
  assumes "rbac_wf r"
  shows "\<exists>r'. RBACRepository_Revoke r i t abls = (None, r') \<and> rbac_wf r' \<and>
    (\<forall>n. rbac_room r n \<longrightarrow> rbac_room r' n) \<and> frame perms_in r r' i t \<and>
    roles_in r' = roles_in r \<and> assigned_in r' = assigned_in r \<and>
    perms_in r' i t = filter (\<lambda>p. \<not> about abls p) (perms_in r i t)"
proof -
  have "RBACRepository_Revoke r i t abls = (None, snd (RBACRepository_Revoke r i t abls))"
    by (simp add: Revoke_eq)
  then show ?thesis
    using assms Revoke_wf Revoke_frame Revoke_perms Revoke_other_views
    by (intro exI [of _ "snd (RBACRepository_Revoke r i t abls)"]) simp
qed

text \<open>Saving abilities appends rows with fresh identifiers and new keys.\<close>

definition abilities_ext :: "RBACRepository \<Rightarrow> RBACRepository \<Rightarrow> bool" where
  "abilities_ext r r1 \<longleftrightarrow>
     (\<exists>c news. r1 = r\<lparr>rr_nextAbilityID := c, rr_abilities := rr_abilities r @ news\<rparr>)"

lemma abilities_ext_refl [simp]: "abilities_ext r r"
  unfolding abilities_ext_def by (rule exI [of _ "rr_nextAbilityID r"], rule exI [of _ "[]"]) simp

lemma abilities_ext_trans: "abilities_ext r s \<Longrightarrow> abilities_ext s u \<Longrightarrow> abilities_ext r u"
  unfolding abilities_ext_def by fastforce

lemma abilities_ext_fields:
  assumes "abilities_ext r s"
  shows "rr_roles s = rr_roles r" "rr_assignedRoles s = rr_assignedRoles r"
    "rr_permissions s = rr_permissions r" "rr_nextRoleID s = rr_nextRoleID r"
    "rr_nextAssignedID s = rr_nextAssignedID r" "rr_nextPermissionID s = rr_nextPermissionID r"
    "set (rr_abilities r) \<subseteq> set (rr_abilities s)"
  using assms by (auto simp: abilities_ext_def)

lemma abilities_ext_attach:
  assumes "abilities_ext r s" and "Permission_AbilityID p \<in> set (keys (rr_abilities r))"
  shows "attach_ability s p = attach_ability r p"
proof -
  obtain c news where s: "s = r\<lparr>rr_nextAbilityID := c, rr_abilities := rr_abilities r @ news\<rparr>"
    using assms(1) by (auto simp: abilities_ext_def)
  obtain a where "map_of (rr_abilities r) (Permission_AbilityID p) = Some a"
    using assms(2) by (metis domIff dom_map_of_conv_image_fst option.exhaust set_map)
  then show ?thesis by (simp add: s attach_ability_def map_of_append)
qed

lemma saveOrGetAbility_step:
  fixes a :: Ability
  assumes wf: "rbac_wf r" and room: "counter_room (rr_nextAbilityID r) (Suc n)"
  defines "r1 \<equiv> snd (saveOrGetAbility a r)"
  shows "rbac_wf r1" and "counter_room (rr_nextAbilityID r1) n" and "abilities_ext r r1"
    and "key_of a \<in> key_of ` snd ` set (rr_abilities r1)"
proof -
  have "rbac_wf r1 \<and> counter_room (rr_nextAbilityID r1) n \<and> abilities_ext r r1 \<and>
    key_of a \<in> key_of ` snd ` set (rr_abilities r1)"
  proof (cases "List.find (\<lambda>(_, e). abilitiesMatch e a) (rr_abilities r)")
    case (Some p)
    then have "p \<in> set (rr_abilities r)" "key_of (snd p) = key_of a"
      by (auto dest!: find_SomeD simp: abilitiesMatch_key)
    then have "key_of a \<in> key_of ` snd ` set (rr_abilities r)" by (metis imageI)
    moreover have "r1 = r" using Some by (simp add: r1_def saveOrGetAbility_def split: prod.split)
    ultimately show ?thesis using wf room by (simp add: counter_room_mono)
  next
    case None
    let ?i = "id_of_counter (rr_nextAbilityID r + 1)"
    have ks: "\<forall>k \<in> set (keys (rr_abilities r)). unat k \<le> unat (rr_nextAbilityID r)"
      using wf by (auto simp: rbac_wf_def)
    have fresh: "?i \<notin> set (keys (rr_abilities r))" by (rule next_id_fresh [OF room ks])
    have r1: "r1 = r\<lparr>rr_nextAbilityID := rr_nextAbilityID r + 1,
        rr_abilities := rr_abilities r @ [(?i, a\<lparr>Ability_ID := ?i\<rparr>)]\<rparr>"
      using None fresh
      by (simp add: r1_def saveOrGetAbility_def Let_def update_fresh)
    have new: "key_of a \<notin> (key_of \<circ> snd) ` set (rr_abilities r)"
      using None by (fastforce simp: find_None_iff abilitiesMatch_key)
    have ka: "key_of (a\<lparr>Ability_ID := ?i\<rparr>) = key_of a" by (simp add: key_of_def)
    have "rbac_wf r1"
      using wf fresh new ks unfolding r1 rbac_wf_def
      by (auto simp: wf_map_def ka counter_room_Suc [OF room])
    moreover have "counter_room (rr_nextAbilityID r1) n"
      using counter_room_step [OF room] by (simp add: r1)
    moreover have "abilities_ext r r1" unfolding abilities_ext_def r1 by blast
    moreover have "key_of a \<in> key_of ` snd ` set (rr_abilities r1)"
      by (simp add: r1 ka)
    ultimately show ?thesis by simp
  qed
  then show "rbac_wf r1" and "counter_room (rr_nextAbilityID r1) n" and "abilities_ext r r1"
    and "key_of a \<in> key_of ` snd ` set (rr_abilities r1)" by auto
qed

abbreviation save_abilities :: "Ability list \<Rightarrow> RBACRepository \<Rightarrow> RBACRepository" where
  "save_abilities abls \<equiv> fold (\<lambda>ability s. snd (saveOrGetAbility ability s)) abls"

lemma save_abilities_ok:
  assumes "rbac_wf r" and "counter_room (rr_nextAbilityID r) (length abls + n)"
  shows "rbac_wf (save_abilities abls r) \<and> counter_room (rr_nextAbilityID (save_abilities abls r)) n \<and>
    abilities_ext r (save_abilities abls r) \<and>
    key_of ` set abls \<subseteq> key_of ` snd ` set (rr_abilities (save_abilities abls r))"
  using assms
proof (induction abls arbitrary: r)
  case Nil
  then show ?case by simp
next
  case (Cons a abls)
  let ?s = "snd (saveOrGetAbility a r)"
  let ?u = "save_abilities abls ?s"
  have room: "counter_room (rr_nextAbilityID r) (Suc (length abls + n))"
    using Cons.prems(2) by simp
  note step = saveOrGetAbility_step [OF Cons.prems(1) room, of a]
  have IH: "rbac_wf ?u \<and> counter_room (rr_nextAbilityID ?u) n \<and> abilities_ext ?s ?u \<and>
    key_of ` set abls \<subseteq> key_of ` snd ` set (rr_abilities ?u)"
    by (rule Cons.IH) (use step in auto)
  then have ext: "abilities_ext r ?u" using step(3) by (blast intro: abilities_ext_trans)
  have "key_of a \<in> key_of ` snd ` set (rr_abilities ?u)"
    using step(4) abilities_ext_fields(7) [of ?s ?u] IH by blast
  with IH ext show ?case by simp
qed

text \<open>Adding permissions appends rows held by \<open>(i, t)\<close>.\<close>

lemma add_permission_step:
  fixes i t b k
  assumes wf: "rbac_wf r" and room: "counter_room (rr_nextPermissionID r) (Suc n)"
    and k: "k \<in> set (keys (rr_abilities r))"
  defines "r1 \<equiv> add_permission i t b k r"
  shows "rbac_wf r1" and "counter_room (rr_nextPermissionID r1) n"
    and "frame perms_in r r1 i t"
    and "row_of ` set (perms_in r1 i t) =
      insert (map_option key_of (map_of (rr_abilities r) k), b) (row_of ` set (perms_in r i t))"
    and "rr_abilities r1 = rr_abilities r"
    and "r1 = r\<lparr>rr_nextPermissionID := rr_nextPermissionID r1, rr_permissions := rr_permissions r1\<rparr>"
proof -
  let ?i = "id_of_counter (rr_nextPermissionID r + 1)"
  let ?p = "\<lparr>Permission_ID = ?i, Permission_AbilityID = k,
              Permission_EntityID = Some i, Permission_EntityType = Some t,
              Permission_Forbidden = b, Permission_Scope = None, Permission_Ability = None\<rparr>"
  have ks: "\<forall>k \<in> set (keys (rr_permissions r)). unat k \<le> unat (rr_nextPermissionID r)"
    using wf by (auto simp: rbac_wf_def)
  have fresh: "?i \<notin> set (keys (rr_permissions r))" by (rule next_id_fresh [OF room ks])
  have r1: "r1 = r\<lparr>rr_nextPermissionID := rr_nextPermissionID r + 1,
      rr_permissions := rr_permissions r @ [(?i, ?p)]\<rparr>"
    using fresh by (simp add: r1_def add_permission_def Let_def update_fresh)
  show "rbac_wf r1"
    using wf fresh ks k unfolding r1 rbac_wf_def
    by (auto simp: wf_map_def counter_room_Suc [OF room])
  show "counter_room (rr_nextPermissionID r1) n"
    using counter_room_step [OF room] by (simp add: r1)
  show "frame perms_in r r1 i t"
    by (auto simp: frame_def r1 perms_in_def permission_of_def)
  obtain a where "map_of (rr_abilities r) k = Some a"
    using k by (metis domIff dom_map_of_conv_image_fst option.exhaust set_map)
  then show "row_of ` set (perms_in r1 i t) =
      insert (map_option key_of (map_of (rr_abilities r) k), b) (row_of ` set (perms_in r i t))"
    by (auto simp: r1 perms_in_def permission_of_def attach_ability_def row_of_def)
  show "rr_abilities r1 = rr_abilities r"
    and "r1 = r\<lparr>rr_nextPermissionID := rr_nextPermissionID r1, rr_permissions := rr_permissions r1\<rparr>"
    by (simp_all add: r1)
qed

lemma frame_trans: "frame v r s i t \<Longrightarrow> frame v s u i t \<Longrightarrow> frame v r u i t"
  by (simp add: frame_def)

lemma add_permissions_ok:
  assumes "rbac_wf r" and "counter_room (rr_nextPermissionID r) (length ks + n)"
    and "set ks \<subseteq> set (keys (rr_abilities r))"
  shows "rbac_wf (fold (add_permission i t b) ks r) \<and>
    counter_room (rr_nextPermissionID (fold (add_permission i t b) ks r)) n \<and>
    frame perms_in r (fold (add_permission i t b) ks r) i t \<and>
    row_of ` set (perms_in (fold (add_permission i t b) ks r) i t) =
      row_of ` set (perms_in r i t) \<union>
      (\<lambda>k. (map_option key_of (map_of (rr_abilities r) k), b)) ` set ks \<and>
    (\<exists>c ps. fold (add_permission i t b) ks r = r\<lparr>rr_nextPermissionID := c, rr_permissions := ps\<rparr>)"
  using assms
proof (induction ks arbitrary: r)
  case Nil
  have "r = r\<lparr>rr_nextPermissionID := rr_nextPermissionID r, rr_permissions := rr_permissions r\<rparr>" by simp
  then have "\<exists>c ps. r = r\<lparr>rr_nextPermissionID := c, rr_permissions := ps\<rparr>" by blast
  with Nil show ?case by (simp add: frame_def)
next
  case (Cons k ks)
  let ?s = "add_permission i t b k r"
  have room: "counter_room (rr_nextPermissionID r) (Suc (length ks + n))"
    using Cons.prems(2) by simp
  have k: "k \<in> set (keys (rr_abilities r))" using Cons.prems(3) by simp
  note step = add_permission_step [OF Cons.prems(1) room k, of i t b]
  have sub: "set ks \<subseteq> set (keys (rr_abilities ?s))" using Cons.prems(3) step(5) by simp
  note IH = Cons.IH [OF step(1,2) sub]
  obtain c ps where "fold (add_permission i t b) ks ?s = ?s\<lparr>rr_nextPermissionID := c, rr_permissions := ps\<rparr>"
    using IH by blast
  also have "\<dots> = r\<lparr>rr_nextPermissionID := c, rr_permissions := ps\<rparr>"
    by (subst step(6)) simp
  finally have "\<exists>c ps. fold (add_permission i t b) (k # ks) r =
      r\<lparr>rr_nextPermissionID := c, rr_permissions := ps\<rparr>" by auto
  moreover have "frame perms_in r (fold (add_permission i t b) ks ?s) i t"
    using IH step(3) by (blast intro: frame_trans)
  ultimately show ?case using IH step(4,5) by auto
qed

lemma perms_in_ext:
  assumes "rbac_wf r" and "abilities_ext r s"
  shows "perms_in s = perms_in r"
proof (intro ext)
  fix i t
  have "attach_ability s p = attach_ability r p" if "(k, p) \<in> set (rr_permissions r)" for k p
    using assms(1) that unfolding rbac_wf_def
    by (intro abilities_ext_attach [OF assms(2)]) blast
  then show "perms_in s i t = perms_in r i t"
    unfolding perms_in_def abilities_ext_fields(3) [OF assms(2)]
    by (intro map_cong refl) auto
qed

lemma applyAbilities_ok:
  assumes wf: "rbac_wf r" and room: "rbac_room r (length abls + n)"
  shows "\<exists>r'. applyAbilities i t abls b r = (None, r') \<and> rbac_wf r' \<and> rbac_room r' n \<and>
    frame perms_in r r' i t \<and> roles_in r' = roles_in r \<and> assigned_in r' = assigned_in r \<and>
    row_of ` set (perms_in r' i t) =
      row_of ` set (perms_in r i t) \<union> (\<lambda>a. (Some (key_of a), b)) ` set abls"
proof (cases "abls = []")
  case True
  then show ?thesis using assms by (simp add: applyAbilities_def frame_def)
next
  case False
  let ?s = "save_abilities abls r"
  let ?ks = "findAbilityIDs abls ?s"
  let ?u = "fold (add_permission i t b) ?ks ?s"
  have s: "rbac_wf ?s" "counter_room (rr_nextAbilityID ?s) n" "abilities_ext r ?s"
    "key_of ` set abls \<subseteq> key_of ` snd ` set (rr_abilities ?s)"
    using save_abilities_ok [OF wf, of abls n] room by (auto simp: rbac_room_def)
  have len: "length ?ks \<le> length abls" by (simp add: findAbilityIDs_def length_map_filter_le)
  have r1: "counter_room (rr_nextPermissionID ?s) (length ?ks + n)"
    using room len abilities_ext_fields(6) [OF s(3)]
    by (auto simp: rbac_room_def elim: counter_room_mono)
  have sub: "set ?ks \<subseteq> set (keys (rr_abilities ?s))"
    by (auto simp: set_findAbilityIDs [OF s(1)] intro: rev_image_eqI)
  note u = add_permissions_ok [OF s(1) r1 sub, of i t b]
  obtain c ps where U: "?u = ?s\<lparr>rr_nextPermissionID := c, rr_permissions := ps\<rparr>" using u by blast
  have rows: "(\<lambda>k. (map_option key_of (map_of (rr_abilities ?s) k), b)) ` set ?ks =
      (\<lambda>a. (Some (key_of a), b)) ` set abls"
  proof (intro equalityI subsetI)
    fix x assume "x \<in> (\<lambda>k. (map_option key_of (map_of (rr_abilities ?s) k), b)) ` set ?ks"
    then obtain k e where "(k, e) \<in> set (rr_abilities ?s)" "key_of e \<in> key_of ` set abls"
      "x = (map_option key_of (map_of (rr_abilities ?s) k), b)"
      by (auto simp: set_findAbilityIDs [OF s(1)])
    then show "x \<in> (\<lambda>a. (Some (key_of a), b)) ` set abls"
      using wf_abilityD(2) [OF s(1)] by auto
  next
    fix x assume "x \<in> (\<lambda>a. (Some (key_of a), b)) ` set abls"
    then obtain a where a: "a \<in> set abls" "x = (Some (key_of a), b)" by auto
    then obtain k e where e: "(k, e) \<in> set (rr_abilities ?s)" "key_of e = key_of a"
      using s(4) by fastforce
    then have "k \<in> set ?ks" using a by (auto simp: set_findAbilityIDs [OF s(1)])
    moreover have "x = (map_option key_of (map_of (rr_abilities ?s) k), b)"
      using a e wf_abilityD(2) [OF s(1) e(1)] by simp
    ultimately show "x \<in> (\<lambda>k. (map_option key_of (map_of (rr_abilities ?s) k), b)) ` set ?ks"
      by blast
  qed
  have "applyAbilities i t abls b r = (None, ?u)"
    using False by (simp add: applyAbilities_def Let_def)
  moreover have "rbac_room ?u n"
  proof -
    have "counter_room (rr_nextAssignedID r) n"
      using room counter_room_mono [of _ "length abls + n" n] by (simp add: rbac_room_def)
    then show ?thesis
      using s(2) u by (simp add: U rbac_room_def abilities_ext_fields(5) [OF s(3)])
  qed
  moreover have "restrictedRole ?u = restrictedRole r"
    by (simp add: U fun_eq_iff restrictedRole_def abilities_ext_fields(1) [OF s(3)])
  then have "roles_in ?u = roles_in r \<and> assigned_in ?u = assigned_in r"
    by (simp add: U roles_in_def assigned_in_def fun_eq_iff
        abilities_ext_fields(1,2) [OF s(3)] cong: if_cong)
  moreover have "frame perms_in r ?u i t"
    using u by (simp add: frame_def perms_in_ext [OF wf s(3)])
  moreover have "row_of ` set (perms_in ?u i t) =
      row_of ` set (perms_in r i t) \<union> (\<lambda>a. (Some (key_of a), b)) ` set abls"
    using u rows by (simp add: perms_in_ext [OF wf s(3)])
  ultimately show ?thesis using u by blast
qed

text \<open>Role assignments.\<close>

lemma restrictedRole_new:
  assumes "rbac_wf r" and "RestrictedRole_Role role \<in> set (roles_in r)"
  shows "restrictedRole r (new_assignment k i t role) = Some role"
    and "Role_ID (RestrictedRole_Role role) \<in> set (keys (rr_roles r))"
proof -
  obtain j where j: "(j, RestrictedRole_Role role) \<in> set (rr_roles r)"
    using assms(2) by (auto simp: roles_in_def)
  have id: "Role_ID (RestrictedRole_Role role) = j" using assms(1) j unfolding rbac_wf_def by blast
  have "wf_map (rr_roles r)" using assms(1) by (simp add: rbac_wf_def)
  with j have "map_of (rr_roles r) (Role_ID (RestrictedRole_Role role)) = Some (RestrictedRole_Role role)"
    by (simp add: id map_of_eq_Some)
  then show "restrictedRole r (new_assignment k i t role) = Some role"
    by (simp add: restrictedRole_def new_assignment_def)
  show "Role_ID (RestrictedRole_Role role) \<in> set (keys (rr_roles r))"
    using id imageI [OF j, of fst] by simp
qed

lemma set_assigned_in:
  "role \<in> set (assigned_in r i t) \<longleftrightarrow>
    (\<exists>a \<in> snd ` set (rr_assignedRoles r). assigned_to i t a \<and> restrictedRole r a = Some role)"
  by (auto simp: assigned_in_def split: if_splits)

lemma assigned_in_append:
  assumes "rr_assignedRoles r1 = rr_assignedRoles r @ [(k, a)]" and "rr_roles r1 = rr_roles r"
  shows "assigned_in r1 i t = assigned_in r i t @
    (if assigned_to i t a then case restrictedRole r a of None \<Rightarrow> [] | Some x \<Rightarrow> [x] else [])"
proof -
  have "restrictedRole r1 = restrictedRole r" using assms by (simp add: fun_eq_iff restrictedRole_def)
  then show ?thesis
    by (simp add: assigned_in_def assms List.map_filter_def split: option.split)
qed

lemma assign_role_step:
  fixes i t role
  assumes wf: "rbac_wf r" and room: "counter_room (rr_nextAssignedID r) (Suc n)"
    and role: "RestrictedRole_Role role \<in> set (roles_in r)"
  defines "r1 \<equiv> assign_role i t role r"
  shows "rbac_wf r1" and "counter_room (rr_nextAssignedID r1) n"
    and "frame assigned_in r r1 i t"
    and "set (assigned_in r1 i t) = insert role (set (assigned_in r i t))"
    and "r1 = r\<lparr>rr_nextAssignedID := rr_nextAssignedID r1, rr_assignedRoles := rr_assignedRoles r1\<rparr>"
proof -
  have "rbac_wf r1 \<and> counter_room (rr_nextAssignedID r1) n \<and> frame assigned_in r r1 i t \<and>
    set (assigned_in r1 i t) = insert role (set (assigned_in r i t)) \<and>
    r1 = r\<lparr>rr_nextAssignedID := rr_nextAssignedID r1, rr_assignedRoles := rr_assignedRoles r1\<rparr>"
  proof (cases "list_ex (\<lambda>(_, a). same_assignment i t role a) (rr_assignedRoles r)")
    case True
    then obtain k a where a: "(k, a) \<in> set (rr_assignedRoles r)" "same_assignment i t role a"
      by (auto simp: list_ex_iff)
    have "restrictedRole r a = restrictedRole r (new_assignment k i t role)"
      using a(2)
      by (simp add: restrictedRole_def new_assignment_def same_assignment_def split: option.split)
    then have "restrictedRole r a = Some role" by (simp add: restrictedRole_new(1) [OF wf role])
    moreover have "assigned_to i t a" using a(2) by (simp add: assigned_to_def same_assignment_def)
    moreover have "a \<in> snd ` set (rr_assignedRoles r)" using a(1) by (rule rev_image_eqI) simp
    ultimately have "role \<in> set (assigned_in r i t)"
      unfolding set_assigned_in by blast
    moreover have r1: "r1 = r" using True by (simp add: r1_def assign_role_def)
    moreover have "counter_room (rr_nextAssignedID r) n" using room by (rule counter_room_mono) simp
    ultimately show ?thesis using wf by (auto simp: r1 frame_def)
  next
    case False
    let ?i = "id_of_counter (rr_nextAssignedID r + 1)"
    let ?a = "new_assignment ?i i t role"
    have ks: "\<forall>k \<in> set (keys (rr_assignedRoles r)). unat k \<le> unat (rr_nextAssignedID r)"
      using wf by (auto simp: rbac_wf_def)
    have fresh: "?i \<notin> set (keys (rr_assignedRoles r))" by (rule next_id_fresh [OF room ks])
    have r1: "r1 = r\<lparr>rr_nextAssignedID := rr_nextAssignedID r + 1,
        rr_assignedRoles := rr_assignedRoles r @ [(?i, ?a)]\<rparr>"
      using False fresh by (simp add: r1_def assign_role_def Let_def update_fresh)
    have "rbac_wf r1"
      using wf fresh ks restrictedRole_new(2) [OF wf role] unfolding r1 rbac_wf_def
      by (auto simp: wf_map_def counter_room_Suc [OF room] new_assignment_def)
    moreover have "counter_room (rr_nextAssignedID r1) n"
      using counter_room_step [OF room] by (simp add: r1)
    moreover have view: "assigned_in r1 j u =
        assigned_in r j u @ (if j = i \<and> u = t then [role] else [])" for j u
      using restrictedRole_new(1) [OF wf role, of ?i i t]
      by (subst assigned_in_append [of r1 r ?i ?a])
        (auto simp: r1 assigned_to_def new_assignment_def)
    moreover from view have "frame assigned_in r r1 i t" by (auto simp: frame_def)
    moreover have "set (assigned_in r1 i t) = insert role (set (assigned_in r i t))"
      by (simp add: view)
    moreover have "r1 = r\<lparr>rr_nextAssignedID := rr_nextAssignedID r1,
        rr_assignedRoles := rr_assignedRoles r1\<rparr>"
      by (simp add: r1)
    ultimately show ?thesis by blast
  qed
  then show "rbac_wf r1" and "counter_room (rr_nextAssignedID r1) n"
    and "frame assigned_in r r1 i t"
    and "set (assigned_in r1 i t) = insert role (set (assigned_in r i t))"
    and "r1 = r\<lparr>rr_nextAssignedID := rr_nextAssignedID r1, rr_assignedRoles := rr_assignedRoles r1\<rparr>"
    by auto
qed

lemma assign_roles_ok:
  assumes "rbac_wf r" and "counter_room (rr_nextAssignedID r) (length roles + n)"
    and "RestrictedRole_Role ` set roles \<subseteq> set (roles_in r)"
  shows "rbac_wf (fold (assign_role i t) roles r) \<and>
    counter_room (rr_nextAssignedID (fold (assign_role i t) roles r)) n \<and>
    frame assigned_in r (fold (assign_role i t) roles r) i t \<and>
    set (assigned_in (fold (assign_role i t) roles r) i t) = set (assigned_in r i t) \<union> set roles \<and>
    (\<exists>c as. fold (assign_role i t) roles r = r\<lparr>rr_nextAssignedID := c, rr_assignedRoles := as\<rparr>)"
  using assms
proof (induction roles arbitrary: r)
  case Nil
  have "r = r\<lparr>rr_nextAssignedID := rr_nextAssignedID r, rr_assignedRoles := rr_assignedRoles r\<rparr>" by simp
  then have "\<exists>c as. r = r\<lparr>rr_nextAssignedID := c, rr_assignedRoles := as\<rparr>" by blast
  with Nil show ?case by (simp add: frame_def)
next
  case (Cons role roles)
  let ?s = "assign_role i t role r"
  have room: "counter_room (rr_nextAssignedID r) (Suc (length roles + n))"
    using Cons.prems(2) by simp
  have role: "RestrictedRole_Role role \<in> set (roles_in r)" using Cons.prems(3) by simp
  note step = assign_role_step [OF Cons.prems(1) room role, of i t]
  have "roles_in ?s = roles_in r" by (subst step(5)) (simp add: roles_in_def)
  then have sub: "RestrictedRole_Role ` set roles \<subseteq> set (roles_in ?s)" using Cons.prems(3) by simp
  note IH = Cons.IH [OF step(1,2) sub]
  obtain c as where "fold (assign_role i t) roles ?s = ?s\<lparr>rr_nextAssignedID := c, rr_assignedRoles := as\<rparr>"
    using IH by blast
  also have "\<dots> = r\<lparr>rr_nextAssignedID := c, rr_assignedRoles := as\<rparr>"
    by (subst step(5)) simp
  finally have "\<exists>c as. fold (assign_role i t) (role # roles) r =
      r\<lparr>rr_nextAssignedID := c, rr_assignedRoles := as\<rparr>" by auto
  moreover have "frame assigned_in r (fold (assign_role i t) roles ?s) i t"
    using IH step(3) by (blast intro: frame_trans)
  ultimately show ?case using IH step(4) by auto
qed

lemma AssignRoles_ok:
  assumes wf: "rbac_wf r" and room: "rbac_room r (length roles + n)"
    and roles: "RestrictedRole_Role ` set roles \<subseteq> set (roles_in r)"
  shows "\<exists>r'. RBACRepository_AssignRolesForEntity r i t roles = (None, r') \<and> rbac_wf r' \<and>
    rbac_room r' n \<and> frame assigned_in r r' i t \<and> roles_in r' = roles_in r \<and>
    perms_in r' = perms_in r \<and> set (assigned_in r' i t) = set (assigned_in r i t) \<union> set roles"
proof -
  let ?u = "fold (assign_role i t) roles r"
  have "counter_room (rr_nextAssignedID r) (length roles + n)" using room by (simp add: rbac_room_def)
  note u = assign_roles_ok [OF wf this roles, of i t]
  obtain c as where U: "?u = r\<lparr>rr_nextAssignedID := c, rr_assignedRoles := as\<rparr>" using u by blast
  have "rbac_room ?u n"
  proof -
    have "counter_room (rr_nextAbilityID r) n" "counter_room (rr_nextPermissionID r) n"
      using room counter_room_mono [of _ "length roles + n" n] by (simp_all add: rbac_room_def)
    with u show ?thesis by (simp add: U rbac_room_def)
  qed
  moreover have "roles_in ?u = roles_in r" "perms_in ?u = perms_in r"
    by (simp_all add: U roles_in_def perms_in_def fun_eq_iff)
  ultimately show ?thesis using u by (simp add: RBACRepository_AssignRolesForEntity_def)
qed

lemma ClearRoles_ok:
  assumes wf: "rbac_wf r"
  shows "\<exists>r'. RBACRepository_ClearRolesForEntity r i t = (None, r') \<and> rbac_wf r' \<and>
    (\<forall>n. rbac_room r n \<longrightarrow> rbac_room r' n) \<and> frame assigned_in r r' i t \<and> roles_in r' = roles_in r \<and>
    perms_in r' = perms_in r \<and> assigned_in r' i t = []"
proof -
  let ?as = "delete_if (\<lambda>_. assigned_to i t) (rr_assignedRoles r)"
  let ?u = "r\<lparr>rr_assignedRoles := ?as\<rparr>"
  have view: "assigned_in ?u j u =
      List.map_filter (\<lambda>a. if assigned_to j u a then restrictedRole r a else None)
        (filter (\<lambda>a. \<not> assigned_to i t a) (map snd (rr_assignedRoles r)))" for j u
    by (simp add: assigned_in_def map_snd_delete_if cong: if_cong)
  have "assigned_in ?u i t = []"
    unfolding view by (auto simp: List.map_filter_def filter_empty_conv)
  moreover have "frame assigned_in r ?u i t"
    unfolding frame_def view unfolding assigned_in_def
    by (intro allI impI map_filter_skip) (auto simp: assigned_to_def)
  moreover have "rbac_wf ?u" using wf unfolding rbac_wf_def by auto
  ultimately show ?thesis
    by (simp add: RBACRepository_ClearRolesForEntity_def rbac_room_def roles_in_def perms_in_def
        fun_eq_iff)
qed

section \<open>The contract\<close>

text \<open>
  What the service relies on: the reads return the stored views; the writes succeed while there is
  room, keep the invariant and the views of every other holder, and change the addressed holder's
  rows as a set.  \<open>room s n\<close> says that \<open>n\<close> more rows can be written.
\<close>

locale rbac_repository =
  fixes R :: "'s Repository" and inv :: "'s \<Rightarrow> bool" and room :: "'s \<Rightarrow> nat \<Rightarrow> bool"
    and roles_of :: "'s \<Rightarrow> Role list"
    and perms_of :: "'s \<Rightarrow> uint \<Rightarrow> EntityType \<Rightarrow> Permission list"
    and assigned_of :: "'s \<Rightarrow> uint \<Rightarrow> EntityType \<Rightarrow> RestrictedRole list"
  assumes get_roles: "inv s \<Longrightarrow> GetRoles R s = Inr (roles_of s)"
    and get_permissions: "inv s \<Longrightarrow> GetPermissions R s i t = Inr (perms_of s i t)"
    and get_roles_for: "inv s \<Longrightarrow> GetRolesForEntity R s i t = Inr (assigned_of s i t)"
    and roles_distinct: "inv s \<Longrightarrow> distinct (map Role_ID (roles_of s))"
    and room_mono: "room s m \<Longrightarrow> n \<le> m \<Longrightarrow> room s n"
    and revoke: "inv s \<Longrightarrow> \<exists>s'. Revoke R s i t abls = (None, s') \<and> inv s' \<and>
      (\<forall>n. room s n \<longrightarrow> room s' n) \<and> frame perms_of s s' i t \<and>
      roles_of s' = roles_of s \<and> assigned_of s' = assigned_of s \<and>
      perms_of s' i t = filter (\<lambda>p. \<not> about abls p) (perms_of s i t)"
    and allow: "inv s \<Longrightarrow> room s (length abls + n) \<Longrightarrow> \<exists>s'. Allow R s i t abls = (None, s') \<and> inv s' \<and>
      room s' n \<and> frame perms_of s s' i t \<and> roles_of s' = roles_of s \<and> assigned_of s' = assigned_of s \<and>
      row_of ` set (perms_of s' i t) =
        row_of ` set (perms_of s i t) \<union> (\<lambda>a. (Some (key_of a), False)) ` set abls"
    and forbid: "inv s \<Longrightarrow> room s (length abls + n) \<Longrightarrow> \<exists>s'. Forbid R s i t abls = (None, s') \<and> inv s' \<and>
      room s' n \<and> frame perms_of s s' i t \<and> roles_of s' = roles_of s \<and> assigned_of s' = assigned_of s \<and>
      row_of ` set (perms_of s' i t) =
        row_of ` set (perms_of s i t) \<union> (\<lambda>a. (Some (key_of a), True)) ` set abls"
    and clear: "inv s \<Longrightarrow> \<exists>s'. ClearRolesForEntity R s i t = (None, s') \<and> inv s' \<and>
      (\<forall>n. room s n \<longrightarrow> room s' n) \<and> frame assigned_of s s' i t \<and> roles_of s' = roles_of s \<and>
      perms_of s' = perms_of s \<and> assigned_of s' i t = []"
    and assign: "inv s \<Longrightarrow> room s (length roles + n) \<Longrightarrow>
      RestrictedRole_Role ` set roles \<subseteq> set (roles_of s) \<Longrightarrow>
      \<exists>s'. AssignRolesForEntity R s i t roles = (None, s') \<and> inv s' \<and>
      room s' n \<and> frame assigned_of s s' i t \<and> roles_of s' = roles_of s \<and> perms_of s' = perms_of s \<and>
      set (assigned_of s' i t) = set (assigned_of s i t) \<union> set roles"

interpretation inmem: rbac_repository inmemory_repository rbac_wf rbac_room roles_in perms_in assigned_in
proof (unfold_locales, goal_cases)
  case (1 s)
  then show ?case by (simp add: inmemory_repository_def RBACRepository_GetRoles_def roles_in_def)
next
  case (2 s i t)
  then show ?case by (simp add: inmemory_repository_def RBACRepository_GetPermissions_def perms_in_def)
next
  case (3 s i t)
  then show ?case
    by (simp add: inmemory_repository_def RBACRepository_GetRolesForEntity_def assigned_in_def)
next
  case (4 s)
  then have "map Role_ID (roles_in s) = keys (rr_roles s)"
    by (auto simp: roles_in_def rbac_wf_def)
  with 4 show ?case by (simp add: rbac_wf_def wf_map_def)
next
  case (5 s m n)
  then show ?case by (auto simp: rbac_room_def elim: counter_room_mono)
next
  case (6 s i t abls)
  then show ?case
    using Revoke_ok by (simp add: inmemory_repository_def)
next
  case (7 s abls n i t)
  then show ?case using applyAbilities_ok
    by (simp add: inmemory_repository_def RBACRepository_Allow_def)
next
  case (8 s abls n i t)
  then show ?case using applyAbilities_ok
    by (simp add: inmemory_repository_def RBACRepository_Forbid_def)
next
  case (9 s i t)
  then show ?case using ClearRoles_ok by (simp add: inmemory_repository_def)
next
  case (10 s roles n i t)
  then show ?case using AssignRoles_ok by (simp add: inmemory_repository_def)
qed

end
