(* ===== verification/RBAC_Service.thy ===== *)
theory RBAC_Service
  imports RBAC_Repository
begin

text \<open>
  The access-control service: \<open>internal/rbac/rbac.go\<close>, its permission cache
  \<open>internal/rbac/cache.go\<close>, and the transaction managers it runs its writes under
  (\<open>internal/services/transactionmanager.go\<close>).

  The service state holds the store of the repository, the cache and the memo of the
  administrative roles.  Every operation takes the repository interface \<open>R\<close> and the current time;
  an operation that reads the clock twice reads the same time twice.  The writes take the
  transaction manager's \<open>Do\<close> as a parameter: the production one is a third-party package.
\<close>

section \<open>The permission cache\<close>

type_synonym permission_map = "(AbilityName \<times> Permission list) list"
type_synonym cacheKey = "EntityType \<times> uint"

record cacheEntry =
  ce_Permissions :: permission_map
  ce_ExpiresAt :: time

definition cacheEntry_IsExpired :: "time \<Rightarrow> cacheEntry \<Rightarrow> bool" where
  "cacheEntry_IsExpired now e \<longleftrightarrow> ce_ExpiresAt e < now"

record permissionCache =
  pc_cache :: "(cacheKey \<times> cacheEntry) list"
  pc_ttl :: duration

definition newPermissionCache :: "duration \<Rightarrow> permissionCache" where
  "newPermissionCache ttl = \<lparr>pc_cache = [], pc_ttl = ttl\<rparr>"

definition permissionCache_Get :: "time \<Rightarrow> cacheKey \<Rightarrow> permissionCache \<Rightarrow> permission_map option" where
  "permissionCache_Get now k c =
     (if pc_ttl c = 0 then None
      else case map_of (pc_cache c) k of
             None \<Rightarrow> None
           | Some e \<Rightarrow> if cacheEntry_IsExpired now e then None else Some (ce_Permissions e))"

definition permissionCache_Set ::
    "time \<Rightarrow> cacheKey \<Rightarrow> permission_map \<Rightarrow> permissionCache \<Rightarrow> permissionCache" where
  "permissionCache_Set now k permissions c =
     (if pc_ttl c = 0 then c
      else c\<lparr>pc_cache := AList.update k
               \<lparr>ce_Permissions = permissions, ce_ExpiresAt = now + pc_ttl c\<rparr> (pc_cache c)\<rparr>)"

definition permissionCache_Delete :: "cacheKey \<Rightarrow> permissionCache \<Rightarrow> permissionCache" where
  "permissionCache_Delete k c = c\<lparr>pc_cache := AList.delete k (pc_cache c)\<rparr>"

definition permissionCache_Clear :: "permissionCache \<Rightarrow> permissionCache" where
  "permissionCache_Clear c = c\<lparr>pc_cache := []\<rparr>"

definition permissionCache_Len :: "permissionCache \<Rightarrow> nat" where
  "permissionCache_Len c = length (pc_cache c)"

text \<open>One tick of the cleanup goroutine.\<close>

definition permissionCache_cleanup :: "time \<Rightarrow> permissionCache \<Rightarrow> permissionCache" where
  "permissionCache_cleanup now c =
     c\<lparr>pc_cache := delete_if (\<lambda>_ e. cacheEntry_IsExpired now e) (pc_cache c)\<rparr>"

section \<open>The service\<close>

record 's RBAC =
  rbac_store :: 's
  rbac_cache :: permissionCache
  rbac_adminRolesNames :: "string list option"
  rbac_adminRolesExpires :: time
  rbac_cacheTTL :: duration

definition NewRBAC :: "'s \<Rightarrow> duration \<Rightarrow> 's RBAC" where
  "NewRBAC s cacheTTL =
     \<lparr>rbac_store = s, rbac_cache = newPermissionCache cacheTTL,
      rbac_adminRolesNames = None, rbac_adminRolesExpires = 0, rbac_cacheTTL = cacheTTL\<rparr>"

definition InvalidateUserCache :: "uint \<Rightarrow> 's RBAC \<Rightarrow> 's RBAC" where
  "InvalidateUserCache userID r =
     r\<lparr>rbac_cache := permissionCache_Delete (EntityTypeUser, userID) (rbac_cache r)\<rparr>"

definition InvalidateCache :: "'s RBAC \<Rightarrow> 's RBAC" where
  "InvalidateCache r =
     r\<lparr>rbac_cache := permissionCache_Clear (rbac_cache r), rbac_adminRolesNames := None\<rparr>"

definition cleanup_tick :: "time \<Rightarrow> 's RBAC \<Rightarrow> 's RBAC" where
  "cleanup_tick now r = r\<lparr>rbac_cache := permissionCache_cleanup now (rbac_cache r)\<rparr>"

text \<open>Indexing a map of slices gives the empty slice for a missing key.\<close>

definition rows_for :: "permission_map \<Rightarrow> AbilityName \<Rightarrow> Permission list" where
  "rows_for m name = (case map_of m name of None \<Rightarrow> [] | Some ps \<Rightarrow> ps)"

text \<open>The filter a restricted role applies to the rows of the role.\<close>

definition restrict_permissions :: "RestrictedRole \<Rightarrow> Permission list \<Rightarrow> Permission list" where
  "restrict_permissions role ps =
     (case (RestrictedRole_RestrictedToType role, RestrictedRole_RestrictedToID role) of
        (None, None) \<Rightarrow> ps
      | (Some ty, None) \<Rightarrow> filter (\<lambda>p. case Permission_Ability p of
            None \<Rightarrow> False | Some a \<Rightarrow> Ability_EntityType a = Some ty) ps
      | (Some ty, Some i) \<Rightarrow> filter (\<lambda>p. case Permission_Ability p of
            None \<Rightarrow> False | Some a \<Rightarrow> Ability_EntityID a = Some i) ps
      | (None, Some i) \<Rightarrow> [])"

fun add_role_permissions ::
    "'s Repository \<Rightarrow> 's \<Rightarrow> RestrictedRole list \<Rightarrow> Permission list \<Rightarrow> Permission list result" where
  "add_role_permissions R s [] acc = Inr acc"
| "add_role_permissions R s (role # roles) acc =
     (case GetPermissions R s (Role_ID (RestrictedRole_Role role)) EntityTypeRole of
        Inl e \<Rightarrow> Inl (WithMessage e ''failed to get permissions for role'')
      | Inr ps \<Rightarrow> add_role_permissions R s roles (acc @ restrict_permissions role ps))"

fun group_by_ability :: "Permission list \<Rightarrow> permission_map \<Rightarrow> permission_map" where
  "group_by_ability [] m = m"
| "group_by_ability (p # ps) m =
     (case Permission_Ability p of
        None \<Rightarrow> group_by_ability ps m
      | Some a \<Rightarrow> group_by_ability ps
          (AList.update (Ability_Name a) (rows_for m (Ability_Name a) @ [p]) m))"

definition getAllPermissionsForUser ::
    "'s Repository \<Rightarrow> time \<Rightarrow> uint \<Rightarrow> 's RBAC \<Rightarrow> permission_map result \<times> 's RBAC" where
  "getAllPermissionsForUser R now userID r =
     (case permissionCache_Get now (EntityTypeUser, userID) (rbac_cache r) of
        Some permissions \<Rightarrow> (Inr permissions, r)
      | None \<Rightarrow>
         (case GetPermissions R (rbac_store r) userID EntityTypeUser of
            Inl e \<Rightarrow> (Inl (WithMessage e ''failed to get all permissions for user''), r)
          | Inr userPermissions \<Rightarrow>
             (case GetRolesForEntity R (rbac_store r) userID EntityTypeUser of
                Inl e \<Rightarrow> (Inl (WithMessage e ''failed to get roles for user''), r)
              | Inr roles \<Rightarrow>
                 (case add_role_permissions R (rbac_store r) roles userPermissions of
                    Inl e \<Rightarrow> (Inl e, r)
                  | Inr ps \<Rightarrow>
                      let permissions = group_by_ability ps []
                      in (Inr permissions,
                          r\<lparr>rbac_cache := permissionCache_Set now (EntityTypeUser, userID)
                                            permissions (rbac_cache r)\<rparr>)))))"

text \<open>
  A check reads the rows and decides; \<open>check_with\<close> is the part the four checks share.
\<close>

definition check_with ::
    "'s Repository \<Rightarrow> time \<Rightarrow> uint \<Rightarrow> (permission_map \<Rightarrow> bool) \<Rightarrow> 's RBAC \<Rightarrow> bool result \<times> 's RBAC" where
  "check_with R now userID decide r =
     (case getAllPermissionsForUser R now userID r of
        (Inl e, r') \<Rightarrow> (Inl (WithMessage e ''get permissions for user''), r')
      | (Inr m, r') \<Rightarrow> (Inr (decide m), r'))"

text \<open>
  The inner loop of \<open>Can\<close>: \<open>None\<close> is its early \<open>return false\<close>, \<open>Some b\<close> says whether the loop was
  left by the \<open>break\<close> that counts the ability.
\<close>

fun can_scan :: "Permission list \<Rightarrow> bool option" where
  "can_scan [] = Some False"
| "can_scan (p # ps) =
     (if Permission_Forbidden p then None
      else case Permission_Ability p of
             None \<Rightarrow> can_scan ps
           | Some a \<Rightarrow>
               if Ability_EntityType a \<noteq> None then can_scan ps
               else if Ability_EntityID a = None then Some True
               else can_scan ps)"

fun can_loop :: "permission_map \<Rightarrow> AbilityName list \<Rightarrow> nat \<Rightarrow> nat option" where
  "can_loop m [] counter = Some counter"
| "can_loop m (name # names) counter =
     (case can_scan (rows_for m name) of
        None \<Rightarrow> None
      | Some counted \<Rightarrow> can_loop m names (if counted then counter + 1 else counter))"

definition can_decide :: "AbilityName list \<Rightarrow> permission_map \<Rightarrow> bool" where
  "can_decide names m = (can_loop m names 0 = Some (length names))"

definition Can :: "'s Repository \<Rightarrow> time \<Rightarrow> uint \<Rightarrow> AbilityName list \<Rightarrow> 's RBAC \<Rightarrow> bool result \<times> 's RBAC" where
  "Can R now userID abilities = check_with R now userID (can_decide abilities)"

definition unscoped_allow :: "Permission \<Rightarrow> bool" where
  "unscoped_allow p \<longleftrightarrow> \<not> Permission_Forbidden p \<and>
     (case Permission_Ability p of
        None \<Rightarrow> False
      | Some a \<Rightarrow> Ability_EntityType a = None \<and> Ability_EntityID a = None)"

definition CanOneOf :: "'s Repository \<Rightarrow> time \<Rightarrow> uint \<Rightarrow> AbilityName list \<Rightarrow> 's RBAC \<Rightarrow> bool result \<times> 's RBAC" where
  "CanOneOf R now userID abilities =
     check_with R now userID
       (\<lambda>m. list_ex (\<lambda>name. list_ex unscoped_allow (rows_for m name)) abilities)"

definition abilityScopeMatchesEntity :: "Ability option \<Rightarrow> EntityType \<Rightarrow> uint \<Rightarrow> bool" where
  "abilityScopeMatchesEntity ability entityType entityID =
     (case ability of
        None \<Rightarrow> False
      | Some a \<Rightarrow>
          if Ability_EntityType a = None \<and> Ability_EntityID a = None then True
          else case Ability_EntityType a of
                 None \<Rightarrow> False
               | Some ty \<Rightarrow>
                   if ty \<noteq> entityType then False
                   else case Ability_EntityID a of None \<Rightarrow> True | Some i \<Rightarrow> i = entityID)"

fun grants_scan :: "Permission list \<Rightarrow> EntityType \<Rightarrow> uint \<Rightarrow> bool \<Rightarrow> bool" where
  "grants_scan [] entityType entityID granted = granted"
| "grants_scan (p # ps) entityType entityID granted =
     (if \<not> abilityScopeMatchesEntity (Permission_Ability p) entityType entityID
      then grants_scan ps entityType entityID granted
      else if Permission_Forbidden p then False
      else grants_scan ps entityType entityID True)"

definition grantsAbilityForEntity :: "Permission list \<Rightarrow> EntityType \<Rightarrow> uint \<Rightarrow> bool" where
  "grantsAbilityForEntity ps entityType entityID = grants_scan ps entityType entityID False"

definition CanForEntity ::
    "'s Repository \<Rightarrow> time \<Rightarrow> uint \<Rightarrow> EntityType \<Rightarrow> uint \<Rightarrow> AbilityName list \<Rightarrow> 's RBAC \<Rightarrow>
     bool result \<times> 's RBAC" where
  "CanForEntity R now userID entityType entityID abilities =
     check_with R now userID
       (\<lambda>m. list_all (\<lambda>name. grantsAbilityForEntity (rows_for m name) entityType entityID) abilities)"

definition CanAnyForEntity ::
    "'s Repository \<Rightarrow> time \<Rightarrow> uint \<Rightarrow> EntityType \<Rightarrow> uint \<Rightarrow> AbilityName list \<Rightarrow> 's RBAC \<Rightarrow>
     bool result \<times> 's RBAC" where
  "CanAnyForEntity R now userID entityType entityID abilities =
     check_with R now userID
       (\<lambda>m. list_ex (\<lambda>name. grantsAbilityForEntity (rows_for m name) entityType entityID) abilities)"

definition RBAC_GetRoles :: "'s Repository \<Rightarrow> uint \<Rightarrow> 's RBAC \<Rightarrow> string list result" where
  "RBAC_GetRoles R userID r =
     (case GetRolesForEntity R (rbac_store r) userID EntityTypeUser of
        Inl e \<Rightarrow> Inl (WithMessage e ''failed to get roles for user'')
      | Inr roles \<Rightarrow> Inr (map (Role_Name \<circ> RestrictedRole_Role) roles))"

definition grants_admin :: "Permission \<Rightarrow> bool" where
  "grants_admin p \<longleftrightarrow> \<not> Permission_Forbidden p \<and>
     (case Permission_Ability p of
        None \<Rightarrow> False | Some a \<Rightarrow> Ability_Name a = AbilityNameAdminRolesPermissions)"

fun admin_role_names :: "'s Repository \<Rightarrow> 's \<Rightarrow> Role list \<Rightarrow> string list \<Rightarrow> string list result" where
  "admin_role_names R s [] names = Inr names"
| "admin_role_names R s (role # roles) names =
     (case GetPermissions R s (Role_ID role) EntityTypeRole of
        Inl e \<Rightarrow> Inl (WithMessage e ''failed to get role permissions'')
      | Inr ps \<Rightarrow> admin_role_names R s roles
          (if list_ex grants_admin ps then names @ [Role_Name role] else names))"

definition computeAdministrativeRoles :: "'s Repository \<Rightarrow> 's \<Rightarrow> string list result" where
  "computeAdministrativeRoles R s =
     (case GetRoles R s of
        Inl e \<Rightarrow> Inl (WithMessage e ''failed to get roles'')
      | Inr roles \<Rightarrow> admin_role_names R s roles [])"

definition AdministrativeRoles ::
    "'s Repository \<Rightarrow> time \<Rightarrow> 's RBAC \<Rightarrow> string list result \<times> 's RBAC" where
  "AdministrativeRoles R now r =
     (case rbac_adminRolesNames r of
        Some names \<Rightarrow>
          if now < rbac_adminRolesExpires r then (Inr names, r)
          else (case computeAdministrativeRoles R (rbac_store r) of
                  Inl e \<Rightarrow> (Inl e, r)
                | Inr ns \<Rightarrow> (Inr ns, r\<lparr>rbac_adminRolesNames := Some ns,
                               rbac_adminRolesExpires := now + rbac_cacheTTL r\<rparr>))
      | None \<Rightarrow>
          (case computeAdministrativeRoles R (rbac_store r) of
             Inl e \<Rightarrow> (Inl e, r)
           | Inr ns \<Rightarrow> (Inr ns, r\<lparr>rbac_adminRolesNames := Some ns,
                          rbac_adminRolesExpires := now + rbac_cacheTTL r\<rparr>)))"

section \<open>The writes\<close>

type_synonym 's tx = "('s RBAC \<Rightarrow> error option \<times> 's RBAC) \<Rightarrow> 's RBAC \<Rightarrow> error option \<times> 's RBAC"

definition NilTransactionManager_Do :: "'s tx" where
  "NilTransactionManager_Do fn r = fn r"

definition rolesByName :: "Role list \<Rightarrow> (string \<times> Role) list" where
  "rolesByName roles = fold (\<lambda>role m. AList.update (Role_Name role) role m) roles []"

fun restricted_roles :: "(string \<times> Role) list \<Rightarrow> string list \<Rightarrow> RestrictedRole list result" where
  "restricted_roles m [] = Inr []"
| "restricted_roles m (name # names) =
     (case map_of m name of
        None \<Rightarrow> Inl (InvalidRoleNameError name)
      | Some role \<Rightarrow>
          (case restricted_roles m names of
             Inl e \<Rightarrow> Inl e
           | Inr roles \<Rightarrow> Inr (NewRestrictedRoleFromRole role # roles)))"

definition setRolesToUser ::
    "'s Repository \<Rightarrow> uint \<Rightarrow> string list \<Rightarrow> 's RBAC \<Rightarrow> error option \<times> 's RBAC" where
  "setRolesToUser R userID roleNames r =
     (case GetRoles R (rbac_store r) of
        Inl e \<Rightarrow> (Some (WithMessage e ''failed to get roles''), r)
      | Inr roles \<Rightarrow>
         (case restricted_roles (rolesByName roles) roleNames of
            Inl e \<Rightarrow> (Some e, r)
          | Inr restrictedRoles \<Rightarrow>
             (case ClearRolesForEntity R (rbac_store r) userID EntityTypeUser of
                (Some e, s) \<Rightarrow> (Some (WithMessage e ''failed to clear roles for user''), r\<lparr>rbac_store := s\<rparr>)
              | (None, s) \<Rightarrow>
                 (case AssignRolesForEntity R s userID EntityTypeUser restrictedRoles of
                    (Some e, s') \<Rightarrow>
                      (Some (WithMessage e ''failed to assign roles to user''), r\<lparr>rbac_store := s'\<rparr>)
                  | (None, s') \<Rightarrow> (None, r\<lparr>rbac_store := s'\<rparr>)))))"

definition SetRolesToUser ::
    "'s Repository \<Rightarrow> 's tx \<Rightarrow> uint \<Rightarrow> string list \<Rightarrow> 's RBAC \<Rightarrow> error option \<times> 's RBAC" where
  "SetRolesToUser R tm userID roleNames r =
     (case tm (setRolesToUser R userID roleNames) r of
        (Some e, r') \<Rightarrow> (Some e, r')
      | (None, r') \<Rightarrow> (None, InvalidateUserCache userID r'))"

definition entity_abilities :: "time \<Rightarrow> uint \<Rightarrow> EntityType \<Rightarrow> AbilityName list \<Rightarrow> Ability list" where
  "entity_abilities now entityID entityType abilityNames =
     map (\<lambda>name. CreateAbilityForEntity now name entityID entityType) abilityNames"

definition allow_in_tx ::
    "'s Repository \<Rightarrow> uint \<Rightarrow> Ability list \<Rightarrow> 's RBAC \<Rightarrow> error option \<times> 's RBAC" where
  "allow_in_tx R userID abilities r =
     (case Revoke R (rbac_store r) userID EntityTypeUser abilities of
        (Some e, s) \<Rightarrow> (Some (WithMessage e ''failed to revoke abilities for user''), r\<lparr>rbac_store := s\<rparr>)
      | (None, s) \<Rightarrow>
         (case Allow R s userID EntityTypeUser abilities of
            (Some e, s') \<Rightarrow>
              (Some (WithMessage e ''failed to allow abilities for user''), r\<lparr>rbac_store := s'\<rparr>)
          | (None, s') \<Rightarrow>
              (None, r\<lparr>rbac_store := s',
                       rbac_cache := permissionCache_Delete (EntityTypeUser, userID) (rbac_cache r)\<rparr>)))"

definition AllowUserAbilitiesForEntity ::
    "'s Repository \<Rightarrow> 's tx \<Rightarrow> time \<Rightarrow> uint \<Rightarrow> uint \<Rightarrow> EntityType \<Rightarrow> AbilityName list \<Rightarrow> 's RBAC \<Rightarrow>
     error option \<times> 's RBAC" where
  "AllowUserAbilitiesForEntity R tm now userID entityID entityType abilityNames =
     tm (allow_in_tx R userID (entity_abilities now entityID entityType abilityNames))"

text \<open>The loop of the revocation that collects the abilities the user still has.\<close>

fun still_allowed ::
    "'s Repository \<Rightarrow> time \<Rightarrow> uint \<Rightarrow> EntityType \<Rightarrow> uint \<Rightarrow> Ability list \<Rightarrow> Ability list \<Rightarrow> 's RBAC \<Rightarrow>
     Ability list result \<times> 's RBAC" where
  "still_allowed R now userID entityType entityID [] acc r = (Inr acc, r)"
| "still_allowed R now userID entityType entityID (a # abls) acc r =
     (case CanForEntity R now userID entityType entityID [Ability_Name a] r of
        (Inl e, r') \<Rightarrow> (Inl (WithMessage e ''failed to check abilities for user''), r')
      | (Inr can, r') \<Rightarrow>
          still_allowed R now userID entityType entityID abls (if can then acc @ [a] else acc) r')"

definition revoke_in_tx ::
    "'s Repository \<Rightarrow> time \<Rightarrow> uint \<Rightarrow> uint \<Rightarrow> EntityType \<Rightarrow> Ability list \<Rightarrow> 's RBAC \<Rightarrow> error option \<times> 's RBAC" where
  "revoke_in_tx R now userID entityID entityType abilities r =
     (case Revoke R (rbac_store r) userID EntityTypeUser abilities of
        (Some e, s) \<Rightarrow> (Some (WithMessage e ''failed to revoke abilities for user''), r\<lparr>rbac_store := s\<rparr>)
      | (None, s) \<Rightarrow>
         (case still_allowed R now userID entityType entityID abilities []
                 (InvalidateUserCache userID (r\<lparr>rbac_store := s\<rparr>)) of
            (Inl e, r') \<Rightarrow> (Some e, r')
          | (Inr forbidAbilities, r') \<Rightarrow>
             (if forbidAbilities = [] then (None, r')
              else case Forbid R (rbac_store r') userID EntityTypeUser forbidAbilities of
                     (Some e, s') \<Rightarrow>
                       (Some (WithMessage e ''failed to forbid abilities for user''), r'\<lparr>rbac_store := s'\<rparr>)
                   | (None, s') \<Rightarrow> (None, InvalidateUserCache userID (r'\<lparr>rbac_store := s'\<rparr>)))))"

definition RevokeOrForbidUserAbilitiesForEntity ::
    "'s Repository \<Rightarrow> 's tx \<Rightarrow> time \<Rightarrow> uint \<Rightarrow> uint \<Rightarrow> EntityType \<Rightarrow> AbilityName list \<Rightarrow> 's RBAC \<Rightarrow>
     error option \<times> 's RBAC" where
  "RevokeOrForbidUserAbilitiesForEntity R tm now userID entityID entityType abilityNames =
     tm (revoke_in_tx R now userID entityID entityType
           (entity_abilities now entityID entityType abilityNames))"

section \<open>Transaction managers\<close>

text \<open>
  What the writes rely on: a transaction that reports success ran its body, which reported
  success, and kept its effects; one that reports an error did not start, or ran the body and
  either kept its effects or rolled the store back (never the process-local cache).
\<close>

locale transaction_manager =
  fixes tm :: "'s tx"
  assumes do_ok: "tm fn r = (None, r') \<Longrightarrow> fn r = (None, r')"
    and do_error: "tm fn r = (Some e, r') \<Longrightarrow>
      r' = r \<or> r' = snd (fn r) \<or> r' = (snd (fn r))\<lparr>rbac_store := rbac_store r\<rparr>"

interpretation nil_tm: transaction_manager NilTransactionManager_Do
  by unfold_locales (auto simp: NilTransactionManager_Do_def)

section \<open>What the checks decide\<close>

text \<open>
  The reference decision: some matching row allows and no matching row forbids.
\<close>

definition granted :: "Permission set \<Rightarrow> AbilityName \<Rightarrow> EntityType \<Rightarrow> uint \<Rightarrow> bool" where
  "granted P name t i \<longleftrightarrow>
     (\<exists>p \<in> P. map_option Ability_Name (Permission_Ability p) = Some name \<and>
        abilityScopeMatchesEntity (Permission_Ability p) t i \<and> \<not> Permission_Forbidden p) \<and>
     (\<forall>p \<in> P. map_option Ability_Name (Permission_Ability p) = Some name \<longrightarrow>
        abilityScopeMatchesEntity (Permission_Ability p) t i \<longrightarrow> \<not> Permission_Forbidden p)"

lemma grants_scan_iff:
  "grants_scan ps t i b \<longleftrightarrow>
    (b \<or> (\<exists>p \<in> set ps. abilityScopeMatchesEntity (Permission_Ability p) t i)) \<and>
    (\<forall>p \<in> set ps. abilityScopeMatchesEntity (Permission_Ability p) t i \<longrightarrow> \<not> Permission_Forbidden p)"
  by (induction ps arbitrary: b) auto

lemma rows_for_update:
  "rows_for (AList.update n v m) name = (if name = n then v else rows_for m name)"
  by (simp add: rows_for_def)

lemma rows_for_Nil [simp]: "rows_for [] name = []"
  by (simp add: rows_for_def)

lemma rows_for_group:
  "rows_for (group_by_ability ps m) name = rows_for m name @
    filter (\<lambda>p. map_option Ability_Name (Permission_Ability p) = Some name) ps"
  by (induction ps arbitrary: m) (auto simp: rows_for_update split: option.splits)

lemma grants_rows:
  assumes "set (rows_for m name) = {p \<in> P. map_option Ability_Name (Permission_Ability p) = Some name}"
  shows "grantsAbilityForEntity (rows_for m name) t i \<longleftrightarrow> granted P name t i"
  unfolding grantsAbilityForEntity_def grants_scan_iff granted_def assms by auto

text \<open>Which rows match an entity, by the key of the ability.\<close>

definition key_matches :: "ability_key \<Rightarrow> EntityType \<Rightarrow> uint \<Rightarrow> bool" where
  "key_matches key t i \<longleftrightarrow> (case key of (n, k, ty, sc) \<Rightarrow>
     (ty = None \<and> k = None) \<or> (ty = Some t \<and> (k = None \<or> k = Some i)))"

definition granted_rows :: "(ability_key option \<times> bool) set \<Rightarrow> AbilityName \<Rightarrow> EntityType \<Rightarrow> uint \<Rightarrow> bool" where
  "granted_rows K name t i \<longleftrightarrow>
     (\<exists>k. (Some k, False) \<in> K \<and> fst k = name \<and> key_matches k t i) \<and>
     (\<forall>k. (Some k, True) \<in> K \<longrightarrow> fst k = name \<longrightarrow> \<not> key_matches k t i)"

lemma scope_matches_key: "abilityScopeMatchesEntity (Some a) t i = key_matches (key_of a) t i"
  by (auto simp: abilityScopeMatchesEntity_def key_of_def key_matches_def split: option.splits)

lemma fst_key_of [simp]: "fst (key_of a) = Ability_Name a"
  by (simp add: key_of_def)

lemma row_of_iff:
  "(Some k, b) \<in> row_of ` P \<longleftrightarrow>
    (\<exists>p \<in> P. \<exists>a. Permission_Ability p = Some a \<and> key_of a = k \<and> Permission_Forbidden p = b)"
  unfolding image_iff row_of_def prod.inject eq_commute [of "Some k"] eq_commute [of b] map_option_eq_Some
  by blast

lemma matching_rows:
  "(\<exists>p \<in> P. map_option Ability_Name (Permission_Ability p) = Some name \<and>
      abilityScopeMatchesEntity (Permission_Ability p) t i \<and> Permission_Forbidden p = b) \<longleftrightarrow>
    (\<exists>k. (Some k, b) \<in> row_of ` P \<and> fst k = name \<and> key_matches k t i)"
proof
  assume "\<exists>p \<in> P. map_option Ability_Name (Permission_Ability p) = Some name \<and>
      abilityScopeMatchesEntity (Permission_Ability p) t i \<and> Permission_Forbidden p = b"
  then obtain p a where "p \<in> P" "Permission_Ability p = Some a" "Ability_Name a = name"
    "key_matches (key_of a) t i" "Permission_Forbidden p = b"
    by (auto simp: scope_matches_key)
  then have "(Some (key_of a), b) \<in> row_of ` P \<and> fst (key_of a) = name \<and> key_matches (key_of a) t i"
    unfolding row_of_iff by auto
  then show "\<exists>k. (Some k, b) \<in> row_of ` P \<and> fst k = name \<and> key_matches k t i" by blast
next
  assume "\<exists>k. (Some k, b) \<in> row_of ` P \<and> fst k = name \<and> key_matches k t i"
  then obtain k p a where "p \<in> P" "Permission_Ability p = Some a" "key_of a = k" "fst k = name"
    "key_matches k t i" "Permission_Forbidden p = b"
    unfolding row_of_iff by blast
  then show "\<exists>p \<in> P. map_option Ability_Name (Permission_Ability p) = Some name \<and>
      abilityScopeMatchesEntity (Permission_Ability p) t i \<and> Permission_Forbidden p = b"
    using fst_key_of [of a] by (intro bexI [of _ p]) (simp_all add: scope_matches_key)
qed

lemma granted_row_of: "granted P name t i \<longleftrightarrow> granted_rows (row_of ` P) name t i"
  using matching_rows [of P name t i True] matching_rows [of P name t i False]
  unfolding granted_def granted_rows_def by blast

lemma granted_rows_cong:
  assumes "\<And>k b. fst k = name \<Longrightarrow> key_matches k t i \<Longrightarrow> (Some k, b) \<in> K \<longleftrightarrow> (Some k, b) \<in> L"
  shows "granted_rows K name t i = granted_rows L name t i"
  using assms unfolding granted_rows_def by blast

lemma granted_rows_forbid:
  "granted_rows (K \<union> (\<lambda>a. (Some (f a), True)) ` A) name t i \<longleftrightarrow>
    granted_rows K name t i \<and> \<not> (\<exists>a \<in> A. fst (f a) = name \<and> key_matches (f a) t i)"
proof -
  have "(Some k, b) \<in> (\<lambda>a. (Some (f a), True)) ` A \<longleftrightarrow> b \<and> k \<in> f ` A" for k b by auto
  then show ?thesis unfolding granted_rows_def Un_iff by blast
qed

lemma can_scan_Some_True: "can_scan ps = Some True \<Longrightarrow> list_ex unscoped_allow ps"
  by (induction ps) (auto simp: unscoped_allow_def split: if_splits option.splits)

lemma can_scan_no_forbid:
  "list_all (\<lambda>p. \<not> Permission_Forbidden p) ps \<Longrightarrow> can_scan ps = Some (list_ex unscoped_allow ps)"
  by (induction ps) (auto simp: unscoped_allow_def split: option.splits)

lemma can_loop_bound: "can_loop m names c = Some d \<Longrightarrow> d \<le> c + length names"
  by (induction names arbitrary: c) (fastforce split: option.splits if_splits)+

lemma can_loop_iff:
  "can_loop m names c = Some (c + length names) \<longleftrightarrow>
    (\<forall>name \<in> set names. can_scan (rows_for m name) = Some True)"
proof (induction names arbitrary: c)
  case Nil
  then show ?case by simp
next
  case (Cons name names)
  show ?case
  proof (cases "can_scan (rows_for m name)")
    case (Some counted)
    then show ?thesis
      using Cons.IH [of "Suc c"] can_loop_bound [of m names c "Suc (c + length names)"]
      by (cases counted) auto
  qed simp
qed

lemma can_decide_iff:
  "can_decide names m \<longleftrightarrow> (\<forall>name \<in> set names. can_scan (rows_for m name) = Some True)"
  using can_loop_iff [of m names 0] by (simp add: can_decide_def)

section \<open>Coherence of the cache\<close>

text \<open>
  The rows that bear on a user: the user's own and those of the assigned roles, as restricted.
\<close>

definition role_rows ::
    "(uint \<Rightarrow> EntityType \<Rightarrow> Permission list) \<Rightarrow> RestrictedRole list \<Rightarrow> Permission list" where
  "role_rows perms roles =
     concat (map (\<lambda>role. restrict_permissions role
       (perms (Role_ID (RestrictedRole_Role role)) EntityTypeRole)) roles)"

definition effective ::
    "(uint \<Rightarrow> EntityType \<Rightarrow> Permission list) \<Rightarrow> (uint \<Rightarrow> EntityType \<Rightarrow> RestrictedRole list) \<Rightarrow>
     uint \<Rightarrow> Permission list" where
  "effective perms assigned u = perms u EntityTypeUser @ role_rows perms (assigned u EntityTypeUser)"

text \<open>The rows a map lists under a name are the rows of \<open>P\<close> with that ability name.\<close>

definition lists_rows :: "permission_map \<Rightarrow> Permission list \<Rightarrow> bool" where
  "lists_rows m ps \<longleftrightarrow> (\<forall>name. set (rows_for m name) =
     {p \<in> set ps. map_option Ability_Name (Permission_Ability p) = Some name})"

definition coherent ::
    "(uint \<Rightarrow> EntityType \<Rightarrow> Permission list) \<Rightarrow> (uint \<Rightarrow> EntityType \<Rightarrow> RestrictedRole list) \<Rightarrow>
     permissionCache \<Rightarrow> bool" where
  "coherent perms assigned c \<longleftrightarrow> wf_map (pc_cache c) \<and>
     (\<forall>(k, e) \<in> set (pc_cache c).
        fst k = EntityTypeUser \<and> lists_rows (ce_Permissions e) (effective perms assigned (snd k)))"

definition admin_names :: "Role list \<Rightarrow> (uint \<Rightarrow> EntityType \<Rightarrow> Permission list) \<Rightarrow> string set" where
  "admin_names roles perms =
     {Role_Name role | role. role \<in> set roles \<and> list_ex grants_admin (perms (Role_ID role) EntityTypeRole)}"

definition memo_coherent ::
    "Role list \<Rightarrow> (uint \<Rightarrow> EntityType \<Rightarrow> Permission list) \<Rightarrow> string list option \<Rightarrow> bool" where
  "memo_coherent roles perms memo \<longleftrightarrow>
     (case memo of None \<Rightarrow> True | Some names \<Rightarrow> set names = admin_names roles perms)"

lemma lists_rows_group: "lists_rows (group_by_ability ps []) ps"
  by (auto simp: lists_rows_def rows_for_group)

lemma lists_rows_grants:
  "lists_rows m ps \<Longrightarrow> grantsAbilityForEntity (rows_for m name) t i = granted (set ps) name t i"
  by (rule grants_rows) (simp add: lists_rows_def)

lemma coherent_cache_ops:
  assumes "coherent perms assigned c"
  shows "coherent perms assigned (permissionCache_Delete k c)"
    and "coherent perms assigned (permissionCache_Clear c)"
    and "coherent perms assigned (permissionCache_cleanup now c)"
    and "lists_rows m (effective perms assigned u) \<Longrightarrow>
      coherent perms assigned (permissionCache_Set now (EntityTypeUser, u) m c)"
    and "permissionCache_Get now (EntityTypeUser, u) c = Some m \<Longrightarrow>
      lists_rows m (effective perms assigned u)"
proof -
  show "coherent perms assigned (permissionCache_Delete k c)"
    using assms by (auto simp: coherent_def permissionCache_Delete_def)
  show "coherent perms assigned (permissionCache_Clear c)"
    by (simp add: coherent_def permissionCache_Clear_def)
  show "coherent perms assigned (permissionCache_cleanup now c)"
    using assms by (auto simp: coherent_def permissionCache_cleanup_def)
  show "coherent perms assigned (permissionCache_Set now (EntityTypeUser, u) m c)"
    if "lists_rows m (effective perms assigned u)"
    using assms that by (auto simp: coherent_def permissionCache_Set_def dest!: set_alist_update)
  show "lists_rows m (effective perms assigned u)"
    if "permissionCache_Get now (EntityTypeUser, u) c = Some m"
    using assms that
    by (auto simp: coherent_def permissionCache_Get_def dest!: map_of_SomeD
        split: if_splits option.splits)
qed

text \<open>A change of the store that leaves the rows of the other users alone keeps the other entries.\<close>

lemma coherent_frame:
  assumes "coherent perms assigned c"
    and "\<And>v. v \<noteq> u \<Longrightarrow> effective perms' assigned' v = effective perms assigned v"
  shows "coherent perms' assigned' (permissionCache_Delete (EntityTypeUser, u) c)"
  using assms by (fastforce simp: coherent_def permissionCache_Delete_def)

text \<open>
  The invariant of the service, over the views of a store: the store is well formed, every cached
  permission set lists the rows that bear on its user now, and the memo of the administrative roles
  is up to date.
\<close>

definition service_ok ::
    "('s \<Rightarrow> bool) \<Rightarrow> ('s \<Rightarrow> Role list) \<Rightarrow> ('s \<Rightarrow> uint \<Rightarrow> EntityType \<Rightarrow> Permission list) \<Rightarrow>
     ('s \<Rightarrow> uint \<Rightarrow> EntityType \<Rightarrow> RestrictedRole list) \<Rightarrow> 's RBAC \<Rightarrow> bool" where
  "service_ok good roles perms assigned r \<longleftrightarrow> good (rbac_store r) \<and>
     coherent (perms (rbac_store r)) (assigned (rbac_store r)) (rbac_cache r) \<and>
     memo_coherent (roles (rbac_store r)) (perms (rbac_store r)) (rbac_adminRolesNames r)"

text \<open>The keys of the abilities that a grant or a revocation for one entity writes.\<close>

definition entity_keys :: "uint \<Rightarrow> EntityType \<Rightarrow> AbilityName list \<Rightarrow> ability_key set" where
  "entity_keys i t names = (\<lambda>name. (name, Some i, Some t, None)) ` set names"

lemma key_of_entity_abilities:
  "key_of ` set (entity_abilities now i t names) = entity_keys i t names"
  by (simp add: entity_abilities_def entity_keys_def image_image)

lemma length_entity_abilities [simp]: "length (entity_abilities now i t names) = length names"
  by (simp add: entity_abilities_def)

lemma entity_keys_match:
  "k \<in> entity_keys i t names \<Longrightarrow> key_matches k t' i' \<longleftrightarrow> t' = t \<and> i' = i"
  "k \<in> entity_keys i t names \<Longrightarrow> fst k \<in> set names"
  by (auto simp: entity_keys_def key_matches_def)

lemma about_row: "about abls p \<longleftrightarrow> fst (row_of p) \<in> Some ` key_of ` set abls"
  by (auto simp: about_def row_of_def)

lemma frame_role_rows:
  "frame perms s s' u EntityTypeUser \<Longrightarrow> role_rows (perms s') roles = role_rows (perms s) roles"
  by (simp add: role_rows_def frame_def)

lemma frame_effective:
  "frame perms s s' u EntityTypeUser \<Longrightarrow> v \<noteq> u \<Longrightarrow>
    effective (perms s') assigned v = effective (perms s) assigned v"
  by (simp add: effective_def frame_role_rows) (simp add: frame_def)

lemma frame_memo:
  "frame perms s s' u EntityTypeUser \<Longrightarrow> memo_coherent roles (perms s') m = memo_coherent roles (perms s) m"
  by (simp add: memo_coherent_def admin_names_def frame_def split: option.split)

lemma row_of_effective:
  "row_of ` set (effective perms assigned u) =
    row_of ` set (perms u EntityTypeUser) \<union> row_of ` set (role_rows perms (assigned u EntityTypeUser))"
  by (simp add: effective_def image_Un)

text \<open>Looking up the roles of an assignment by name.\<close>

lemma map_of_rolesByName:
  "map_of (rolesByName roles) name = Some role \<Longrightarrow> role \<in> set roles \<and> Role_Name role = name"
proof -
  have "map_of (fold (\<lambda>role m. AList.update (Role_Name role) role m) roles m) name = Some role \<Longrightarrow>
      (role \<in> set roles \<and> Role_Name role = name) \<or> map_of m name = Some role" for m
    by (induction roles arbitrary: m) (fastforce split: if_splits)+
  from this [of "[]"] show "map_of (rolesByName roles) name = Some role \<Longrightarrow> role \<in> set roles \<and> Role_Name role = name"
    by (simp add: rolesByName_def)
qed

lemma dom_rolesByName: "dom (map_of (rolesByName roles)) = Role_Name ` set roles"
proof -
  have "dom (map_of (fold (\<lambda>role m. AList.update (Role_Name role) role m) roles m)) =
      dom (map_of m) \<union> Role_Name ` set roles" for m
    by (induction roles arbitrary: m) auto
  from this [of "[]"] show ?thesis by (simp add: rolesByName_def)
qed

lemma restrict_unrestricted: "restrict_permissions (NewRestrictedRoleFromRole role) = id"
  by (simp add: restrict_permissions_def fun_eq_iff)

lemma restricted_roles_Inr:
  assumes "restricted_roles (rolesByName roles) names = Inr rs"
  shows "length rs = length names" and "RestrictedRole_Role ` set rs \<subseteq> set roles"
    and "map (Role_Name \<circ> RestrictedRole_Role) rs = names"
    and "\<forall>role \<in> set rs. restrict_permissions role = id"
proof -
  have "length rs = length names \<and> RestrictedRole_Role ` set rs \<subseteq> set roles \<and>
    map (Role_Name \<circ> RestrictedRole_Role) rs = names \<and> (\<forall>role \<in> set rs. restrict_permissions role = id)"
    using assms
    by (induction names arbitrary: rs)
      (auto simp: restrict_unrestricted image_subset_iff split: option.splits sum.splits
        dest!: map_of_rolesByName)
  then show "length rs = length names" and "RestrictedRole_Role ` set rs \<subseteq> set roles"
    and "map (Role_Name \<circ> RestrictedRole_Role) rs = names"
    and "\<forall>role \<in> set rs. restrict_permissions role = id" by auto
qed

lemma restricted_roles_total:
  "(\<exists>rs. restricted_roles (rolesByName roles) names = Inr rs) \<longleftrightarrow> set names \<subseteq> Role_Name ` set roles"
proof (induction names)
  case (Cons name names)
  have "map_of (rolesByName roles) name \<noteq> None \<longleftrightarrow> name \<in> Role_Name ` set roles"
    unfolding dom_rolesByName [symmetric] by blast
  with Cons show ?case by (auto split: option.splits sum.splits)
qed simp

lemma restricted_roles_Inl:
  "restricted_roles m names = Inl e \<Longrightarrow> \<exists>name \<in> set names. e = InvalidRoleNameError name \<and> map_of m name = None"
  by (induction names) (auto split: option.splits sum.splits)

section \<open>The service over a repository that keeps its contract\<close>

locale rbac_service = rbac_repository R inv room roles_of perms_of assigned_of + transaction_manager tm
  for R :: "'s Repository" and inv room roles_of perms_of assigned_of and tm :: "'s tx"
begin

abbreviation svc_ok :: "'s RBAC \<Rightarrow> bool" where
  "svc_ok \<equiv> service_ok inv roles_of perms_of assigned_of"

abbreviation rows :: "'s RBAC \<Rightarrow> uint \<Rightarrow> Permission list" where
  "rows r \<equiv> effective (perms_of (rbac_store r)) (assigned_of (rbac_store r))"

lemma svc_ok_new: "inv s \<Longrightarrow> svc_ok (NewRBAC s ttl)"
  by (simp add: service_ok_def NewRBAC_def coherent_def newPermissionCache_def memo_coherent_def)

lemma add_role_permissions_ok:
  "inv s \<Longrightarrow> add_role_permissions R s roles acc = Inr (acc @ role_rows (perms_of s) roles)"
  by (induction roles arbitrary: acc) (simp_all add: get_permissions role_rows_def)

lemma getAll_ok:
  assumes "svc_ok r"
  shows "\<exists>m c. getAllPermissionsForUser R now u r = (Inr m, r\<lparr>rbac_cache := c\<rparr>) \<and>
    lists_rows m (rows r u) \<and> svc_ok (r\<lparr>rbac_cache := c\<rparr>)"
proof (cases "permissionCache_Get now (EntityTypeUser, u) (rbac_cache r)")
  case None
  let ?m = "group_by_ability (rows r u) []"
  let ?c = "permissionCache_Set now (EntityTypeUser, u) ?m (rbac_cache r)"
  have "getAllPermissionsForUser R now u r = (Inr ?m, r\<lparr>rbac_cache := ?c\<rparr>)"
    using None assms
    by (simp add: getAllPermissionsForUser_def service_ok_def get_permissions get_roles_for
        add_role_permissions_ok effective_def Let_def)
  moreover have "svc_ok (r\<lparr>rbac_cache := ?c\<rparr>)"
    using assms by (auto simp: service_ok_def intro!: coherent_cache_ops(4) lists_rows_group)
  ultimately show ?thesis using lists_rows_group by blast
next
  case (Some m)
  then have "lists_rows m (rows r u)"
    using assms unfolding service_ok_def by (blast intro: coherent_cache_ops(5))
  moreover have "getAllPermissionsForUser R now u r = (Inr m, r\<lparr>rbac_cache := rbac_cache r\<rparr>)"
    using Some by (simp add: getAllPermissionsForUser_def)
  moreover have "svc_ok (r\<lparr>rbac_cache := rbac_cache r\<rparr>)" using assms by simp
  ultimately show ?thesis by blast
qed

lemma check_with_ok:
  assumes "svc_ok r" and "\<And>m. lists_rows m (rows r u) \<Longrightarrow> decide m = d"
  shows "\<exists>c. check_with R now u decide r = (Inr d, r\<lparr>rbac_cache := c\<rparr>) \<and> svc_ok (r\<lparr>rbac_cache := c\<rparr>)"
  using getAll_ok [OF assms(1), of now u] assms(2) by (auto simp: check_with_def)

lemma CanForEntity_ok:
  assumes "svc_ok r"
  shows "\<exists>c. CanForEntity R now u t i names r =
      (Inr (\<forall>name \<in> set names. granted (set (rows r u)) name t i), r\<lparr>rbac_cache := c\<rparr>) \<and>
    svc_ok (r\<lparr>rbac_cache := c\<rparr>)"
  unfolding CanForEntity_def
  by (rule check_with_ok [OF assms]) (simp add: list_all_iff lists_rows_grants)

lemma CanAnyForEntity_ok:
  assumes "svc_ok r"
  shows "\<exists>c. CanAnyForEntity R now u t i names r =
      (Inr (\<exists>name \<in> set names. granted (set (rows r u)) name t i), r\<lparr>rbac_cache := c\<rparr>) \<and>
    svc_ok (r\<lparr>rbac_cache := c\<rparr>)"
  unfolding CanAnyForEntity_def
  by (rule check_with_ok [OF assms]) (simp add: list_ex_iff lists_rows_grants)

lemma CanOneOf_ok:
  assumes "svc_ok r"
  shows "\<exists>c. CanOneOf R now u names r =
      (Inr (\<exists>p \<in> set (rows r u). unscoped_allow p \<and>
         (\<exists>name \<in> set names. map_option Ability_Name (Permission_Ability p) = Some name)),
       r\<lparr>rbac_cache := c\<rparr>) \<and> svc_ok (r\<lparr>rbac_cache := c\<rparr>)"
  unfolding CanOneOf_def
  by (rule check_with_ok [OF assms]) (auto simp: list_ex_iff lists_rows_def)

lemma Can_sound:
  assumes "svc_ok r"
  shows "\<exists>b c. Can R now u names r = (Inr b, r\<lparr>rbac_cache := c\<rparr>) \<and> svc_ok (r\<lparr>rbac_cache := c\<rparr>) \<and>
    (b \<longrightarrow> (\<forall>name \<in> set names. \<exists>p \<in> set (rows r u). unscoped_allow p \<and>
       map_option Ability_Name (Permission_Ability p) = Some name)) \<and>
    ((\<forall>p \<in> set (rows r u). map_option Ability_Name (Permission_Ability p) \<in> Some ` set names \<longrightarrow>
        \<not> Permission_Forbidden p) \<longrightarrow>
     (\<forall>name \<in> set names. \<exists>p \<in> set (rows r u). unscoped_allow p \<and>
       map_option Ability_Name (Permission_Ability p) = Some name) \<longrightarrow> b)"
proof -
  obtain m c where m: "getAllPermissionsForUser R now u r = (Inr m, r\<lparr>rbac_cache := c\<rparr>)"
    "lists_rows m (rows r u)" "svc_ok (r\<lparr>rbac_cache := c\<rparr>)"
    using getAll_ok [OF assms, of now u] by blast
  have "Can R now u names r = (Inr (can_decide names m), r\<lparr>rbac_cache := c\<rparr>)"
    using m(1) by (simp add: Can_def check_with_def)
  moreover have "\<forall>name \<in> set names. \<exists>p \<in> set (rows r u). unscoped_allow p \<and>
       map_option Ability_Name (Permission_Ability p) = Some name" if "can_decide names m"
    using that m(2) can_scan_Some_True
    unfolding can_decide_iff lists_rows_def list_ex_iff by fastforce
  moreover have "can_decide names m"
    if "\<forall>p \<in> set (rows r u). map_option Ability_Name (Permission_Ability p) \<in> Some ` set names \<longrightarrow>
        \<not> Permission_Forbidden p"
      and "\<forall>name \<in> set names. \<exists>p \<in> set (rows r u). unscoped_allow p \<and>
       map_option Ability_Name (Permission_Ability p) = Some name"
    unfolding can_decide_iff
  proof
    fix name assume name: "name \<in> set names"
    have "list_all (\<lambda>p. \<not> Permission_Forbidden p) (rows_for m name)"
      using that(1) name m(2) by (auto simp: list_all_iff lists_rows_def)
    moreover have "list_ex unscoped_allow (rows_for m name)"
      using that(2) name m(2) unfolding list_ex_iff lists_rows_def by blast
    ultimately show "can_scan (rows_for m name) = Some True" by (simp add: can_scan_no_forbid)
  qed
  ultimately show ?thesis using m(3) by blast
qed

lemma svc_ok_user_write:
  assumes "svc_ok r" and "inv s" and "frame perms_of (rbac_store r) s u EntityTypeUser"
    and "roles_of s = roles_of (rbac_store r)" and "assigned_of s = assigned_of (rbac_store r)"
  shows "svc_ok (InvalidateUserCache u (r\<lparr>rbac_store := s\<rparr>))"
  using assms coherent_frame [of "perms_of (rbac_store r)" "assigned_of (rbac_store r)" "rbac_cache r" u
      "perms_of s" "assigned_of s"]
  by (simp add: service_ok_def InvalidateUserCache_def frame_effective frame_memo)

lemma still_allowed_ok:
  assumes "svc_ok r"
  shows "\<exists>c. still_allowed R now u t i abls acc r =
      (Inr (acc @ filter (\<lambda>a. granted (set (rows r u)) (Ability_Name a) t i) abls), r\<lparr>rbac_cache := c\<rparr>) \<and>
    svc_ok (r\<lparr>rbac_cache := c\<rparr>)"
  using assms
proof (induction abls arbitrary: acc r)
  case Nil
  then show ?case by (auto intro: exI [of _ "rbac_cache r"])
next
  case (Cons a abls)
  let ?g = "granted (set (rows r u)) (Ability_Name a) t i"
  obtain c where c: "CanForEntity R now u t i [Ability_Name a] r = (Inr ?g, r\<lparr>rbac_cache := c\<rparr>)"
    "svc_ok (r\<lparr>rbac_cache := c\<rparr>)"
    using CanForEntity_ok [OF Cons.prems, of now u t i "[Ability_Name a]"] by auto
  from Cons.IH [OF c(2), of "if ?g then acc @ [a] else acc"] show ?case
    by (cases ?g) (auto simp: c(1))
qed

text \<open>The rows of the user after a revocation of the keys \<open>K\<close>.\<close>

abbreviation kept :: "'s \<Rightarrow> uint \<Rightarrow> ability_key set \<Rightarrow> (ability_key option \<times> bool) set" where
  "kept s u K \<equiv>
     {x \<in> row_of ` set (perms_of s u EntityTypeUser). fst x \<notin> Some ` K} \<union>
     row_of ` set (role_rows (perms_of s) (assigned_of s u EntityTypeUser))"

lemma revoke_user:
  assumes "inv s"
  shows "\<exists>s'. Revoke R s u EntityTypeUser (entity_abilities now i t names) = (None, s') \<and> inv s' \<and>
    (\<forall>n. room s n \<longrightarrow> room s' n) \<and> frame perms_of s s' u EntityTypeUser \<and>
    roles_of s' = roles_of s \<and> assigned_of s' = assigned_of s \<and>
    row_of ` set (perms_of s' u EntityTypeUser) =
      {x \<in> row_of ` set (perms_of s u EntityTypeUser). fst x \<notin> Some ` entity_keys i t names} \<and>
    row_of ` set (effective (perms_of s') (assigned_of s') u) = kept s u (entity_keys i t names)"
proof -
  let ?abls = "entity_abilities now i t names"
  obtain s' where s': "Revoke R s u EntityTypeUser ?abls = (None, s')" "inv s'"
    "\<forall>n. room s n \<longrightarrow> room s' n" "frame perms_of s s' u EntityTypeUser"
    "roles_of s' = roles_of s" "assigned_of s' = assigned_of s"
    "perms_of s' u EntityTypeUser = filter (\<lambda>p. \<not> about ?abls p) (perms_of s u EntityTypeUser)"
    using revoke [OF assms, of u EntityTypeUser ?abls] by blast
  have "row_of ` set (perms_of s' u EntityTypeUser) =
      {x \<in> row_of ` set (perms_of s u EntityTypeUser). fst x \<notin> Some ` entity_keys i t names}"
    unfolding s'(7) about_row key_of_entity_abilities by auto
  with s' show ?thesis by (auto simp: row_of_effective frame_role_rows)
qed

lemma allow_in_tx_ok:
  assumes ok: "svc_ok r" and room: "room (rbac_store r) (length names + n)"
  shows "\<exists>r'. allow_in_tx R u (entity_abilities now i t names) r = (None, r') \<and> svc_ok r' \<and>
    room (rbac_store r') n \<and> (\<forall>v. v \<noteq> u \<longrightarrow> rows r' v = rows r v) \<and>
    row_of ` set (rows r' u) = kept (rbac_store r) u (entity_keys i t names) \<union>
      (\<lambda>k. (Some k, False)) ` entity_keys i t names"
proof -
  let ?s = "rbac_store r" and ?abls = "entity_abilities now i t names" and ?K = "entity_keys i t names"
  have inv: "inv ?s" using ok by (simp add: service_ok_def)
  obtain s1 where s1: "Revoke R ?s u EntityTypeUser ?abls = (None, s1)" "inv s1"
    "room s1 (length ?abls + n)" "frame perms_of ?s s1 u EntityTypeUser"
    "roles_of s1 = roles_of ?s" "assigned_of s1 = assigned_of ?s"
    "row_of ` set (perms_of s1 u EntityTypeUser) =
      {x \<in> row_of ` set (perms_of ?s u EntityTypeUser). fst x \<notin> Some ` ?K}"
    using revoke_user [OF inv, of u now i t names] room by auto
  obtain s2 where s2: "Allow R s1 u EntityTypeUser ?abls = (None, s2)" "inv s2" "room s2 n"
    "frame perms_of s1 s2 u EntityTypeUser" "roles_of s2 = roles_of s1" "assigned_of s2 = assigned_of s1"
    "row_of ` set (perms_of s2 u EntityTypeUser) = row_of ` set (perms_of s1 u EntityTypeUser) \<union>
      (\<lambda>a. (Some (key_of a), False)) ` set ?abls"
    using allow [OF s1(2,3), of u EntityTypeUser] by blast
  let ?r = "InvalidateUserCache u (r\<lparr>rbac_store := s2\<rparr>)"
  have fr: "frame perms_of ?s s2 u EntityTypeUser" using s1(4) s2(4) by (rule frame_trans)
  have "allow_in_tx R u ?abls r = (None, ?r)"
    by (simp add: allow_in_tx_def s1(1) s2(1) InvalidateUserCache_def)
  moreover have "svc_ok ?r"
    by (rule svc_ok_user_write [OF ok s2(2) fr]) (simp_all add: s1 s2)
  moreover have "\<forall>v. v \<noteq> u \<longrightarrow> rows ?r v = rows r v"
    using frame_effective [OF fr] by (simp add: InvalidateUserCache_def s1(6) s2(6))
  moreover have "(\<lambda>a. (Some (key_of a), False)) ` set ?abls = (\<lambda>k. (Some k, False)) ` ?K"
    by (simp add: key_of_entity_abilities [of now, symmetric] image_image)
  then have "row_of ` set (rows ?r u) = kept ?s u ?K \<union> (\<lambda>k. (Some k, False)) ` ?K"
    by (simp add: InvalidateUserCache_def row_of_effective s1(6) s2(6) frame_role_rows [OF fr] s2(7) s1(7))
       (simp add: Un_ac)
  ultimately show ?thesis using s2(3) by (auto simp: InvalidateUserCache_def)
qed

lemma revoke_in_tx_ok:
  assumes ok: "svc_ok r" and room: "room (rbac_store r) (length names + n)"
  shows "\<exists>r'. revoke_in_tx R now u i t (entity_abilities now i t names) r = (None, r') \<and> svc_ok r' \<and>
    room (rbac_store r') n \<and> (\<forall>v. v \<noteq> u \<longrightarrow> rows r' v = rows r v) \<and>
    row_of ` set (rows r' u) = kept (rbac_store r) u (entity_keys i t names) \<union>
      (\<lambda>k. (Some k, True)) ` {k \<in> entity_keys i t names.
         granted_rows (kept (rbac_store r) u (entity_keys i t names)) (fst k) t i}"
proof -
  let ?s = "rbac_store r" and ?abls = "entity_abilities now i t names" and ?K = "entity_keys i t names"
  have inv: "inv ?s" using ok by (simp add: service_ok_def)
  obtain s1 where s1: "Revoke R ?s u EntityTypeUser ?abls = (None, s1)" "inv s1"
    "room s1 (length ?abls + n)" "frame perms_of ?s s1 u EntityTypeUser"
    "roles_of s1 = roles_of ?s" "assigned_of s1 = assigned_of ?s"
    "row_of ` set (effective (perms_of s1) (assigned_of s1) u) = kept ?s u ?K"
    using revoke_user [OF inv, of u now i t names] room by auto
  let ?r1 = "InvalidateUserCache u (r\<lparr>rbac_store := s1\<rparr>)"
  let ?g = "\<lambda>a. granted (set (rows ?r1 u)) (Ability_Name a) t i"
  have st: "rbac_store ?r1 = s1" by (simp add: InvalidateUserCache_def)
  have "svc_ok ?r1" by (rule svc_ok_user_write [OF ok s1(2) s1(4) s1(5) s1(6)])
  from still_allowed_ok [OF this, of now u t i ?abls "[]"]
  obtain c where c: "still_allowed R now u t i ?abls [] ?r1 =
      (Inr (filter ?g ?abls), ?r1\<lparr>rbac_cache := c\<rparr>)" "svc_ok (?r1\<lparr>rbac_cache := c\<rparr>)" by auto
  let ?r2 = "?r1\<lparr>rbac_cache := c\<rparr>"
  have st2: "rbac_store ?r2 = s1" by (simp add: st)
  have len: "room s1 (length (filter ?g ?abls) + (length ?abls - length (filter ?g ?abls) + n))"
    using s1(3) length_filter_le [of ?g ?abls] by simp
  obtain s2 where s2: "Forbid R s1 u EntityTypeUser (filter ?g ?abls) = (None, s2)" "inv s2"
    "room s2 (length ?abls - length (filter ?g ?abls) + n)"
    "frame perms_of s1 s2 u EntityTypeUser" "roles_of s2 = roles_of s1" "assigned_of s2 = assigned_of s1"
    "row_of ` set (perms_of s2 u EntityTypeUser) = row_of ` set (perms_of s1 u EntityTypeUser) \<union>
      (\<lambda>a. (Some (key_of a), True)) ` set (filter ?g ?abls)"
    using forbid [OF s1(2) len, of u EntityTypeUser] by blast
  have keys: "(\<lambda>a. (Some (key_of a), True)) ` set (filter ?g ?abls) =
      (\<lambda>k. (Some k, True)) ` {k \<in> ?K. granted_rows (kept ?s u ?K) (fst k) t i}"
    unfolding granted_row_of st s1(7)
    by (auto simp: key_of_entity_abilities [of now, symmetric] image_iff)
  show ?thesis
  proof (cases "filter ?g ?abls = []")
    case True
    then have run: "revoke_in_tx R now u i t ?abls r = (None, ?r2)"
      by (simp add: revoke_in_tx_def s1(1) c(1))
    have none: "{k \<in> ?K. granted_rows (kept ?s u ?K) (fst k) t i} = {}"
      using keys [symmetric] unfolding True list.set image_empty image_is_empty .
    have rm: "room (rbac_store ?r2) n" using s1(3) room_mono by (auto simp: st2)
    have others: "\<forall>v. v \<noteq> u \<longrightarrow> rows ?r2 v = rows r v"
      using frame_effective [OF s1(4)] by (simp add: st2 s1(6))
    have "row_of ` set (rows ?r2 u) = kept ?s u ?K \<union>
        (\<lambda>k. (Some k, True)) ` {k \<in> ?K. granted_rows (kept ?s u ?K) (fst k) t i}"
      unfolding st2 s1(7) none by (simp only: image_empty Un_empty_right)
    then show ?thesis by (intro exI [of _ ?r2] conjI run c(2) rm others)
  next
    case False
    let ?r3 = "InvalidateUserCache u (?r2\<lparr>rbac_store := s2\<rparr>)"
    have st3: "rbac_store ?r3 = s2" by (simp add: InvalidateUserCache_def)
    have run: "revoke_in_tx R now u i t ?abls r = (None, ?r3)"
      using False s2(1) by (simp add: revoke_in_tx_def s1(1) c(1) st)
    have ok3: "svc_ok ?r3"
      by (rule svc_ok_user_write [OF c(2) s2(2)]) (simp_all add: st s2)
    have rm: "room (rbac_store ?r3) n" using s2(3) room_mono by (auto simp: st3)
    have others: "\<forall>v. v \<noteq> u \<longrightarrow> rows ?r3 v = rows r v"
      using frame_effective [OF frame_trans [OF s1(4) s2(4)]] by (simp add: st3 s1(6) s2(6))
    have "row_of ` set (rows ?r3 u) = kept ?s u ?K \<union>
        (\<lambda>k. (Some k, True)) ` {k \<in> ?K. granted_rows (kept ?s u ?K) (fst k) t i}"
      unfolding st3 row_of_effective s2(6,7) frame_role_rows [OF s2(4)] keys
        s1(7) [symmetric, unfolded row_of_effective] by blast
    then show ?thesis by (intro exI [of _ ?r3] conjI run ok3 rm others)
  qed
qed

text \<open>Assigning roles.\<close>

lemma setRoles_ok:
  assumes ok: "svc_ok r" and room: "room (rbac_store r) (length names + n)"
    and roles: "restricted_roles (rolesByName (roles_of (rbac_store r))) names = Inr rs"
  shows "\<exists>s'. setRolesToUser R u names r = (None, r\<lparr>rbac_store := s'\<rparr>) \<and>
    svc_ok (InvalidateUserCache u (r\<lparr>rbac_store := s'\<rparr>)) \<and> room s' n \<and>
    roles_of s' = roles_of (rbac_store r) \<and> perms_of s' = perms_of (rbac_store r) \<and>
    frame assigned_of (rbac_store r) s' u EntityTypeUser \<and>
    set (assigned_of s' u EntityTypeUser) = set rs"
proof -
  let ?s = "rbac_store r"
  have inv: "inv ?s" using ok by (simp add: service_ok_def)
  have len: "length rs = length names"
    and sub: "RestrictedRole_Role ` set rs \<subseteq> set (roles_of ?s)"
    using restricted_roles_Inr [OF roles] by auto
  obtain s1 where s1: "ClearRolesForEntity R ?s u EntityTypeUser = (None, s1)" "inv s1"
    "room s1 (length rs + n)" "frame assigned_of ?s s1 u EntityTypeUser"
    "roles_of s1 = roles_of ?s" "perms_of s1 = perms_of ?s" "assigned_of s1 u EntityTypeUser = []"
    using clear [OF inv, of u EntityTypeUser] room len by auto
  have "RestrictedRole_Role ` set rs \<subseteq> set (roles_of s1)" using sub s1(5) by simp
  from assign [OF s1(2,3) this, of u EntityTypeUser]
  obtain s2 where s2: "AssignRolesForEntity R s1 u EntityTypeUser rs = (None, s2)" "inv s2" "room s2 n"
    "frame assigned_of s1 s2 u EntityTypeUser" "roles_of s2 = roles_of s1" "perms_of s2 = perms_of s1"
    "set (assigned_of s2 u EntityTypeUser) = set (assigned_of s1 u EntityTypeUser) \<union> set rs" by blast
  have fr: "frame assigned_of ?s s2 u EntityTypeUser" using s1(4) s2(4) by (rule frame_trans)
  have "setRolesToUser R u names r = (None, r\<lparr>rbac_store := s2\<rparr>)"
    by (simp add: setRolesToUser_def get_roles [OF inv] roles s1(1) s2(1))
  moreover have "svc_ok (InvalidateUserCache u (r\<lparr>rbac_store := s2\<rparr>))"
    using ok s2(2) fr coherent_frame [of "perms_of ?s" "assigned_of ?s" "rbac_cache r" u "perms_of s2" "assigned_of s2"]
    by (simp add: service_ok_def InvalidateUserCache_def s1(5,6) s2(5,6) effective_def frame_def)
  ultimately show ?thesis
    using s1(5-7) s2(3,5-7) fr by (intro exI [of _ s2]) simp
qed

lemma admin_role_names_ok:
  "inv s \<Longrightarrow> admin_role_names R s roles acc =
    Inr (acc @ map Role_Name (filter (\<lambda>role. list_ex grants_admin (perms_of s (Role_ID role) EntityTypeRole)) roles))"
  by (induction roles arbitrary: acc) (simp_all add: get_permissions)

lemma AdministrativeRoles_ok:
  assumes "svc_ok r"
  shows "\<exists>names r'. AdministrativeRoles R now r = (Inr names, r') \<and> svc_ok r' \<and>
    rbac_store r' = rbac_store r \<and> rbac_cache r' = rbac_cache r \<and>
    set names = admin_names (roles_of (rbac_store r)) (perms_of (rbac_store r))"
proof -
  let ?ns = "map Role_Name (filter (\<lambda>role. list_ex grants_admin
    (perms_of (rbac_store r) (Role_ID role) EntityTypeRole)) (roles_of (rbac_store r)))"
  have c: "computeAdministrativeRoles R (rbac_store r) = Inr ?ns"
    using assms by (simp add: computeAdministrativeRoles_def service_ok_def get_roles admin_role_names_ok)
  have ns: "set ?ns = admin_names (roles_of (rbac_store r)) (perms_of (rbac_store r))"
    by (auto simp: admin_names_def)
  show ?thesis
    using assms ns by (auto simp: AdministrativeRoles_def c service_ok_def memo_coherent_def split: option.splits)
qed

lemma room_store_invalidate [simp]: "rbac_store (InvalidateUserCache u r) = rbac_store r"
  by (simp add: InvalidateUserCache_def)

text \<open>The writes as they run under the transaction manager.\<close>

lemma Allow_run:
  assumes "svc_ok r" and "room (rbac_store r) (length names + n)"
    and "AllowUserAbilitiesForEntity R tm now u i t names r = (None, r')"
  shows "svc_ok r'" and "room (rbac_store r') n" and "\<And>v. v \<noteq> u \<Longrightarrow> rows r' v = rows r v"
    and "row_of ` set (rows r' u) = kept (rbac_store r) u (entity_keys i t names) \<union>
      (\<lambda>k. (Some k, False)) ` entity_keys i t names"
proof -
  note run = ran [OF allow_in_tx_ok [OF assms(1,2), of u now i t]
      do_ok [OF assms(3) [unfolded AllowUserAbilitiesForEntity_def]]]
  show "svc_ok r'" by (rule run [THEN conjunct1])
  show "room (rbac_store r') n" by (rule run [THEN conjunct2, THEN conjunct1])
  show "rows r' v = rows r v" if "v \<noteq> u" for v
    using run [THEN conjunct2, THEN conjunct2, THEN conjunct1] that by (elim allE impE)
qed (rule ran [OF allow_in_tx_ok [OF assms(1,2), of u now i t]
      do_ok [OF assms(3) [unfolded AllowUserAbilitiesForEntity_def]], THEN conjunct2, THEN conjunct2, THEN conjunct2])

lemma Revoke_run:
  assumes "svc_ok r" and "room (rbac_store r) (length names + n)"
    and "RevokeOrForbidUserAbilitiesForEntity R tm now u i t names r = (None, r')"
  shows "svc_ok r'" and "room (rbac_store r') n" and "\<And>v. v \<noteq> u \<Longrightarrow> rows r' v = rows r v"
    and "row_of ` set (rows r' u) = kept (rbac_store r) u (entity_keys i t names) \<union>
      (\<lambda>k. (Some k, True)) ` {k \<in> entity_keys i t names.
         granted_rows (kept (rbac_store r) u (entity_keys i t names)) (fst k) t i}"
proof -
  note run = ran [OF revoke_in_tx_ok [OF assms(1,2), of now u i t]
      do_ok [OF assms(3) [unfolded RevokeOrForbidUserAbilitiesForEntity_def]]]
  show "svc_ok r'" by (rule run [THEN conjunct1])
  show "room (rbac_store r') n" by (rule run [THEN conjunct2, THEN conjunct1])
  show "rows r' v = rows r v" if "v \<noteq> u" for v
    using run [THEN conjunct2, THEN conjunct2, THEN conjunct1] that by (elim allE impE)
qed (rule ran [OF revoke_in_tx_ok [OF assms(1,2), of now u i t]
      do_ok [OF assms(3) [unfolded RevokeOrForbidUserAbilitiesForEntity_def]], THEN conjunct2, THEN conjunct2, THEN conjunct2])

lemma Revoke_denied:
  assumes "svc_ok r" and "room (rbac_store r) (length names + n)"
    and "RevokeOrForbidUserAbilitiesForEntity R tm now u i t names r = (None, r')"
    and name: "name \<in> set names"
  shows "\<not> granted (set (rows r' u)) name t i"
proof -
  let ?K = "entity_keys i t names"
  let ?B = "kept (rbac_store r) u ?K"
  let ?k = "(name, Some i, Some t, None)"
  have k: "?k \<in> ?K" using name by (simp add: entity_keys_def)
  then have m: "key_matches ?k t i" using entity_keys_match(1) by blast
  have f: "fst ?k = name" by simp
  show ?thesis
  proof
    assume "granted (set (rows r' u)) name t i"
    then have *: "granted_rows ?B name t i \<and>
      \<not> (\<exists>k \<in> {k \<in> ?K. granted_rows ?B (fst k) t i}. fst k = name \<and> key_matches k t i)"
      unfolding granted_row_of Revoke_run(4) [OF assms(1-3)] granted_rows_forbid .
    note g = conjunct1 [OF *] and no = conjunct2 [OF *]
    have "?k \<in> {k \<in> ?K. granted_rows ?B (fst k) t i}"
      unfolding mem_Collect_eq f using k g by (rule conjI)
    with no f m show False by blast
  qed
qed

text \<open>Neither write changes a decision about another user, entity or ability.\<close>

lemma untouched_rows:
  assumes "row_of ` set (rows r' u) = kept (rbac_store r) u (entity_keys i t names) \<union> X"
    and "\<And>k b. (Some k, b) \<in> X \<Longrightarrow> k \<in> entity_keys i t names"
    and "(t', i') \<noteq> (t, i) \<or> name \<notin> set names"
  shows "granted (set (rows r' u)) name t' i' = granted (set (rows r u)) name t' i'"
  unfolding granted_row_of
proof (rule granted_rows_cong)
  fix k b assume k: "fst k = name" "key_matches k t' i'"
  have "k \<notin> entity_keys i t names"
  proof
    assume "k \<in> entity_keys i t names"
    from entity_keys_match(1) [OF this, of t' i'] entity_keys_match(2) [OF this]
    show False using k assms(3) by simp
  qed
  then have "(Some k, b) \<notin> X" and "fst (Some k, b) \<notin> Some ` entity_keys i t names"
    using assms(2) by (blast, simp add: image_iff)
  then have "(Some k, b) \<in> row_of ` set (rows r' u) \<longleftrightarrow> (Some k, b) \<in> kept (rbac_store r) u {}"
    unfolding assms(1) by blast
  also have "kept (rbac_store r) u {} = row_of ` set (rows r u)" unfolding row_of_effective by auto
  finally show "(Some k, b) \<in> row_of ` set (rows r' u) \<longleftrightarrow> (Some k, b) \<in> row_of ` set (rows r u)" .
qed

lemma Revoke_untouched:
  assumes "svc_ok r" and "room (rbac_store r) (length names + n)"
    and "RevokeOrForbidUserAbilitiesForEntity R tm now u i t names r = (None, r')"
    and "v \<noteq> u \<or> (t', i') \<noteq> (t, i) \<or> name \<notin> set names"
  shows "granted (set (rows r' v)) name t' i' = granted (set (rows r v)) name t' i'"
proof (cases "v = u")
  case True
  with assms(4) have "(t', i') \<noteq> (t, i) \<or> name \<notin> set names" by simp
  then show ?thesis unfolding True by (rule untouched_rows [OF Revoke_run(4) [OF assms(1-3)], rotated]) auto
qed (simp add: Revoke_run(3) [OF assms(1-3)])

lemma Allow_untouched:
  assumes "svc_ok r" and "room (rbac_store r) (length names + n)"
    and "AllowUserAbilitiesForEntity R tm now u i t names r = (None, r')"
    and "v \<noteq> u \<or> (t', i') \<noteq> (t, i) \<or> name \<notin> set names"
  shows "granted (set (rows r' v)) name t' i' = granted (set (rows r v)) name t' i'"
proof (cases "v = u")
  case True
  with assms(4) have "(t', i') \<noteq> (t, i) \<or> name \<notin> set names" by simp
  then show ?thesis unfolding True by (rule untouched_rows [OF Allow_run(4) [OF assms(1-3)], rotated]) auto
qed (simp add: Allow_run(3) [OF assms(1-3)])

lemma Allow_granted:
  assumes "svc_ok r" and "room (rbac_store r) (length names + n)"
    and "AllowUserAbilitiesForEntity R tm now u i t names r = (None, r')"
    and name: "name \<in> set names"
  shows "granted (set (rows r' u)) name t i \<longleftrightarrow>
    \<not> (\<exists>k. (Some k, True) \<in> kept (rbac_store r) u (entity_keys i t names) \<and> fst k = name \<and> key_matches k t i)"
proof -
  let ?k = "(name, Some i, Some t, None)"
  have k: "?k \<in> entity_keys i t names" using name by (simp add: entity_keys_def)
  then have m: "key_matches ?k t i" using entity_keys_match(1) by blast
  have f: "fst ?k = name" by simp
  let ?B = "kept (rbac_store r) u (entity_keys i t names)"
  let ?A = "(\<lambda>k. (Some k, False)) ` entity_keys i t names"
  have pos: "(Some ?k, False) \<in> ?B \<union> ?A" using k by blast
  have "(Some k, True) \<notin> ?A" for k by blast
  then have neg: "(Some k, True) \<in> ?B \<union> ?A \<longleftrightarrow> (Some k, True) \<in> ?B" for k by blast
  show ?thesis
    unfolding granted_row_of Allow_run(4) [OF assms(1-3)] granted_rows_def neg using pos m f by blast
qed

lemma SetRoles_run:
  assumes "svc_ok r" and "room (rbac_store r) (length names + n)"
    and "SetRolesToUser R tm u names r = (None, r')"
  shows "svc_ok r' \<and> room (rbac_store r') n \<and> perms_of (rbac_store r') = perms_of (rbac_store r) \<and>
    roles_of (rbac_store r') = roles_of (rbac_store r) \<and>
    frame assigned_of (rbac_store r) (rbac_store r') u EntityTypeUser \<and>
    (\<exists>rs. restricted_roles (rolesByName (roles_of (rbac_store r))) names = Inr rs \<and>
      set (assigned_of (rbac_store r') u EntityTypeUser) = set rs)"
proof -
  obtain r1 where r1: "tm (setRolesToUser R u names) r = (None, r1)" "r' = InvalidateUserCache u r1"
    using assms(3) by (auto simp: SetRolesToUser_def split: prod.splits option.splits)
  have run: "setRolesToUser R u names r = (None, r1)" using do_ok [OF r1(1)] .
  have inv: "inv (rbac_store r)" using assms(1) by (simp add: service_ok_def)
  obtain rs where rs: "restricted_roles (rolesByName (roles_of (rbac_store r))) names = Inr rs"
    using run by (auto simp: setRolesToUser_def get_roles [OF inv] split: sum.splits)
  obtain s' where s': "setRolesToUser R u names r = (None, r\<lparr>rbac_store := s'\<rparr>)"
    "svc_ok (InvalidateUserCache u (r\<lparr>rbac_store := s'\<rparr>))" "room s' n"
    "roles_of s' = roles_of (rbac_store r)" "perms_of s' = perms_of (rbac_store r)"
    "frame assigned_of (rbac_store r) s' u EntityTypeUser"
    "set (assigned_of s' u EntityTypeUser) = set rs"
    using setRoles_ok [OF assms(1,2) rs, of u] by (elim exE conjE)
  have r': "r' = InvalidateUserCache u (r\<lparr>rbac_store := s'\<rparr>)" using run s'(1) r1(2) by simp
  show ?thesis unfolding r' using s'(2-7) rs by simp
qed

end

end
