(* ===== verification/RBAC_Properties.thy ===== *)
theory RBAC_Properties
  imports RBAC_Service
begin

text \<open>
  The correctness of the access-control service over the in-memory repository: what a check
  decides, what a grant, a revocation and a role assignment change and what they leave alone, and
  that the cache never shows through on any run of the service.  Every theorem about a write holds
  for each transaction manager that keeps the contract \<open>transaction_manager\<close>; the witnesses use
  \<open>NilTransactionManager_Do\<close>.
\<close>

abbreviation rbac_ok :: "RBACRepository RBAC \<Rightarrow> bool" where
  "rbac_ok \<equiv> service_ok rbac_wf roles_in perms_in assigned_in"

abbreviation user_rows :: "RBACRepository RBAC \<Rightarrow> uint \<Rightarrow> Permission list" where
  "user_rows r \<equiv> effective (perms_in (rbac_store r)) (assigned_in (rbac_store r))"

interpretation inmem_svc: rbac_service inmemory_repository rbac_wf rbac_room roles_in perms_in
  assigned_in NilTransactionManager_Do
  by (intro rbac_service.intro inmem.rbac_repository_axioms nil_tm.transaction_manager_axioms)

text \<open>
  A small store for the witnesses: a role \<open>operator\<close> that may start every server, and user 7
  holding it, with a direct permission to stop server 5.
\<close>

definition role_operator :: Role where
  "role_operator = \<lparr>Role_ID = 0, Role_Name = ''operator'', Role_Title = None, Role_Level = None,
     Role_Scope = None, Role_CreatedAt = None, Role_UpdatedAt = None\<rparr>"

definition start_any_server :: Ability where
  "start_any_server = (CreateAbilityForEntity 0 ''game-server-start'' 0 EntityTypeServer)\<lparr>Ability_EntityID := None\<rparr>"

definition example_store :: RBACRepository where
  "example_store =
     (let r1 = snd (RBACRepository_SaveRole role_operator NewRBACRepository);
          r2 = snd (RBACRepository_Allow r1 1 EntityTypeRole [start_any_server]);
          r3 = snd (RBACRepository_AssignRolesForEntity r2 7 EntityTypeUser
                 (map NewRestrictedRoleFromRole (roles_in r2)))
      in snd (RBACRepository_Allow r3 7 EntityTypeUser
            [CreateAbilityForEntity 0 ''game-server-stop'' 5 EntityTypeServer]))"

lemmas build_defs = example_store_def role_operator_def start_any_server_def NewRBACRepository_def
  RBACRepository_SaveRole_def RBACRepository_Allow_def RBACRepository_AssignRolesForEntity_def
  applyAbilities_def saveOrGetAbility_def findAbilityIDs_def add_permission_def assign_role_def
  abilitiesMatch_def CreateAbilityForEntity_def roles_in_def new_assignment_def same_assignment_def
  Let_def id_of_counter_def List.map_filter_simps

text \<open>The store that these writes give, so that later evaluations start from its rows.\<close>

lemma example_store_value:
  "example_store =
    \<lparr>rr_roles = [(1, role_operator\<lparr>Role_ID := 1\<rparr>)],
     rr_assignedRoles = [(1, \<lparr>AssignedRole_ID = 1, AssignedRole_RoleID = 1, AssignedRole_EntityID = 7,
       AssignedRole_EntityType = EntityTypeUser, AssignedRole_RestrictedToID = None,
       AssignedRole_RestrictedToType = None, AssignedRole_Scope = None\<rparr>)],
     rr_abilities =
       [(1, start_any_server\<lparr>Ability_ID := 1\<rparr>),
        (2, (CreateAbilityForEntity 0 ''game-server-stop'' 5 EntityTypeServer)\<lparr>Ability_ID := 2\<rparr>)],
     rr_permissions =
       [(1, \<lparr>Permission_ID = 1, Permission_AbilityID = 1, Permission_EntityID = Some 1,
          Permission_EntityType = Some EntityTypeRole, Permission_Forbidden = False, Permission_Scope = None,
          Permission_Ability = None\<rparr>),
        (2, \<lparr>Permission_ID = 2, Permission_AbilityID = 2, Permission_EntityID = Some 7,
          Permission_EntityType = Some EntityTypeUser, Permission_Forbidden = False, Permission_Scope = None,
          Permission_Ability = None\<rparr>)],
     rr_nextRoleID = 1, rr_nextAssignedID = 1, rr_nextAbilityID = 2, rr_nextPermissionID = 2\<rparr>"
  by (simp add: build_defs)

lemmas example_defs = example_store_value role_operator_def start_any_server_def NewRBACRepository_def
  RBACRepository_SaveRole_def RBACRepository_Allow_def RBACRepository_AssignRolesForEntity_def
  applyAbilities_def saveOrGetAbility_def findAbilityIDs_def add_permission_def assign_role_def
  abilitiesMatch_def CreateAbilityForEntity_def roles_in_def new_assignment_def same_assignment_def
  Let_def id_of_counter_def List.map_filter_simps

lemma example_store_rows:
  "rbac_wf example_store" "rbac_room example_store 100"
  by (simp_all add: example_defs rbac_wf_def rbac_room_def wf_map_def counter_room_def key_of_def)

lemma svc_of_tm:
  "transaction_manager tm \<Longrightarrow>
    rbac_service inmemory_repository rbac_wf rbac_room roles_in perms_in assigned_in tm"
  by (intro rbac_service.intro inmem.rbac_repository_axioms)

lemma fst_CanForEntity:
  "rbac_ok r \<Longrightarrow> fst (CanForEntity inmemory_repository now u t i names r) =
    Inr (\<forall>name \<in> set names. granted (set (user_rows r u)) name t i)"
  using inmem_svc.CanForEntity_ok [of r now u t i names] by fastforce

lemma fst_CanAnyForEntity:
  "rbac_ok r \<Longrightarrow> fst (CanAnyForEntity inmemory_repository now u t i names r) =
    Inr (\<exists>name \<in> set names. granted (set (user_rows r u)) name t i)"
  using inmem_svc.CanAnyForEntity_ok [of r now u t i names] by fastforce

abbreviation example_service :: "RBACRepository RBAC" where
  "example_service \<equiv> NewRBAC example_store 60"

lemma example_service_ok: "rbac_ok example_service"
  by (simp add: inmem_svc.svc_ok_new example_store_rows)

lemma example_service_room: "rbac_room (rbac_store example_service) 100"
  by (simp add: NewRBAC_def example_store_rows)

section \<open>Runs of the service\<close>

text \<open>
  A step is one call that the service answered: a check, a read of the administrative roles, a
  write that reported success, a cache invalidation or a tick of the cleanup goroutine.  The number
  is how many rows the call may add to the store.
\<close>

inductive service_step :: "'s Repository \<Rightarrow> 's tx \<Rightarrow> nat \<Rightarrow> 's RBAC \<Rightarrow> 's RBAC \<Rightarrow> bool" for R tm where
  can: "Can R now u names r = (b, r') \<Longrightarrow> service_step R tm 0 r r'"
| can_one_of: "CanOneOf R now u names r = (b, r') \<Longrightarrow> service_step R tm 0 r r'"
| can_for: "CanForEntity R now u t i names r = (b, r') \<Longrightarrow> service_step R tm 0 r r'"
| can_any_for: "CanAnyForEntity R now u t i names r = (b, r') \<Longrightarrow> service_step R tm 0 r r'"
| admin_roles: "AdministrativeRoles R now r = (ns, r') \<Longrightarrow> service_step R tm 0 r r'"
| set_roles: "SetRolesToUser R tm u names r = (None, r') \<Longrightarrow> service_step R tm (length names) r r'"
| allow: "AllowUserAbilitiesForEntity R tm now u i t names r = (None, r') \<Longrightarrow>
    service_step R tm (length names) r r'"
| revoke: "RevokeOrForbidUserAbilitiesForEntity R tm now u i t names r = (None, r') \<Longrightarrow>
    service_step R tm (length names) r r'"
| invalidate_user: "service_step R tm 0 r (InvalidateUserCache u r)"
| invalidate: "service_step R tm 0 r (InvalidateCache r)"
| cleanup: "service_step R tm 0 r (cleanup_tick now r)"

inductive service_run :: "'s Repository \<Rightarrow> 's tx \<Rightarrow> nat \<Rightarrow> 's RBAC \<Rightarrow> 's RBAC \<Rightarrow> bool" for R tm where
  start: "service_run R tm 0 r r"
| more: "service_run R tm n r r1 \<Longrightarrow> service_step R tm m r1 r2 \<Longrightarrow> service_run R tm (n + m) r r2"

context rbac_service
begin

lemma step_ok:
  "service_step R tm m r r' \<Longrightarrow> svc_ok r \<Longrightarrow> room (rbac_store r) (m + n) \<Longrightarrow>
    svc_ok r' \<and> room (rbac_store r') n"
proof (induction rule: service_step.induct)
  case (can now u names r b r')
  then show ?case using Can_sound [of r now u names] by auto
next
  case (can_one_of now u names r b r')
  then show ?case using CanOneOf_ok [of r now u names] by auto
next
  case (can_for now u t i names r b r')
  then show ?case using CanForEntity_ok [of r now u t i names] by auto
next
  case (can_any_for now u t i names r b r')
  then show ?case using CanAnyForEntity_ok [of r now u t i names] by auto
next
  case (admin_roles now r ns r')
  then show ?case using AdministrativeRoles_ok [of r now] by auto
next
  case (set_roles u names r r')
  then show ?case using SetRoles_run [of r names n u r'] by simp
next
  case (allow now u i t names r r')
  then show ?case using Allow_run(1,2) [of r names n now u i t r'] by simp
next
  case (revoke now u i t names r r')
  then show ?case using Revoke_run(1,2) [of r names n now u i t r'] by simp
next
  case (invalidate_user r u)
  then show ?case by (simp add: service_ok_def InvalidateUserCache_def coherent_cache_ops(1))
next
  case (invalidate r)
  then show ?case
    by (simp add: service_ok_def InvalidateCache_def coherent_cache_ops(2) memo_coherent_def)
next
  case (cleanup r now)
  then show ?case by (simp add: service_ok_def cleanup_tick_def coherent_cache_ops(3))
qed

lemma run_ok:
  "service_run R tm m r r' \<Longrightarrow> svc_ok r \<Longrightarrow> room (rbac_store r) (m + n) \<Longrightarrow>
    svc_ok r' \<and> room (rbac_store r') n"
proof (induction arbitrary: n rule: service_run.induct)
  case (more k r r1 m r2)
  then have "svc_ok r1 \<and> room (rbac_store r1) (m + n)" by (simp add: add.assoc)
  then show ?case using step_ok [OF more.hyps(2)] by blast
qed simp

end

lemma example_service_room_le: "n \<le> 100 \<Longrightarrow> rbac_room (rbac_store example_service) n"
  using example_service_room by (rule inmem.room_mono)

lemma revoke_total:
  assumes "rbac_ok r" and "rbac_room (rbac_store r) (length names)"
  shows "\<exists>r'. RevokeOrForbidUserAbilitiesForEntity inmemory_repository NilTransactionManager_Do now u i t names r =
    (None, r')"
  using inmem_svc.revoke_in_tx_ok [of r names 0 now u i t] assms
  unfolding RevokeOrForbidUserAbilitiesForEntity_def NilTransactionManager_Do_def add_0_right by blast

lemma allow_total:
  assumes "rbac_ok r" and "rbac_room (rbac_store r) (length names)"
  shows "\<exists>r'. AllowUserAbilitiesForEntity inmemory_repository NilTransactionManager_Do now u i t names r =
    (None, r')"
  using inmem_svc.allow_in_tx_ok [of r names 0 u now i t] assms
  unfolding AllowUserAbilitiesForEntity_def NilTransactionManager_Do_def add_0_right by blast

lemma set_roles_total:
  assumes "rbac_ok r" and "rbac_room (rbac_store r) (length names)"
    and "set names \<subseteq> Role_Name ` set (roles_in (rbac_store r))"
  shows "\<exists>r'. SetRolesToUser inmemory_repository NilTransactionManager_Do u names r = (None, r')"
proof -
  obtain rs where rs: "restricted_roles (rolesByName (roles_in (rbac_store r))) names = Inr rs"
    using assms(3) restricted_roles_total by blast
  have "rbac_room (rbac_store r) (length names + 0)" using assms(2) by simp
  from inmem_svc.setRoles_ok [OF assms(1) this rs, of u] show ?thesis
    by (auto simp: SetRolesToUser_def NilTransactionManager_Do_def)
qed

text \<open>A transaction manager whose commit fails after the body ran: the store is rolled back.\<close>

definition failing_commit :: "'s tx" where
  "failing_commit fn r =
     (Some (Errorf ''commit failed''), (snd (fn r))\<lparr>rbac_store := rbac_store r\<rparr>)"

text \<open>A store in which user 7 holds an allowing and then a forbidding administrative row.\<close>

definition admin_ability :: Ability where
  "admin_ability = (CreateAbilityForEntity 0 AbilityNameAdminRolesPermissions 0 EntityTypeServer)
     \<lparr>Ability_EntityID := None, Ability_EntityType := None\<rparr>"

definition mixed_store :: RBACRepository where
  "mixed_store = snd (RBACRepository_Forbid
     (snd (RBACRepository_Allow NewRBACRepository 7 EntityTypeUser [admin_ability]))
     7 EntityTypeUser [admin_ability])"

lemmas check_defs = Can_def CanForEntity_def check_with_def getAllPermissionsForUser_def NewRBAC_def
  permissionCache_Get_def permissionCache_Set_def permissionCache_Delete_def newPermissionCache_def
  cacheEntry_IsExpired_def inmemory_repository_def RBACRepository_GetPermissions_def
  RBACRepository_GetRolesForEntity_def permission_of_def assigned_to_def attach_ability_def
  restrictedRole_def restrict_permissions_def rows_for_def grantsAbilityForEntity_def
  abilityScopeMatchesEntity_def can_decide_def

text \<open>The rows a grant leaves in place, and the row that makes a check fail.\<close>

definition forbids :: "AbilityName \<Rightarrow> EntityType \<Rightarrow> uint \<Rightarrow> Permission \<Rightarrow> bool" where
  "forbids name t i p \<longleftrightarrow> map_option Ability_Name (Permission_Ability p) = Some name \<and>
     abilityScopeMatchesEntity (Permission_Ability p) t i \<and> Permission_Forbidden p"

definition left_rows :: "RBACRepository RBAC \<Rightarrow> uint \<Rightarrow> Ability list \<Rightarrow> Permission set" where
  "left_rows r u abls =
     {p \<in> set (perms_in (rbac_store r) u EntityTypeUser). \<not> about abls p} \<union>
     set (role_rows (perms_in (rbac_store r)) (assigned_in (rbac_store r) u EntityTypeUser))"

lemma row_of_left_rows:
  "row_of ` left_rows r u abls =
    {x \<in> row_of ` set (perms_in (rbac_store r) u EntityTypeUser). fst x \<notin> Some ` key_of ` set abls} \<union>
    row_of ` set (role_rows (perms_in (rbac_store r)) (assigned_in (rbac_store r) u EntityTypeUser))"
  unfolding left_rows_def about_row image_Un by (rule arg_cong2 [of _ _ _ _ "(\<union>)"]) blast+

lemma forbidding_row:
  "(\<exists>p \<in> left_rows r u abls. forbids name t i p) \<longleftrightarrow>
    (\<exists>k. (Some k, True) \<in> row_of ` left_rows r u abls \<and> fst k = name \<and> key_matches k t i)"
  using matching_rows [of "left_rows r u abls" name t i True] unfolding forbids_def by simp

section \<open>Theorems\<close>

text \<open>
  C1. On every state that a run of the service can be in, \<open>CanForEntity\<close> answers \<open>true\<close> exactly when
  each requested ability has a row that matches the entity and allows it and no matching row that
  forbids it, over the user's own rows and those of the assigned roles; it leaves the store alone and
  keeps the state consistent.
\<close>

theorem CanForEntity_decides:
  assumes "rbac_ok r"
  shows "\<exists>c. CanForEntity inmemory_repository now u t i names r =
      (Inr (\<forall>name \<in> set names. granted (set (user_rows r u)) name t i), r\<lparr>rbac_cache := c\<rparr>) \<and>
    rbac_ok (r\<lparr>rbac_cache := c\<rparr>)"
  by (rule inmem_svc.CanForEntity_ok [OF assms])

theorem CanForEntity_decides_witness:
  "rbac_ok example_service \<and>
   fst (CanForEntity inmemory_repository 5 7 EntityTypeServer 5 [''game-server-start'', ''game-server-stop'']
     example_service) = Inr (\<forall>name \<in> {''game-server-start'', ''game-server-stop''}.
       granted (set (user_rows example_service 7)) name EntityTypeServer 5)"
proof -
  from CanForEntity_decides [OF example_service_ok, of 5 7 EntityTypeServer 5
      "[''game-server-start'', ''game-server-stop'']"]
  show ?thesis using example_service_ok by fastforce
qed

text \<open>
  C2. After \<open>RevokeOrForbidUserAbilitiesForEntity\<close> reported success, a check of any of the revoked
  abilities for that user and entity answers \<open>false\<close>, whatever roles and rows the user has left.
\<close>

theorem Revoke_denies:
  assumes "transaction_manager tm" and "rbac_ok r" and "rbac_room (rbac_store r) (length names)"
    and "RevokeOrForbidUserAbilitiesForEntity inmemory_repository tm now u i t names r = (None, r')"
    and "name \<in> set names"
  shows "fst (CanForEntity inmemory_repository later u t i [name] r') = Inr False"
proof -
  note svc = svc_of_tm [OF assms(1)]
  have room: "rbac_room (rbac_store r) (length names + 0)" using assms(3) by simp
  show ?thesis
    using rbac_service.Revoke_run(1) [OF svc assms(2) room assms(4)]
      rbac_service.Revoke_denied [OF svc assms(2) room assms(4,5)]
    by (simp add: fst_CanForEntity)
qed

theorem Revoke_denies_witness:
  "\<exists>r'. RevokeOrForbidUserAbilitiesForEntity inmemory_repository NilTransactionManager_Do 1 7 5
      EntityTypeServer [''game-server-start''] example_service = (None, r') \<and>
    fst (CanForEntity inmemory_repository 2 7 EntityTypeServer 5 [''game-server-start''] r') = Inr False"
proof -
  obtain r' where r': "RevokeOrForbidUserAbilitiesForEntity inmemory_repository NilTransactionManager_Do 1 7 5
      EntityTypeServer [''game-server-start''] example_service = (None, r')"
    using revoke_total [OF example_service_ok, of "[''game-server-start'']" 1 7 5 EntityTypeServer]
      example_service_room_le by auto
  show ?thesis
    using r' Revoke_denies [OF nil_tm.transaction_manager_axioms example_service_ok _ r',
        of "''game-server-start''" 2] example_service_room_le [of 1] by simp
qed

text \<open>
  C23. A revocation changes no decision about another user, another entity or another ability.
\<close>

theorem Revoke_frame_decisions:
  assumes "transaction_manager tm" and "rbac_ok r" and "rbac_room (rbac_store r) (length names)"
    and "RevokeOrForbidUserAbilitiesForEntity inmemory_repository tm now u i t names r = (None, r')"
    and "v \<noteq> u \<or> (t', i') \<noteq> (t, i) \<or> name \<notin> set names"
  shows "fst (CanForEntity inmemory_repository later v t' i' [name] r') =
    fst (CanForEntity inmemory_repository later v t' i' [name] r)"
proof -
  note svc = svc_of_tm [OF assms(1)]
  have room: "rbac_room (rbac_store r) (length names + 0)" using assms(3) by simp
  show ?thesis
    using rbac_service.Revoke_run(1) [OF svc assms(2) room assms(4)]
      rbac_service.Revoke_untouched [OF svc assms(2) room assms(4,5)] assms(2)
    by (simp add: fst_CanForEntity)
qed

theorem Revoke_frame_decisions_witness:
  "\<exists>r'. RevokeOrForbidUserAbilitiesForEntity inmemory_repository NilTransactionManager_Do 1 7 5
      EntityTypeServer [''game-server-start''] example_service = (None, r') \<and>
    fst (CanForEntity inmemory_repository 2 7 EntityTypeServer 6 [''game-server-start''] r') =
    fst (CanForEntity inmemory_repository 2 7 EntityTypeServer 6 [''game-server-start''] example_service)"
proof -
  obtain r' where r': "RevokeOrForbidUserAbilitiesForEntity inmemory_repository NilTransactionManager_Do 1 7 5
      EntityTypeServer [''game-server-start''] example_service = (None, r')"
    using revoke_total [OF example_service_ok, of "[''game-server-start'']" 1 7 5 EntityTypeServer]
      example_service_room_le by auto
  show ?thesis
    using r' Revoke_frame_decisions [OF nil_tm.transaction_manager_axioms example_service_ok _ r',
        of 7 EntityTypeServer 6 "''game-server-start''" 2] example_service_room_le [of 1] by simp
qed

text \<open>
  C24. After \<open>AllowUserAbilitiesForEntity\<close> reported success, a check of a granted ability for that
  entity answers \<open>true\<close> exactly when no matching row that forbids it is left: neither a row of an
  assigned role nor a row of the user other than the exact ones the grant replaced.
\<close>

theorem Allow_grants:
  assumes "transaction_manager tm" and "rbac_ok r" and "rbac_room (rbac_store r) (length names)"
    and "AllowUserAbilitiesForEntity inmemory_repository tm now u i t names r = (None, r')"
    and "name \<in> set names"
  shows "fst (CanForEntity inmemory_repository later u t i [name] r') =
    Inr (\<not> (\<exists>p \<in> left_rows r u (entity_abilities now i t names). forbids name t i p))"
proof -
  note svc = svc_of_tm [OF assms(1)]
  have room: "rbac_room (rbac_store r) (length names + 0)" using assms(3) by simp
  show ?thesis
    using rbac_service.Allow_run(1) [OF svc assms(2) room assms(4)]
      rbac_service.Allow_granted [OF svc assms(2) room assms(4,5)]
    by (simp add: fst_CanForEntity forbidding_row row_of_left_rows key_of_entity_abilities)
qed

theorem Allow_grants_witness:
  "\<exists>r'. AllowUserAbilitiesForEntity inmemory_repository NilTransactionManager_Do 1 9 5
      EntityTypeServer [''game-server-start''] example_service = (None, r') \<and>
    fst (CanForEntity inmemory_repository 2 9 EntityTypeServer 5 [''game-server-start''] r') = Inr True"
proof -
  obtain r' where r': "AllowUserAbilitiesForEntity inmemory_repository NilTransactionManager_Do 1 9 5
      EntityTypeServer [''game-server-start''] example_service = (None, r')"
    using allow_total [OF example_service_ok, of "[''game-server-start'']" 1 9 5 EntityTypeServer]
      example_service_room_le by auto
  have "left_rows example_service 9 (entity_abilities 1 5 EntityTypeServer [''game-server-start'']) = {}"
    by (simp add: left_rows_def NewRBAC_def perms_in_def assigned_in_def role_rows_def permission_of_def
        assigned_to_def example_defs)
  then show ?thesis
    using r' Allow_grants [OF nil_tm.transaction_manager_axioms example_service_ok _ r',
        of "''game-server-start''" 2] example_service_room_le [of 1] by simp
qed

text \<open>
  Over the in-memory repository without transactions the three writes always succeed while the
  identifier counters have room: no error path is taken for known role names.
\<close>

theorem writes_total:
  assumes "rbac_ok r" and "rbac_room (rbac_store r) (length names)"
    and "rbac_room (rbac_store r) (length roles)"
    and "set roles \<subseteq> Role_Name ` set (roles_in (rbac_store r))"
  shows "fst (AllowUserAbilitiesForEntity inmemory_repository NilTransactionManager_Do now u i t names r) = None \<and>
    fst (RevokeOrForbidUserAbilitiesForEntity inmemory_repository NilTransactionManager_Do now u i t names r) = None \<and>
    fst (SetRolesToUser inmemory_repository NilTransactionManager_Do u roles r) = None"
  using allow_total [OF assms(1,2), of now u i t] revoke_total [OF assms(1,2), of now u i t]
    set_roles_total [OF assms(1,3,4), of u] by auto

lemma roles_in_example: "Role_Name ` set (roles_in (rbac_store example_service)) = {''operator''}"
  by (simp add: NewRBAC_def example_defs)

theorem writes_total_witness:
  "fst (AllowUserAbilitiesForEntity inmemory_repository NilTransactionManager_Do 1 7 5 EntityTypeServer
     [''game-server-start''] example_service) = None \<and>
   fst (SetRolesToUser inmemory_repository NilTransactionManager_Do 7 [''operator''] example_service) = None"
  using writes_total [OF example_service_ok, of "[''game-server-start'']" "[''operator'']" 1 7 5 EntityTypeServer]
    example_service_room_le roles_in_example by simp

text \<open>
  After \<open>SetRolesToUser\<close> reported success the user has exactly the named roles, unrestricted;
  every other user's roles, the roles themselves and all permissions are as before.
\<close>

theorem SetRoles_exact:
  assumes "transaction_manager tm" and "rbac_ok r" and "rbac_room (rbac_store r) (length names)"
    and "SetRolesToUser inmemory_repository tm u names r = (None, r')"
  shows "(\<exists>ns. RBAC_GetRoles inmemory_repository u r' = Inr ns \<and> set ns = set names) \<and>
    (\<forall>v. v \<noteq> u \<longrightarrow> RBAC_GetRoles inmemory_repository v r' = RBAC_GetRoles inmemory_repository v r) \<and>
    roles_in (rbac_store r') = roles_in (rbac_store r) \<and>
    perms_in (rbac_store r') = perms_in (rbac_store r)"
proof -
  have room: "rbac_room (rbac_store r) (length names + 0)" using assms(3) by simp
  note run = rbac_service.SetRoles_run [OF svc_of_tm [OF assms(1)] assms(2) room assms(4)]
  then obtain rs where rs: "restricted_roles (rolesByName (roles_in (rbac_store r))) names = Inr rs"
    "set (assigned_in (rbac_store r') u EntityTypeUser) = set rs" by blast
  have "rbac_wf (rbac_store r)" "rbac_wf (rbac_store r')"
    using assms(2) run by (simp_all add: service_ok_def)
  then have get: "RBAC_GetRoles inmemory_repository v q =
      Inr (map (Role_Name \<circ> RestrictedRole_Role) (assigned_in (rbac_store q) v EntityTypeUser))"
    if "q \<in> {r, r'}" for q v
    using that by (auto simp: RBAC_GetRoles_def inmem.get_roles_for)
  have "set (map (Role_Name \<circ> RestrictedRole_Role) rs) = set names"
    by (simp only: restricted_roles_Inr(3) [OF rs(1)])
  then show ?thesis using run rs(2) by (auto simp: get frame_def)
qed

theorem SetRoles_exact_witness:
  "\<exists>r' ns. SetRolesToUser inmemory_repository NilTransactionManager_Do 9 [''operator''] example_service = (None, r') \<and>
    RBAC_GetRoles inmemory_repository 9 r' = Inr ns \<and> set ns = {''operator''}"
proof -
  obtain r' where r': "SetRolesToUser inmemory_repository NilTransactionManager_Do 9 [''operator'']
      example_service = (None, r')"
    using set_roles_total [OF example_service_ok, of "[''operator'']" 9] example_service_room_le
      roles_in_example by auto
  show ?thesis
    using r' SetRoles_exact [OF nil_tm.transaction_manager_axioms example_service_ok _ r']
      example_service_room_le [of 1] by auto
qed

text \<open>
  \<open>SetRolesToUser\<close> with an unknown role name fails with that name before it writes anything: the
  store, the cache and the memo are as before.
\<close>

theorem SetRoles_unknown:
  assumes "rbac_ok r" and "\<not> set names \<subseteq> Role_Name ` set (roles_in (rbac_store r))"
  shows "\<exists>name \<in> set names. name \<notin> Role_Name ` set (roles_in (rbac_store r)) \<and>
    SetRolesToUser inmemory_repository NilTransactionManager_Do u names r =
      (Some (InvalidRoleNameError name), r)"
proof -
  have wf: "rbac_wf (rbac_store r)" using assms(1) by (simp add: service_ok_def)
  obtain e where e: "restricted_roles (rolesByName (roles_in (rbac_store r))) names = Inl e"
    using assms(2) restricted_roles_total by (metis sum.exhaust)
  then obtain name where name: "name \<in> set names" "e = InvalidRoleNameError name"
    "map_of (rolesByName (roles_in (rbac_store r))) name = None"
    using restricted_roles_Inl by blast
  then have "name \<notin> Role_Name ` set (roles_in (rbac_store r))"
    using dom_rolesByName [of "roles_in (rbac_store r)"] by blast
  with name e show ?thesis
    by (auto simp: SetRolesToUser_def NilTransactionManager_Do_def setRolesToUser_def
        inmem.get_roles [OF wf])
qed

theorem SetRoles_unknown_witness:
  "SetRolesToUser inmemory_repository NilTransactionManager_Do 9 [''root''] example_service =
    (Some (InvalidRoleNameError ''root''), example_service)"
  using SetRoles_unknown [OF example_service_ok, of "[''root'']" 9] roles_in_example by auto



text \<open>
  \<open>Can\<close> leaves its loop at the first unscoped row that allows, so its answer depends on the order
  in which the repository returns the rows, unlike \<open>CanForEntity\<close>: over the same set of rows the two
  orders give opposite answers.
\<close>

theorem Can_depends_on_row_order:
  "fst (Can inmemory_repository 1 7 [AbilityNameAdminRolesPermissions] (NewRBAC mixed_store 60)) = Inr True \<and>
   fst (Can inmemory_repository 1 7 [AbilityNameAdminRolesPermissions]
     (NewRBAC (mixed_store\<lparr>rr_permissions := rev (rr_permissions mixed_store)\<rparr>) 60)) = Inr False"
  by (simp add: check_defs example_defs mixed_store_def admin_ability_def RBACRepository_Forbid_def)

text \<open>
  When the commit of a revocation fails, the rows that were read inside the transaction stay in
  the cache although the store was rolled back: the check answers \<open>false\<close> for an ability that the
  stored rows still grant.
\<close>

theorem Revoke_rollback_leaves_cache:
  "transaction_manager failing_commit \<and>
   (let r = snd (RevokeOrForbidUserAbilitiesForEntity inmemory_repository failing_commit 1 7 5
          EntityTypeServer [''game-server-stop''] example_service)
    in rbac_store r = rbac_store example_service \<and>
       fst (CanForEntity inmemory_repository 2 7 EntityTypeServer 5 [''game-server-stop''] r) = Inr False \<and>
       fst (CanForEntity inmemory_repository 2 7 EntityTypeServer 5 [''game-server-stop'']
         (NewRBAC (rbac_store r) 0)) = Inr True)"
proof
  show "transaction_manager failing_commit"
    by unfold_locales (auto simp: failing_commit_def)
qed (simp add: check_defs example_defs failing_commit_def RevokeOrForbidUserAbilitiesForEntity_def
    revoke_in_tx_def entity_abilities_def InvalidateUserCache_def RBACRepository_Revoke_def
    delete_if_def)

end
