(* ===== verification/Go_Bytes.thy ===== *)
theory Go_Bytes
  imports Go_Base
begin

text \<open>
  Bytes and the fixed-width encodings of \<open>encoding/binary\<close>, shared by the codecs and the network
  protocols.  A byte is an 8-bit word, a byte slice a list of them; a Go string that carries protocol
  data is its bytes.  \<open>int32\<close> is a 32-bit word read with \<open>sint\<close>.
\<close>

unbundle bit_operations_syntax

type_synonym byte = "8 word"
type_synonym bytes = "byte list"
type_synonym int32 = "32 word"

section \<open>Little-endian words\<close>

definition le_bytes :: "int32 \<Rightarrow> bytes" where
  "le_bytes w = [ucast w, ucast (drop_bit 8 w), ucast (drop_bit 16 w), ucast (drop_bit 24 w)]"

text \<open>\<open>binary.LittleEndian.Uint32\<close>; fewer than four bytes are an index panic, so the callers check.\<close>

definition le_word :: "bytes \<Rightarrow> int32" where
  "le_word bs = ucast (bs ! 0) OR push_bit 8 (ucast (bs ! 1)) OR push_bit 16 (ucast (bs ! 2)) OR push_bit 24 (ucast (bs ! 3))"

lemma length_le_bytes [simp]: "length (le_bytes w) = 4"
  by (simp add: le_bytes_def)

lemma le_word_bytes [simp]: "le_word (le_bytes w @ bs) = w"
proof (rule bit_word_eqI)
  fix n
  assume "n < LENGTH(32)"
  then consider "n < 8" | "8 \<le> n" "n < 16" | "16 \<le> n" "n < 24" | "24 \<le> n" "n < 32" by fastforce
  then show "bit (le_word (le_bytes w @ bs)) n = bit w n"
    by cases (auto simp: le_word_def le_bytes_def bit_simps)
qed

lemma le_bytes_word:
  assumes "length bs = 4"
  shows "le_bytes (le_word bs) = bs"
proof -
  obtain a b c d where bs: "bs = [a, b, c, d]"
    using assms by (auto simp: numeral_eq_Suc length_Suc_conv)
  let ?w = "ucast a OR push_bit 8 (ucast b) OR push_bit 16 (ucast c) OR push_bit 24 (ucast d) :: int32"
  have "ucast ?w = a" "ucast (drop_bit 8 ?w) = b" "ucast (drop_bit 16 ?w) = c" "ucast (drop_bit 24 ?w) = d"
    by (rule bit_word_eqI; auto simp: bit_simps dest: bit_imp_le_length)+
  then show ?thesis by (simp add: bs le_bytes_def le_word_def)
qed

section \<open>Masks\<close>

text \<open>A mask of consecutive bits reads a digit.\<close>

lemma and_window: "n AND push_bit m (mask k) = push_bit m (take_bit k (drop_bit m n))" for n m k :: nat
  by (rule bit_eqI) (auto simp: bit_simps)

lemma unat_and: "unat (x AND y) = unat x AND unat y" for x y :: "'a::len word"
  by (rule unsigned_and_eq)

end
