(* ===== verification/Base62.thy ===== *)
theory Base62
  imports Go_Bytes
begin

unbundle bit_operations_syntax

text \<open>
  The base-62 codec of \<open>pkg/base62\<close>: the variable-width byte encoding (\<open>base62.go\<close>), which takes six
  bits at a time from the end of the input and five where six would leave the alphabet, and the
  positional encoding of 64-bit integers (\<open>integer.go\<close>).

  A byte is an 8-bit word.  \<open>decodeMap\<close>, an array of 256 bytes indexed by a byte, is a total function.
  The accumulator \<open>b\<close> of the decoder, a Go \<open>int\<close> that stays below \<open>2 ^ 14\<close>, is an unbounded integer.
  Every index expression that is not safe by its type has the panic as a branch.
\<close>

section \<open>Encodings\<close>


definition base :: nat where "base = 62"
definition compactMask :: byte where "compactMask = 0x1E"
definition mask5bits :: byte where "mask5bits = 0x1F"
definition mask6bits :: byte where "mask6bits = 0x3F"

record Encoding =
  Encoding_encode :: "byte list"
  Encoding_decodeMap :: "byte \<Rightarrow> byte"

abbreviation bytes_of :: "string \<Rightarrow> byte list" where
  "bytes_of s \<equiv> map of_char s"

definition index_panic :: error where
  "index_panic = Panic ''index out of range''"

primrec fill_table :: "byte list \<Rightarrow> nat \<Rightarrow> (byte \<Rightarrow> byte) \<Rightarrow> byte \<Rightarrow> byte" where
  "fill_table alphabet 0 m = m"
| "fill_table alphabet (Suc i) m = (fill_table alphabet i m)(alphabet ! i := of_nat i)"

definition NewEncoding :: "byte list \<Rightarrow> Encoding result" where
  "NewEncoding alphabet =
     (if length alphabet \<noteq> base then Inl (Panic ''encoding alphabet is not 62-bytes long'')
      else if 10 \<in> set alphabet \<or> 13 \<in> set alphabet
      then Inl (Panic ''encoding alphabet contains newline character'')
      else Inr \<lparr>Encoding_encode = alphabet,
             Encoding_decodeMap =
               fill_table alphabet (length alphabet) (\<lambda>_. 0xFF)\<rparr>)"

definition encodeStd :: "byte list" where
  "encodeStd = bytes_of ''ABCDEFGHIJKLMNOPQRSTUVWXYZabcdefghijklmnopqrstuvwxyz0123456789''"

definition StdEncoding :: "Encoding result" where
  "StdEncoding = NewEncoding encodeStd"

section \<open>The encoder\<close>

record encoder =
  enc_src :: "byte list"
  enc_pos :: int

definition newEncoder :: "byte list \<Rightarrow> encoder" where
  "newEncoder src = \<lparr>enc_src = src, enc_pos = int (length src) * 8\<rparr>"

definition get6bits :: "encoder \<Rightarrow> byte result" where
  "get6bits enc =
     (let r0 = enc_pos enc AND 7; i0 = drop_bit 3 (enc_pos enc);
          (i, r) = (if r0 = 0 then (i0 - 1, 8) else (i0, r0))
      in if 0 \<le> i \<and> i < int (length (enc_src enc)) then
           let b = drop_bit (nat (8 - r)) (enc_src enc ! nat i);
               b' = (if r < 6 \<and> i > 0 then b OR push_bit (nat r) (enc_src enc ! nat (i - 1)) else b)
           in Inr (b' AND mask6bits)
         else Inl index_panic)"

text \<open>The loop of \<open>encode\<close>: every round takes five or six bits off \<open>pos\<close>.\<close>

function encoder_encode :: "encoder \<Rightarrow> byte list \<Rightarrow> byte list \<Rightarrow> byte list result" where
  "encoder_encode enc dst encTable =
     (if enc_pos enc > 0 then
        (case get6bits enc of
           Inl e \<Rightarrow> Inl e
         | Inr b \<Rightarrow>
             let compact = (b AND compactMask = compactMask);
                 size = (if compact \<and> (enc_pos enc > 6 \<or> b > mask5bits) then 5 else 6);
                 b' = (if compact then b AND mask5bits else b)
             in if unat b' < length encTable
                then encoder_encode (enc\<lparr>enc_pos := enc_pos enc - size\<rparr>) (dst @ [encTable ! unat b']) encTable
                else Inl index_panic)
      else Inr dst)"
  by pat_completeness auto
termination
  by (relation "measure (\<lambda>(enc, _, _). nat (enc_pos enc))") auto

declare encoder_encode.simps [simp del]

definition Encode :: "Encoding \<Rightarrow> byte list \<Rightarrow> byte list result" where
  "Encode enc src =
     (if src = [] then Inr [] else encoder_encode (newEncoder src) [] (Encoding_encode enc))"

definition EncodeToBuf :: "Encoding \<Rightarrow> byte list \<Rightarrow> byte list \<Rightarrow> byte list result" where
  "EncodeToBuf enc dst src =
     (if src = [] then Inr dst else encoder_encode (newEncoder src) dst (Encoding_encode enc))"

section \<open>The decoder\<close>

text \<open>\<open>bits.Len8\<close>: the number of bits needed to represent the byte.\<close>

definition bits_Len8 :: "byte \<Rightarrow> nat" where
  "bits_Len8 x = length (filter (\<lambda>k. 2 ^ k \<le> unat x) [0..<8])"

text \<open>\<open>idx--; dst[idx] = byte(b)\<close>\<close>

definition put_byte :: "int \<Rightarrow> int \<Rightarrow> byte list \<Rightarrow> (int \<times> byte list) result" where
  "put_byte idx b dst =
     (if 0 \<le> idx - 1 \<and> idx - 1 < int (length dst)
      then Inr (idx - 1, dst[nat (idx - 1) := of_int b]) else Inl index_panic)"

definition digit_bits :: "bool \<Rightarrow> byte \<Rightarrow> byte" where
  "digit_bits final x =
     (if final then of_nat (bits_Len8 x) else if x AND compactMask = compactMask then 5 else 6)"

fun decode_from ::
    "(byte \<Rightarrow> byte) \<Rightarrow> nat \<Rightarrow> byte list \<Rightarrow> int \<Rightarrow> byte \<Rightarrow> int \<Rightarrow> byte list \<Rightarrow> (int \<times> byte list) result" where
  "decode_from decTable i [] idx pos b dst =
     (if pos > 0 then put_byte idx b dst else Inr (idx, dst))"
| "decode_from decTable i (c # dec) idx pos b dst =
     (let x = decTable c
      in if x = 0xFF then Inl (CorruptInputError i)
         else let b1 = b OR push_bit (unat pos) (uint x);
                  pos1 = pos + digit_bits (dec = []) x
              in if pos1 \<ge> 8 then
                   (case put_byte idx b1 dst of
                      Inl e \<Rightarrow> Inl e
                    | Inr (idx1, dst1) \<Rightarrow>
                        decode_from decTable (i + 1) dec idx1 (pos1 mod 8) (drop_bit 8 b1) dst1)
                 else decode_from decTable (i + 1) dec idx pos1 b1 dst)"

definition decoder_decode :: "byte list \<Rightarrow> byte list \<Rightarrow> (byte \<Rightarrow> byte) \<Rightarrow> (int \<times> byte list) result" where
  "decoder_decode dec dst decTable = decode_from decTable 0 dec (int (length dst)) 0 0 dst"

definition Decode :: "Encoding \<Rightarrow> byte list \<Rightarrow> byte list result" where
  "Decode enc src =
     (if src = [] then Inr []
      else case decoder_decode src (replicate (length src * 6 div 8 + 1) 0) (Encoding_decodeMap enc) of
             Inl e \<Rightarrow> Inl e
           | Inr (idx, dst) \<Rightarrow> Inr (drop (nat idx) dst))"

section \<open>Integers\<close>

text \<open>
  The loop fills an array of eleven bytes from its end; \<open>i\<close> is the index of the first used cell and
  \<open>buf\<close> the used part.
\<close>

function uint_digits :: "byte list \<Rightarrow> uint64 \<Rightarrow> int \<Rightarrow> byte list \<Rightarrow> byte list result" where
  "uint_digits table num i buf =
     (if num > 0 then
        if i - 1 < 0 then Inl index_panic
        else if unat (num mod 62) < length table
        then uint_digits table (num div 62) (i - 1) ((table ! unat (num mod 62)) # buf)
        else Inl index_panic
      else Inr buf)"
  by pat_completeness auto
termination
  by (relation "measure (\<lambda>(_, _, i, _). nat i)") auto

declare uint_digits.simps [simp del]

definition AppendUint :: "Encoding \<Rightarrow> byte list \<Rightarrow> uint64 \<Rightarrow> byte list result" where
  "AppendUint enc dst num =
     (if num = 0 then
        (if 0 < length (Encoding_encode enc) then Inr (dst @ [Encoding_encode enc ! 0]) else Inl index_panic)
      else case uint_digits (Encoding_encode enc) num 11 [] of
             Inl e \<Rightarrow> Inl e
           | Inr buf \<Rightarrow> Inr (dst @ buf))"

definition FormatUint :: "Encoding \<Rightarrow> uint64 \<Rightarrow> byte list result" where
  "FormatUint enc num = AppendUint enc [] num"

fun parse_digits :: "(byte \<Rightarrow> byte) \<Rightarrow> nat \<Rightarrow> byte list \<Rightarrow> uint64 \<Rightarrow> uint64 result" where
  "parse_digits table i [] num = Inr num"
| "parse_digits table i (c # src) num =
     (let x = table c
      in if x = 0xFF then Inl (CorruptInputError i)
         else parse_digits table (i + 1) src (num * 62 + ucast x))"

definition ParseUint :: "Encoding \<Rightarrow> byte list \<Rightarrow> uint64 result" where
  "ParseUint enc src = parse_digits (Encoding_decodeMap enc) 0 src 0"

text \<open>\<open>int64\<close> shares its representation with \<open>uint64\<close>: the conversions only reinterpret the bits.\<close>

definition AppendInt :: "Encoding \<Rightarrow> byte list \<Rightarrow> int \<Rightarrow> byte list result" where
  "AppendInt enc dst num = AppendUint enc dst (of_int num)"

definition FormatInt :: "Encoding \<Rightarrow> int \<Rightarrow> byte list result" where
  "FormatInt enc num = AppendUint enc [] (of_int num)"

definition ParseInt :: "Encoding \<Rightarrow> byte list \<Rightarrow> int result" where
  "ParseInt enc src =
     (case ParseUint enc src of Inl e \<Rightarrow> Inl e | Inr num \<Rightarrow> Inr (sint num))"

section \<open>Bytes as numbers\<close>

text \<open>A byte string read as a big-endian number, and back.\<close>

definition big :: "byte list \<Rightarrow> nat" where
  "big xs = foldl (\<lambda>a x. a * 256 + unat x) 0 xs"

fun big_bytes :: "nat \<Rightarrow> nat \<Rightarrow> byte list" where
  "big_bytes 0 w = []"
| "big_bytes (Suc k) w = big_bytes k (w div 256) @ [of_nat w]"

lemma big_simps [simp]: "big [] = 0" "big (xs @ [x]) = big xs * 256 + unat x"
  by (simp_all add: big_def)

lemma unat_byte: "unat (x :: byte) < 256"
  using unsigned_less [where 'a = nat, of x] by simp

lemma big_less: "big xs < 256 ^ length xs"
proof (induction xs rule: rev_induct)
  case (snoc x xs)
  have "big xs * 256 + unat x < Suc (big xs) * 256" using unat_byte [of x] by simp
  also have "\<dots> \<le> 256 ^ length xs * 256" using snoc by simp
  finally show ?case by simp
qed simp

lemma length_big_bytes [simp]: "length (big_bytes k w) = k"
  by (induction k arbitrary: w) simp_all

lemma big_bytes_big [simp]: "big_bytes (length xs) (big xs) = xs"
proof (induction xs rule: rev_induct)
  case (snoc x xs)
  have "(of_nat (big xs * 256 + unat x) :: byte) = x"
    using unat_byte [of x] by (simp add: word_unat_eq_iff unat_of_nat take_bit_eq_mod del: of_nat_add of_nat_mult)
  moreover have "(big xs * 256 + unat x) div 256 = big xs" using unat_byte [of x] by simp
  ultimately show ?case using snoc by simp
qed simp

lemma big_take: "k \<le> length xs \<Longrightarrow> big (take k xs) = big xs div 256 ^ (length xs - k)"
proof (induction xs rule: rev_induct)
  case (snoc x xs)
  show ?case
  proof (cases "k \<le> length xs")
    case True
    have "(big xs * 256 + unat x) div 256 ^ (Suc (length xs) - k) =
        (big xs * 256 + unat x) div 256 div 256 ^ (length xs - k)"
      using True by (simp add: Suc_diff_le div_mult2_eq)
    also have "(big xs * 256 + unat x) div 256 = big xs" using unat_byte [of x] by simp
    finally show ?thesis using snoc True by simp
  next
    case False
    with snoc.prems have "k = Suc (length xs)" by simp
    then show ?thesis by simp
  qed
qed simp

section \<open>Reading six bits\<close>

lemma or_disjoint:
  fixes a c :: nat
  assumes "a < 2 ^ r"
  shows "a OR push_bit r c = a + push_bit r c"
proof -
  have "a AND push_bit r c = 0"
  proof (rule bit_eqI)
    fix n
    have "\<not> (bit a n \<and> r \<le> n)"
      using assms by (metis bit_take_bit_iff not_le take_bit_nat_eq_self)
    then show "bit (a AND push_bit r c) n \<longleftrightarrow> bit 0 n" by (auto simp: bit_simps)
  qed
  then show ?thesis by (simp add: disjunctive_add_eq_or)
qed

lemma unat_and_mask6: "unat (b AND mask6bits) = unat b mod 64"
proof -
  have "b AND mask6bits = take_bit 6 b"
    by (simp add: mask6bits_def take_bit_eq_mask mask_eq_exp_minus_1)
  then have "unat (b AND mask6bits) = take_bit 6 (unat b)" by (simp only: unsigned_take_bit_eq)
  then show ?thesis by (simp add: take_bit_eq_mod)
qed

lemma add_mod_256: "(a + c mod 256) mod 64 = (a + c) mod (64 :: nat)"
proof -
  have "c mod 256 mod 64 = c mod 64" by (rule mod_mod_cancel) simp
  then show ?thesis using mod_add_right_eq [of a "c mod 256" 64] mod_add_right_eq [of a c 64] by simp
qed

lemma get6bits_big:
  assumes "0 < p" and "p \<le> 8 * length src"
  shows "\<exists>b. get6bits \<lparr>enc_src = src, enc_pos = int p\<rparr> = Inr b \<and>
    unat b = big src div 2 ^ (8 * length src - p) mod 64"
proof -
  define i r where "i = (p - 1) div 8" and "r = (p - 1) mod 8 + 1"
  have p: "p = 8 * i + r" and r: "0 < r" "r \<le> 8" and i: "i < length src"
    using assms by (auto simp: i_def r_def)
  let ?x = "src ! i" and ?y = "src ! (i - 1)" and ?A = "big (take i src)" and ?B = "big (take (i - 1) src)"
  have ir: "(if int p AND 7 = 0 then (drop_bit 3 (int p) - 1, 8) else (drop_bit 3 (int p), int p AND 7)) =
      (int i, int r)"
  proof -
    have "int p AND 7 = int (p mod 8)"
      using take_bit_eq_mask [of 3 "int p"] by (simp add: take_bit_eq_mod mask_eq_exp_minus_1 zmod_int)
    moreover have "drop_bit 3 (int p) = int (p div 8)" by (simp add: drop_bit_eq_div zdiv_int)
    moreover have "if p mod 8 = 0 then p div 8 = i + 1 \<and> r = 8 else p div 8 = i \<and> r = p mod 8"
      using p r by (cases "r = 8") auto
    ultimately show ?thesis by (auto split: if_splits)
  qed
  have split: "big (take (Suc i) src) = ?A * 256 + unat ?x"
    using i by (simp add: take_Suc_conv_app_nth)
  have "big src div 2 ^ (8 * length src - p) = big src div 256 ^ (length src - Suc i) div 2 ^ (8 - r)"
  proof -
    have "8 * length src - p = 8 * (length src - Suc i) + (8 - r)" using p r i by simp
    then show ?thesis by (simp add: power_add power_mult div_mult2_eq)
  qed
  also have "\<dots> = (?A * 256 + unat ?x) div 2 ^ (8 - r)"
    using big_take [of "Suc i" src] i split by simp
  also have "\<dots> = ?A * 2 ^ r + unat ?x div 2 ^ (8 - r)"
  proof -
    have "?A * 256 = ?A * 2 ^ r * 2 ^ (8 - r)"
      using r by (simp add: mult.assoc flip: power_add)
    then have "?A * 256 + unat ?x = ?A * 2 ^ r * 2 ^ (8 - r) + unat ?x" by (rule arg_cong)
    then show ?thesis by (simp only: div_mult_self3) simp
  qed
  finally have val: "big src div 2 ^ (8 * length src - p) = ?A * 2 ^ r + unat ?x div 2 ^ (8 - r)" .
  let ?b = "drop_bit (8 - r) ?x"
  let ?b' = "if r < 6 \<and> 0 < i then ?b OR push_bit r ?y else ?b"
  have run: "get6bits \<lparr>enc_src = src, enc_pos = int p\<rparr> = Inr (?b' AND mask6bits)"
    unfolding get6bits_def Let_def encoder.simps ir using i r
    by (auto simp: nat_diff_distrib)
  have b: "unat ?b = unat ?x div 2 ^ (8 - r)" unfolding unat_drop_bit_eq by (simp add: drop_bit_eq_div)
  have "unat ?b' mod 64 = (?A * 2 ^ r + unat ?x div 2 ^ (8 - r)) mod 64"
  proof (cases "r < 6 \<and> 0 < i")
    case True
    have "unat ?x div 2 ^ (8 - r) < 2 ^ r"
      using unat_byte [of ?x] r by (simp add: less_mult_imp_div_less flip: power_add)
    then have "unat ?b' = unat ?b + push_bit r (take_bit (8 - r) (unat ?y))"
      using True b r or_disjoint by (simp add: unsigned_or_eq unsigned_push_bit_eq take_bit_push_bit)
    also have "push_bit r (take_bit (8 - r) (unat ?y)) = unat ?y * 2 ^ r mod 256"
      using r mult_mod_right [of "2 ^ r" "unat ?y" "2 ^ (8 - r)"]
      by (simp add: push_bit_eq_mult take_bit_eq_mod mult.commute flip: power_add)
    finally have "unat ?b' = unat ?b + unat ?y * 2 ^ r mod 256" .
    then have "unat ?b' mod 64 = (unat ?b + unat ?y * 2 ^ r) mod 64" by (simp only: add_mod_256)
    moreover have "?A = ?B * 256 + unat ?y"
      using True i take_Suc_conv_app_nth [of "i - 1" src] by simp
    moreover have "(?B * 256 + unat ?y) * 2 ^ r + unat ?b = unat ?b + unat ?y * 2 ^ r + 64 * (4 * ?B * 2 ^ r)"
      by algebra
    ultimately show ?thesis unfolding b [symmetric] by (simp only: mod_mult_self2)
  next
    case False
    then consider "6 \<le> r" | "i = 0" by linarith
    then have "?A * 2 ^ r mod 64 = 0"
    proof cases
      case 1
      then have "(2 :: nat) ^ r = 64 * 2 ^ (r - 6)" using power_add [of "2 :: nat" 6 "r - 6"] by simp
      then show ?thesis by simp
    qed simp
    then have "(?A * 2 ^ r + unat ?x div 2 ^ (8 - r)) mod 64 = unat ?x div 2 ^ (8 - r) mod 64"
      using mod_add_left_eq [of "?A * 2 ^ r" 64 "unat ?x div 2 ^ (8 - r)"] by simp
    then show ?thesis unfolding if_not_P [OF False] b by simp
  qed
  then show ?thesis using run val by (simp add: unat_and_mask6)
qed

section \<open>Digits\<close>

text \<open>The digit sequence of a number of at most \<open>p\<close> bits, and the number of a digit sequence.\<close>

definition compact :: "nat \<Rightarrow> bool" where
  "compact d \<longleftrightarrow> d div 2 mod 16 = 15"

function digits :: "nat \<Rightarrow> nat \<Rightarrow> nat list" where
  "digits p v =
     (if p = 0 then []
      else let d = v mod 64
           in if compact d \<and> (p > 6 \<or> d > 31) then (d mod 32) # digits (p - 5) (v div 32)
              else (if compact d then d mod 32 else d) # digits (p - 6) (v div 64))"
  by pat_completeness auto
termination
  by (relation "measure fst") auto

declare digits.simps [simp del]

fun width :: "nat list \<Rightarrow> nat \<Rightarrow> nat" where
  "width ds d = (if ds = [] then bits_Len8 (of_nat d) else if compact d then 5 else 6)"

declare width.simps [simp del]

fun digits_value :: "nat list \<Rightarrow> nat" where
  "digits_value [] = 0"
| "digits_value (d # ds) = d + 2 ^ width ds d * digits_value ds"

fun digits_bits :: "nat list \<Rightarrow> nat" where
  "digits_bits [] = 0"
| "digits_bits (d # ds) = width ds d + digits_bits ds"

lemma compact_iff: "b AND compactMask = compactMask \<longleftrightarrow> compact (unat b)"
proof -
  from and_window [of "unat b" 1 4] have "unat b AND 30 = (unat b div 2 mod 16) * 2"
    unfolding push_bit_eq_mult take_bit_eq_mod drop_bit_eq_div mask_eq_exp_minus_1 by simp
  then have "(unat b AND 30 = 30) = (unat b div 2 mod 16 = 15)" by linarith
  then show ?thesis
    by (simp add: compact_def compactMask_def word_unat_eq_iff unat_and)
qed

lemma unat_and_mask5: "unat (b AND mask5bits) = unat b mod 32"
proof -
  have "b AND mask5bits = take_bit 5 b"
    by (simp add: mask5bits_def take_bit_eq_mask mask_eq_exp_minus_1)
  then have "unat (b AND mask5bits) = take_bit 5 (unat b)" by (simp only: unsigned_take_bit_eq)
  then show ?thesis by (simp add: take_bit_eq_mod)
qed

lemma compact_cases: "d < 64 \<Longrightarrow> compact d \<longleftrightarrow> d \<in> {30, 31, 62, 63}"
proof -
  assume "d < 64"
  moreover have "list_all (\<lambda>d. (d div 2 mod 16 = 15) = (d \<in> {30, 31, 62, 63})) [0 :: nat..<64]" by code_simp
  ultimately show ?thesis by (simp add: compact_def list_all_iff)
qed

lemma digit_less: "d \<in> set (digits p v) \<Longrightarrow> d < 62"
proof (induction p v rule: digits.induct)
  case (1 p v)
  have "v mod 64 < 64" by simp
  with compact_cases [OF this] 1 show ?case
    by (subst (asm) (2) digits.simps) (auto simp: Let_def split: if_splits)
qed

lemma encoder_digits:
  assumes "length table = 62" and "p \<le> 8 * length src"
  shows "encoder_encode \<lparr>enc_src = src, enc_pos = int p\<rparr> dst table =
    Inr (dst @ map ((!) table) (digits p (big src div 2 ^ (8 * length src - p))))"
  using assms(2)
proof (induction p arbitrary: dst rule: less_induct)
  case (less p)
  show ?case
  proof (cases "p = 0")
    case True
    then show ?thesis by (simp add: encoder_encode.simps digits.simps)
  next
    case False
    let ?v = "big src div 2 ^ (8 * length src - p)"
    obtain b where b: "get6bits \<lparr>enc_src = src, enc_pos = int p\<rparr> = Inr b" "unat b = ?v mod 64"
      using get6bits_big [of p src] False less.prems by auto
    have next_v: "big src div 2 ^ (8 * length src - (p - k)) = ?v div 2 ^ k" if "k \<le> p" for k
    proof -
      have "8 * length src - (p - k) = 8 * length src - p + k" using that less.prems by simp
      then show ?thesis by (simp add: power_add div_mult2_eq)
    qed
    have v: "?v < 2 ^ p"
    proof -
      have "big src < 2 ^ (8 * length src)" using big_less [of src] by (simp add: power_mult)
      also have "(2 :: nat) ^ (8 * length src) = 2 ^ p * 2 ^ (8 * length src - p)"
        using less.prems by (simp flip: power_add)
      finally show ?thesis by (simp add: less_mult_imp_div_less)
    qed
    let ?d = "if compact (unat b) then b AND mask5bits else b"
    let ?five = "compact (unat b) \<and> (p > 6 \<or> unat b > 31)"
    have d: "unat ?d < length table"
      using compact_cases [of "unat b"] b(2) by (auto simp: assms(1) unat_and_mask5)
    have run: "encoder_encode \<lparr>enc_src = src, enc_pos = int p\<rparr> dst table =
        encoder_encode \<lparr>enc_src = src, enc_pos = int p - (if ?five then 5 else 6)\<rparr> (dst @ [table ! unat ?d]) table"
      using False b(1) d
      by (subst encoder_encode.simps) (simp add: compact_iff mask5bits_def word_less_nat_alt Let_def)
    have step: "encoder_encode \<lparr>enc_src = src, enc_pos = int p - int k\<rparr> dst' table =
        Inr (dst' @ map ((!) table) (digits (p - k) (?v div 2 ^ k)))" if "0 < k" for k dst'
    proof (cases "k \<le> p")
      case True
      then show ?thesis using less.IH [of "p - k" dst'] that False less.prems next_v [OF True] by (simp add: of_nat_diff)
    next
      case False
      then show ?thesis by (simp add: encoder_encode.simps digits.simps)
    qed
    show ?thesis
    proof (cases ?five)
      case True
      then have "digits p ?v = unat ?d # digits (p - 5) (?v div 2 ^ 5)"
        using False b(2) by (subst digits.simps) (auto simp: Let_def unat_and_mask5)
      then show ?thesis using run True step [of 5] by simp
    next
      case no: False
      then have "digits p ?v = unat ?d # digits (p - 6) (?v div 2 ^ 6)"
        using False b(2) by (subst digits.simps) (auto simp: Let_def unat_and_mask5)
      then show ?thesis using run no step [of 6] by simp
    qed
  qed
qed

lemma bits_Len8_bounds:
  assumes "v < 2 ^ p" and "p \<le> 8"
  shows "bits_Len8 (of_nat v) \<le> p" and "v < 2 ^ bits_Len8 (of_nat v)"
proof -
  have "v < 256" using assms power_increasing [of p 8 "2 :: nat"] by simp
  then have u: "unat (of_nat v :: byte) = v" by (simp add: unat_of_nat take_bit_nat_eq_self)
  define S where "S = {k. k < 8 \<and> 2 ^ k \<le> v}"
  have fin: "finite S" by (simp add: S_def)
  have len: "bits_Len8 (of_nat v) = card S"
    unfolding bits_Len8_def u length_filter_conv_card S_def by (rule arg_cong [of _ _ card]) auto
  have "k < p" if "k \<in> S" for k
  proof -
    have "2 ^ k \<le> v" using that by (simp add: S_def)
    from le_less_trans [OF this assms(1)] show ?thesis by simp
  qed
  then have "S \<subseteq> {..<p}" by blast
  then show "bits_Len8 (of_nat v) \<le> p" using card_mono [of "{..<p}" S] len by simp
  show "v < 2 ^ bits_Len8 (of_nat v)"
  proof (rule ccontr)
    assume "\<not> v < 2 ^ bits_Len8 (of_nat v)"
    then have le: "2 ^ card S \<le> v" using len by simp
    have "2 ^ card S < (2 :: nat) ^ 8" using le_less_trans [OF le \<open>v < 256\<close>] by simp
    then have small: "card S < 8" by (rule power_less_imp_less_exp [rotated]) simp
    have "k \<in> S" if "k \<le> card S" for k
    proof -
      have "2 ^ k \<le> (2 :: nat) ^ card S" by (rule power_increasing [OF that]) simp
      from order_trans [OF this le] show ?thesis using small that by (simp add: S_def)
    qed
    then have "{..card S} \<subseteq> S" by blast
    from card_mono [OF fin this] show False by simp
  qed
qed

lemma digits_roundtrip:
  "0 < p \<Longrightarrow> v < 2 ^ p \<Longrightarrow>
    digits p v \<noteq> [] \<and> digits_value (digits p v) = v \<and> digits_bits (digits p v) \<le> p \<and> p \<le> digits_bits (digits p v) + 6"
proof (induction p v rule: digits.induct)
  case (1 p v)
  let ?d = "v mod 64"
  have d: "compact ?d \<longleftrightarrow> ?d \<in> {30, 31, 62, 63}" by (rule compact_cases) simp
  have p: "(2 :: nat) ^ p = 2 ^ (p - k) * 2 ^ k" if "k \<le> p" for k
    using that by (simp flip: power_add)
  show ?case
  proof (cases "compact ?d \<and> (p > 6 \<or> ?d > 31)")
    case True
    have "p > 5"
    proof (rule ccontr)
      assume "\<not> 5 < p"
      then have "(2 :: nat) ^ p \<le> 2 ^ 5" by (intro power_increasing) simp_all
      then show False using 1(4) True \<open>\<not> 5 < p\<close> by simp
    qed
    then have "v div 32 < 2 ^ (p - 5)"
      using p [of 5] 1(4) by (intro less_mult_imp_div_less) simp
    from 1(1) [OF _ refl True _ this] \<open>p > 5\<close>
    have IH: "digits (p - 5) (v div 32) \<noteq> []" "digits_value (digits (p - 5) (v div 32)) = v div 32"
      "digits_bits (digits (p - 5) (v div 32)) \<le> p - 5" "p - 5 \<le> digits_bits (digits (p - 5) (v div 32)) + 6"
      by auto
    have "compact (?d mod 32)" using True d compact_cases [of "?d mod 32"] by auto
    moreover have "?d mod 32 = v mod 32" by (rule mod_mod_cancel) simp
    moreover have "digits p v = ?d mod 32 # digits (p - 5) (v div 32)"
      using True \<open>p > 5\<close> by (subst digits.simps) (simp add: Let_def)
    moreover have "digits_bits (digits (p - 5) (v div 32)) + 5 \<le> p" "p \<le> digits_bits (digits (p - 5) (v div 32)) + 11"
      using \<open>p > 5\<close> IH(3,4) by linarith+
    ultimately show ?thesis using IH(1,2) by (simp add: width.simps add.commute)
  next
    case no: False
    show ?thesis
    proof (cases "p > 6")
      case True
      then have "\<not> compact ?d" using no by simp
      have "v div 64 < 2 ^ (p - 6)"
        using p [of 6] 1(4) True by (intro less_mult_imp_div_less) simp
      from 1(2) [OF _ refl no _ this] True
      have IH: "digits (p - 6) (v div 64) \<noteq> []" "digits_value (digits (p - 6) (v div 64)) = v div 64"
        "digits_bits (digits (p - 6) (v div 64)) \<le> p - 6" "p - 6 \<le> digits_bits (digits (p - 6) (v div 64)) + 6"
        by auto
      moreover have "digits p v = ?d # digits (p - 6) (v div 64)"
        using True \<open>\<not> compact ?d\<close> by (subst digits.simps) (simp add: Let_def)
      moreover have "digits_bits (digits (p - 6) (v div 64)) + 6 \<le> p" "p \<le> digits_bits (digits (p - 6) (v div 64)) + 12"
        using True IH(3,4) by linarith+
      ultimately show ?thesis using \<open>\<not> compact ?d\<close> by (simp add: width.simps add.commute)
    next
      case False
      then have "(2 :: nat) ^ p \<le> 2 ^ 6" by (intro power_increasing) simp_all
      then have "v < 64" using 1(4) by simp
      then have "digits p v = [v]"
        using no d False 1(3) by (subst digits.simps) (auto simp: Let_def digits.simps [of 0])
      then show ?thesis using bits_Len8_bounds [OF 1(4)] False by (simp add: width.simps)
    qed
  qed
qed

section \<open>Decoding\<close>

lemma or_shift:
  assumes "b < 2 ^ q"
  shows "int b OR push_bit q (uint x) = int (b + 2 ^ q * unat x)"
proof -
  have "int b OR push_bit q (uint x) = int (b OR push_bit q (unat x))"
    by (simp add: of_nat_or_eq flip: push_bit_of_nat)
  then show ?thesis using or_disjoint [OF assms, of "unat x"] by (simp add: push_bit_eq_mult mult.commute)
qed

lemma width_bounds:
  assumes "d < 62"
  shows "width ds d \<le> 6" and "d < 2 ^ width ds d"
  using bits_Len8_bounds [of d 6] compact_cases [of d] assms by (auto simp: width.simps)

lemma unat_add_width:
  assumes "unat pos < 8" and "unat x < 62"
  shows "unat (pos + digit_bits (cs = []) x) = unat pos + width (map f cs) (unat x)"
proof -
  have "unat (digit_bits (cs = []) x) = width (map f cs) (unat x)"
    using width_bounds(1) [OF assms(2), of "map f cs"]
    by (auto simp: digit_bits_def width.simps compact_iff unat_of_nat take_bit_nat_eq_self)
  then show ?thesis
    using assms(1) width_bounds(1) [OF assms(2), of "map f cs"] by (simp add: unat_word_ariths)
qed

lemma put_byte_ok:
  assumes "0 < idx" and "idx \<le> length dst"
  shows "put_byte (int idx) b dst = Inr (int (idx - 1), dst[idx - 1 := of_int b])"
  using assms by (simp add: put_byte_def of_nat_diff nat_diff_distrib)

lemma carry:
  fixes b q r :: nat
  assumes "8 \<le> q"
  shows "(b + 2 ^ q * r) div 256 = b div 256 + 2 ^ (q - 8) * r" and "(of_nat (b + 2 ^ q * r) :: byte) = of_nat b"
    and "b < 2 ^ q \<Longrightarrow> b div 256 < 2 ^ (q - 8)" and "(q + n + 7) div 8 = Suc ((q - 8 + n + 7) div 8)"
proof -
  have q: "(2 :: nat) ^ q = 256 * 2 ^ (q - 8)" using assms power_add [of "2 :: nat" 8 "q - 8"] by simp
  have s: "b + 2 ^ q * r = b + 256 * (2 ^ (q - 8) * r)" by (simp add: q)
  show "(b + 2 ^ q * r) div 256 = b div 256 + 2 ^ (q - 8) * r" unfolding s by simp
  have "(of_nat (256 * m) :: byte) = 0" for m by (simp add: word_unat_eq_iff unat_of_nat take_bit_eq_mod del: of_nat_mult)
  then show "(of_nat (b + 2 ^ q * r) :: byte) = of_nat b" unfolding s of_nat_add by (simp only: add_0_right)
  show "b < 2 ^ q \<Longrightarrow> b div 256 < 2 ^ (q - 8)" by (simp add: q less_mult_imp_div_less)
  have "q + n + 7 = 8 + (q - 8 + n + 7)" using assms by simp
  moreover have "(8 + m) div 8 = Suc (m div 8)" for m :: nat by simp
  ultimately show "(q + n + 7) div 8 = Suc ((q - 8 + n + 7) div 8)" by (simp only:)
qed

lemma decode_digits:
  fixes table :: "byte \<Rightarrow> byte"
  assumes "\<forall>c \<in> set cs. unat (table c) < 62"
    and "unat pos < 8" and "b < 2 ^ unat pos" and "idx \<le> length dst"
    and "k = (unat pos + digits_bits (map (\<lambda>c. unat (table c)) cs) + 7) div 8" and "k \<le> idx"
  shows "decode_from table i cs (int idx) pos (int b) dst =
    Inr (int (idx - k), take (idx - k) dst @
      big_bytes k (b + 2 ^ unat pos * digits_value (map (\<lambda>c. unat (table c)) cs)) @ drop idx dst)"
  using assms
proof (induction cs arbitrary: i idx pos b dst k)
  case Nil
  show ?case
  proof (cases "pos = 0")
    case True
    then show ?thesis using Nil by simp
  next
    case False
    then have "0 < unat pos" by (simp add: unat_gt_0)
    then have "(unat pos + 7) div 8 = 1" using Nil(2) by (intro div_nat_eqI) simp_all
    then have k: "k = Suc 0" using Nil(5) by simp
    have "dst[idx - 1 := of_int (int b)] = take (idx - 1) dst @ of_nat b # drop idx dst"
      using Nil(4,6) k by (subst upd_conv_take_nth_drop) auto
    then show ?thesis
      using False Nil(4,6) k put_byte_ok [of idx dst "int b"] by (simp add: word_neq_0_conv)
  qed
next
  case (Cons c cs)
  let ?x = "table c" and ?ds = "map (\<lambda>c. unat (table c)) cs" and ?q = "unat pos"
  let ?w = "width ?ds (unat ?x)"
  let ?pos1 = "pos + digit_bits (cs = []) ?x" and ?b1 = "b + 2 ^ ?q * unat ?x"
  let ?W = "b + 2 ^ ?q * digits_value (map (\<lambda>c. unat (table c)) (c # cs))"
  have x: "unat ?x < 62" using Cons.prems by simp
  then have ff: "?x \<noteq> 0xFF" by auto
  have p1: "unat ?pos1 = ?q + ?w" by (rule unat_add_width [OF Cons.prems(2) x])
  have b1: "?b1 < 2 ^ (?q + ?w)"
  proof -
    have "?b1 < 2 ^ ?q * Suc (unat ?x)" using Cons.prems(3) by simp
    also have "\<dots> \<le> 2 ^ ?q * 2 ^ ?w" using width_bounds(2) [OF x, of ?ds] by (intro mult_le_mono2) simp
    finally show ?thesis by (simp add: power_add)
  qed
  have W: "?W = ?b1 + 2 ^ (?q + ?w) * digits_value ?ds" by (simp add: power_add algebra_simps)
  have run: "decode_from table i (c # cs) (int idx) pos (int b) dst =
      (if ?pos1 \<ge> 8 then
         (case put_byte (int idx) (int ?b1) dst of Inl e \<Rightarrow> Inl e
          | Inr (idx1, dst1) \<Rightarrow> decode_from table (i + 1) cs idx1 (?pos1 mod 8) (drop_bit 8 (int ?b1)) dst1)
       else decode_from table (i + 1) cs (int idx) ?pos1 (int ?b1) dst)"
    using ff or_shift [OF Cons.prems(3), of ?x] by (simp add: Let_def del: of_nat_add of_nat_mult)
  show ?case
  proof (cases "?pos1 \<ge> 8")
    case True
    then have q: "8 \<le> ?q + ?w" using p1 by (simp add: word_le_nat_alt)
    have p2: "unat (?pos1 mod 8) = ?q + ?w - 8"
      using q Cons.prems(2) width_bounds(1) [OF x, of ?ds] by (simp add: unat_mod p1 mod_if)
    have k: "k = Suc (k - 1)" "k - 1 = (unat (?pos1 mod 8) + digits_bits ?ds + 7) div 8"
      using Cons.prems(5) carry(4) [OF q, of "digits_bits ?ds"] by (simp_all add: p2 add.assoc)
    have W2: "?W div 256 = ?b1 div 256 + 2 ^ unat (?pos1 mod 8) * digits_value ?ds"
      unfolding W p2 by (rule carry(1) [OF q])
    have Wb: "(of_nat ?W :: byte) = of_nat ?b1" unfolding W by (rule carry(2) [OF q])
    have d: "drop_bit 8 (int ?b1) = int (?b1 div 256)" by (simp add: drop_bit_eq_div zdiv_int)
    let ?dst = "dst[idx - 1 := of_nat ?b1]"
    have put: "put_byte (int idx) (int ?b1) dst = Inr (int (idx - 1), ?dst)"
      using put_byte_ok [of idx dst "int ?b1"] Cons.prems(4,6) k(1) by simp
    have "decode_from table i (c # cs) (int idx) pos (int b) dst =
        Inr (int (idx - 1 - (k - 1)), take (idx - 1 - (k - 1)) ?dst @
          big_bytes (k - 1) (?W div 256) @ drop (idx - 1) ?dst)"
      unfolding run if_P [OF True] put sum.case prod.case d W2
    proof (rule Cons.IH)
      show "unat (?pos1 mod 8) < 8" "?b1 div 256 < 2 ^ unat (?pos1 mod 8)"
        unfolding p2 using Cons.prems(2) width_bounds(1) [OF x, of ?ds] carry(3) [OF q b1] by simp_all
      show "k - 1 = (unat (?pos1 mod 8) + digits_bits ?ds + 7) div 8" by (rule k(2))
    qed (use Cons.prems in simp_all)
    moreover have "drop (idx - 1) ?dst = of_nat ?W # drop idx dst"
      unfolding Wb using Cons.prems(4,6) k(1) by (auto simp: drop_update_swap Cons_nth_drop_Suc [symmetric])
    moreover have "take (idx - 1 - (k - 1)) ?dst = take (idx - k) dst" using k(1) by simp
    ultimately show ?thesis using k(1) big_bytes.simps(2) [of "k - 1" ?W] by simp
  next
    case False
    then have "?q + ?w < 8" using p1 by (simp add: word_le_nat_alt not_le)
    then show ?thesis
      unfolding run if_not_P [OF False] W p1 [symmetric]
      using Cons.prems b1 p1 by (intro Cons.IH) (simp_all add: add.assoc)
  qed
qed

lemma digits_bits_le: "\<forall>d \<in> set ds. d < 62 \<Longrightarrow> digits_bits ds \<le> 6 * length ds"
proof (induction ds)
  case (Cons d ds)
  then show ?case using width_bounds(1) [of d ds] by simp
qed simp

lemma decode_corrupt:
  fixes table :: "byte \<Rightarrow> byte"
  assumes "\<forall>c \<in> set cs. unat (table c) < 62" and "table c = 0xFF"
    and "unat pos < 8" and "unat pos + 6 * length cs \<le> 8 * idx" and "idx \<le> length dst"
  shows "decode_from table i (cs @ c # rest) (int idx) pos b dst = Inl (CorruptInputError (i + length cs))"
  using assms
proof (induction cs arbitrary: i idx pos b dst)
  case (Cons x cs)
  let ?x = "table x"
  let ?pos1 = "pos + digit_bits False ?x"
  have x: "unat ?x < 62" using Cons.prems by simp
  then have ff: "?x \<noteq> 0xFF" by auto
  obtain w where w: "unat ?pos1 = unat pos + w" "w \<le> 6"
    using unat_add_width [OF Cons.prems(3) x, of "[c]"] width_bounds(1) [OF x] by simp blast
  show ?case
  proof (cases "?pos1 \<ge> 8")
    case True
    then have q: "8 \<le> unat pos + w" using w(1) by (simp add: word_le_nat_alt)
    then have idx: "0 < idx" using Cons.prems(4) w(2) by simp
    have "unat (?pos1 mod 8) = unat pos + w - 8"
      using q Cons.prems(3) w by (simp add: unat_mod mod_if)
    then have "unat (?pos1 mod 8) < 8" "unat (?pos1 mod 8) + 6 * length cs \<le> 8 * (idx - 1)"
      using q Cons.prems(3,4) w(2) by simp_all
    then have "decode_from table (i + 1) (cs @ c # rest) (int (idx - 1)) (?pos1 mod 8) b' dst' =
        Inl (CorruptInputError (i + 1 + length cs))" if "length dst' = length dst" for b' dst'
      using Cons.prems that by (intro Cons.IH) simp_all
    then show ?thesis using True ff put_byte_ok [OF idx Cons.prems(5)] by (simp add: Let_def)
  next
    case False
    then have "unat ?pos1 < 8" by (simp add: word_le_nat_alt not_le)
    then have "decode_from table (i + 1) (cs @ c # rest) (int idx) ?pos1 b' dst =
        Inl (CorruptInputError (i + 1 + length cs))" for b'
      using Cons.prems w by (intro Cons.IH) simp_all
    then show ?thesis using False ff by (simp add: Let_def)
  qed
qed simp

lemma Decode_ok:
  assumes "\<forall>c \<in> set src. unat (Encoding_decodeMap enc c) < 62"
  shows "Decode enc src =
    (let ds = map (\<lambda>c. unat (Encoding_decodeMap enc c)) src in Inr (big_bytes ((digits_bits ds + 7) div 8) (digits_value ds)))"
proof (cases "src = []")
  case False
  define ds n k where "ds = map (\<lambda>c. unat (Encoding_decodeMap enc c)) src"
    and "n = length src * 6 div 8 + 1" and "k = (digits_bits ds + 7) div 8"
  have "digits_bits ds \<le> 6 * length src" using digits_bits_le [of ds] assms by (simp add: ds_def)
  then have k: "k \<le> n" unfolding k_def n_def by linarith
  have "decode_from (Encoding_decodeMap enc) 0 src (int n) 0 (int 0) (replicate n 0) =
      Inr (int (n - k), take (n - k) (replicate n 0) @ big_bytes k (0 + 2 ^ unat (0 :: byte) * digits_value ds) @
        drop n (replicate n 0))"
    unfolding ds_def using assms k by (intro decode_digits) (simp_all add: k_def ds_def)
  then have "decoder_decode src (replicate n 0) (Encoding_decodeMap enc) =
      Inr (int (n - k), replicate (n - k) 0 @ big_bytes k (digits_value ds))"
    by (simp add: decoder_decode_def min_def)
  then show ?thesis using False unfolding Decode_def Let_def n_def [symmetric] ds_def [symmetric] k_def [symmetric] by simp
qed (simp add: Decode_def)

lemma Decode_corrupt:
  assumes "\<forall>c \<in> set good. unat (Encoding_decodeMap enc c) < 62" and "Encoding_decodeMap enc c = 0xFF"
  shows "Decode enc (good @ c # rest) = Inl (CorruptInputError (length good))"
proof -
  define n where "n = length (good @ c # rest) * 6 div 8 + 1"
  have "6 * length good \<le> 8 * n" unfolding n_def by simp
  then have "decode_from (Encoding_decodeMap enc) 0 (good @ c # rest) (int n) 0 0 (replicate n 0) =
      Inl (CorruptInputError (0 + length good))"
    using assms by (intro decode_corrupt) simp_all
  then show ?thesis unfolding Decode_def decoder_decode_def n_def [symmetric] by simp
qed

section \<open>Alphabets\<close>

lemma table_outside:
  "n \<le> length alphabet \<Longrightarrow> c \<notin> set (take n alphabet) \<Longrightarrow> fill_table alphabet n m c = m c"
  by (induction n) (auto simp: take_Suc_conv_app_nth)

lemma table_inside:
  "n \<le> length alphabet \<Longrightarrow> c \<in> set (take n alphabet) \<Longrightarrow>
    \<exists>j < n. alphabet ! j = c \<and> fill_table alphabet n m c = of_nat j"
proof (induction n)
  case (Suc n)
  show ?case
  proof (cases "c = alphabet ! n")
    case True
    then show ?thesis by (intro exI [of _ n]) simp
  next
    case False
    then have "c \<in> set (take n alphabet)" using Suc.prems by (auto simp: take_Suc_conv_app_nth)
    with Suc.IH Suc.prems(1) obtain j where "j < n" "alphabet ! j = c" "fill_table alphabet n m c = of_nat j"
      by auto
    then show ?thesis using False by (intro exI [of _ j]) simp
  qed
qed simp

lemma NewEncoding_table:
  assumes "NewEncoding alphabet = Inr enc"
  shows "Encoding_encode enc = alphabet" and "length alphabet = 62"
    and "c \<notin> set alphabet \<Longrightarrow> Encoding_decodeMap enc c = 0xFF"
    and "c \<in> set alphabet \<Longrightarrow> unat (Encoding_decodeMap enc c) < 62 \<and>
      alphabet ! unat (Encoding_decodeMap enc c) = c"
proof -
  show len: "length alphabet = 62" and "Encoding_encode enc = alphabet"
    using assms by (auto simp: NewEncoding_def base_def split: if_splits)
  have m: "Encoding_decodeMap enc = fill_table alphabet (length alphabet) (\<lambda>_. 0xFF)"
    using assms by (auto simp: NewEncoding_def split: if_splits)
  show "c \<notin> set alphabet \<Longrightarrow> Encoding_decodeMap enc c = 0xFF"
    unfolding m using table_outside [of "length alphabet" alphabet c] by simp
  assume "c \<in> set alphabet"
  then obtain j where "j < 62" "alphabet ! j = c" "Encoding_decodeMap enc c = of_nat j"
    unfolding m using table_inside [of "length alphabet" alphabet c] len by auto
  then show "unat (Encoding_decodeMap enc c) < 62 \<and> alphabet ! unat (Encoding_decodeMap enc c) = c"
    by (simp add: unat_of_nat take_bit_nat_eq_self)
qed

lemma decode_digit:
  assumes "NewEncoding alphabet = Inr enc" and "distinct alphabet" and "d < 62"
  shows "unat (Encoding_decodeMap enc (alphabet ! d)) = d"
proof -
  note t = NewEncoding_table [OF assms(1)]
  have "alphabet ! d \<in> set alphabet" using assms(3) t(2) by simp
  from t(4) [OF this] show ?thesis
    using nth_eq_iff_index_eq [OF assms(2), of "unat (Encoding_decodeMap enc (alphabet ! d))" d] t(2) assms(3)
    by simp
qed

section \<open>Integers\<close>

lemma uint_digits_ok:
  assumes "length table = 62"
  shows "unat num < 62 ^ n \<Longrightarrow> \<exists>ds. uint_digits table num (int n) buf = Inr (map ((!) table) ds @ buf) \<and>
    (\<forall>d \<in> set ds. d < 62) \<and> foldl (\<lambda>a d. a * 62 + d) 0 ds = unat num"
proof (induction n arbitrary: num buf)
  case 0
  then have "num = 0" by (simp add: unat_eq_zero)
  then show ?case by (simp add: uint_digits.simps exI [of _ "[]"])
next
  case (Suc n)
  show ?case
  proof (cases "num = 0")
    case True
    then show ?thesis by (simp add: uint_digits.simps exI [of _ "[]"])
  next
    case False
    let ?d = "unat num mod 62"
    have u: "unat (num mod 62) = ?d" "unat (num div 62) = unat num div 62" by (simp_all add: unat_mod unat_div)
    then have "unat (num div 62) < 62 ^ n" using Suc.prems by (simp add: less_mult_imp_div_less)
    from Suc.IH [OF this, of "table ! ?d # buf"] obtain ds where
      ds: "uint_digits table (num div 62) (int n) (table ! ?d # buf) = Inr (map ((!) table) ds @ table ! ?d # buf)"
      "\<forall>d \<in> set ds. d < 62" "foldl (\<lambda>a d. a * 62 + d) 0 ds = unat num div 62"
      using u by auto
    have "uint_digits table num (int (Suc n)) buf = uint_digits table (num div 62) (int n) (table ! ?d # buf)"
      using False assms u by (subst uint_digits.simps) (simp add: word_neq_0_conv)
    then show ?thesis using ds by (intro exI [of _ "ds @ [?d]"]) auto
  qed
qed

lemma parse_digits_ok:
  assumes "\<forall>c \<in> set cs. unat (table c) < 62"
  shows "parse_digits table i cs num = Inr (foldl (\<lambda>a c. a * 62 + ucast (table c)) num cs)"
  using assms
proof (induction cs arbitrary: i num)
  case (Cons c cs)
  then have "table c \<noteq> 0xFF" by auto
  with Cons show ?case by (simp add: Let_def)
qed simp

lemma of_nat_foldl:
  "of_nat (foldl (\<lambda>a d. a * 62 + d) a ds) = (foldl (\<lambda>a d. a * 62 + of_nat d) (of_nat a) ds :: uint64)"
  by (induction ds arbitrary: a) simp_all

lemma ParseUint_digits:
  assumes "NewEncoding alphabet = Inr enc" and "distinct alphabet" and "\<forall>d \<in> set ds. d < 62"
  shows "ParseUint enc (map ((!) alphabet) ds) = Inr (of_nat (foldl (\<lambda>a d. a * 62 + d) 0 ds))"
proof -
  have u: "unat (Encoding_decodeMap enc (alphabet ! d)) = d" if "d \<in> set ds" for d
    using decode_digit [OF assms(1,2)] assms(3) that by blast
  then have v: "(ucast (Encoding_decodeMap enc (alphabet ! d)) :: uint64) = of_nat d" if "d \<in> set ds" for d
    using that by (metis of_nat_unat)
  have "ParseUint enc (map ((!) alphabet) ds) =
      Inr (foldl (\<lambda>a d. a * 62 + ucast (Encoding_decodeMap enc (alphabet ! d))) 0 ds)"
    unfolding ParseUint_def using u assms(3) by (subst parse_digits_ok) (auto simp: foldl_map)
  also have "foldl (\<lambda>a d. a * 62 + ucast (Encoding_decodeMap enc (alphabet ! d))) 0 ds =
      (foldl (\<lambda>a d. a * 62 + of_nat d) 0 ds :: uint64)"
    using v by (intro foldl_cong) auto
  finally show ?thesis by (simp add: of_nat_foldl)
qed

section \<open>Theorems\<close>

text \<open>
  C14. Decoding what was encoded gives the bytes back, for every byte string and every alphabet of 62
  distinct symbols: leading zero bytes and the five-bit digits included.
\<close>

theorem Decode_Encode:
  assumes "NewEncoding alphabet = Inr enc" and "distinct alphabet"
  shows "\<exists>out. Encode enc src = Inr out \<and> set out \<subseteq> set alphabet \<and> Decode enc out = Inr src"
proof (cases "src = []")
  case True
  then show ?thesis by (simp add: Encode_def Decode_def)
next
  case False
  define ds where "ds = digits (8 * length src) (big src)"
  have "big src < 2 ^ (8 * length src)" using big_less [of src] by (simp add: power_mult)
  then have ds: "ds \<noteq> []" "digits_value ds = big src" "digits_bits ds \<le> 8 * length src" "8 * length src \<le> digits_bits ds + 6"
    using digits_roundtrip [of "8 * length src" "big src"] False by (auto simp: ds_def)
  have less: "\<forall>d \<in> set ds. d < 62" unfolding ds_def using digit_less by blast
  note t = NewEncoding_table [OF assms(1)]
  have "Encode enc src = Inr (map ((!) alphabet) ds)"
    using encoder_digits [OF t(2), of "8 * length src" src "[]"] False
    by (simp add: Encode_def newEncoder_def ds_def t(1) mult.commute)
  moreover have "map (\<lambda>c. unat (Encoding_decodeMap enc c)) (map ((!) alphabet) ds) = ds"
    using less decode_digit [OF assms] by (auto intro: map_idI)
  moreover have "set (map ((!) alphabet) ds) \<subseteq> set alphabet" using less t(2) by auto
  moreover have "(digits_bits ds + 7) div 8 = length src" using ds(3,4) by linarith
  ultimately show ?thesis
    using Decode_ok [of "map ((!) alphabet) ds" enc] t(4) ds(2) by (auto simp: Let_def)
qed

lemma StdEncoding_ok: "\<exists>enc. NewEncoding encodeStd = Inr enc" "distinct encodeStd"
proof -
  have "length encodeStd = base" "10 \<notin> set encodeStd" "13 \<notin> set encodeStd"
    by code_simp+
  then show "\<exists>enc. NewEncoding encodeStd = Inr enc" by (simp add: NewEncoding_def)
  show "distinct encodeStd" by code_simp
qed

theorem Decode_Encode_witness:
  "\<exists>enc out. NewEncoding encodeStd = Inr enc \<and> Encode enc [0, 0, 255] = Inr out \<and>
    Decode enc out = Inr [0, 0, 255]"
  using Decode_Encode [OF _ StdEncoding_ok(2), of _ "[0, 0, 255]"] StdEncoding_ok(1) by blast

text \<open>
  Decoding is total and never leaves its buffer: an input over the alphabet is decoded, and an
  input with a foreign byte is refused with the position of the first one.
\<close>

theorem Decode_outcome:
  assumes "NewEncoding alphabet = Inr enc"
  shows "case find (\<lambda>i. src ! i \<notin> set alphabet) [0..<length src] of
      None \<Rightarrow> \<exists>out. Decode enc src = Inr out \<and> 8 * length out \<le> 6 * length src + 7
    | Some i \<Rightarrow> Decode enc src = Inl (CorruptInputError i)"
proof (cases "find (\<lambda>i. src ! i \<notin> set alphabet) [0..<length src]")
  case None
  then have "\<forall>i < length src. src ! i \<in> set alphabet" by (auto simp: find_None_iff)
  then have all: "\<forall>c \<in> set src. unat (Encoding_decodeMap enc c) < 62"
    using NewEncoding_table(4) [OF assms] by (auto simp: in_set_conv_nth)
  let ?ds = "map (\<lambda>c. unat (Encoding_decodeMap enc c)) src"
  have "digits_bits ?ds \<le> 6 * length src" using digits_bits_le [of ?ds] all by simp
  then show ?thesis using None Decode_ok [OF all] by (simp add: Let_def)
next
  case (Some i)
  then have i: "i < length src" "src ! i \<notin> set alphabet" "\<forall>j < i. src ! j \<in> set alphabet"
    by (auto simp: find_Some_iff)
  have "\<forall>c \<in> set (take i src). unat (Encoding_decodeMap enc c) < 62"
    using i NewEncoding_table(4) [OF assms] by (auto simp: in_set_conv_nth)
  from Decode_corrupt [OF this NewEncoding_table(3) [OF assms i(2)], of "drop (Suc i) src"]
  show ?thesis using Some i(1) by (simp add: id_take_nth_drop [symmetric])
qed

theorem Decode_outcome_witness:
  "\<exists>enc. NewEncoding encodeStd = Inr enc \<and> Decode enc (bytes_of ''A-'') = Inl (CorruptInputError 1)"
proof -
  obtain enc where enc: "NewEncoding encodeStd = Inr enc" using StdEncoding_ok(1) by blast
  have "find (\<lambda>i. bytes_of ''A-'' ! i \<notin> set encodeStd) [0..<length (bytes_of ''A-'')] = Some 1"
    by code_simp
  with Decode_outcome [OF enc, of "bytes_of ''A-''"] enc show ?thesis by simp
qed

text \<open>
  Integers: formatting never overruns its eleven-byte buffer, and parsing the text gives the number
  back, for every unsigned 64-bit number.
\<close>

theorem ParseUint_FormatUint:
  assumes "NewEncoding alphabet = Inr enc" and "distinct alphabet"
  shows "\<exists>text. FormatUint enc num = Inr text \<and> ParseUint enc text = Inr num"
proof (cases "num = 0")
  case True
  have "FormatUint enc num = Inr (map ((!) alphabet) [0])"
    using True NewEncoding_table(1,2) [OF assms(1)] by (simp add: FormatUint_def AppendUint_def)
  then show ?thesis using ParseUint_digits [OF assms, of "[0]"] True by auto
next
  case False
  have "unat num < 62 ^ 11" using unsigned_less [where 'a = nat, of num] by simp
  from uint_digits_ok [OF NewEncoding_table(2) [OF assms(1)] this, of "[]"] obtain ds where
    "uint_digits alphabet num 11 [] = Inr (map ((!) alphabet) ds)" "\<forall>d \<in> set ds. d < 62"
    "foldl (\<lambda>a d. a * 62 + d) 0 ds = unat num" by auto
  then show ?thesis
    using False ParseUint_digits [OF assms, of ds] NewEncoding_table(1) [OF assms(1)]
    by (auto simp: FormatUint_def AppendUint_def)
qed

theorem ParseUint_FormatUint_witness:
  "\<exists>enc text. NewEncoding encodeStd = Inr enc \<and> FormatUint enc (- 1) = Inr text \<and> ParseUint enc text = Inr (- 1)"
  using ParseUint_FormatUint [OF _ StdEncoding_ok(2), of _ "- 1"] StdEncoding_ok(1) by blast

end
