(* ===== verification/Repo_Filters.thy ===== *)
theory Repo_Filters
  imports Go_Base "HOL-Library.List_Lexorder"
begin

text \<open>
  What the repositories share: the sorting and pagination parameters of \<open>internal/filters\<close>, and
  the hash indexes that the in-memory repositories keep next to their tables.  The repositories
  repeat this code for each entity; the definitions here are used by each of them.
\<close>

section \<open>Sorting\<close>

datatype SortDirection = SortDirectionAsc | SortDirectionDesc

record Sorting =
  Sorting_Field :: string
  Sorting_Direction :: SortDirection

definition SortDirection_String :: "SortDirection \<Rightarrow> string" where
  "SortDirection_String sd = (case sd of SortDirectionAsc \<Rightarrow> ''asc'' | SortDirectionDesc \<Rightarrow> ''desc'')"

definition Sorting_String :: "Sorting \<Rightarrow> string" where
  "Sorting_String p = Sorting_Field p @ '' '' @ SortDirection_String (Sorting_Direction p)"

text \<open>
  \<open>strings.TrimSpace\<close> over the UTF-8 bytes of a string: the encodings of the code points with the
  Unicode property \<open>White_Space\<close>.
\<close>

definition unicode_spaces :: "string list" where
  "unicode_spaces =
     [[CHR 0x09], [CHR 0x0A], [CHR 0x0B], [CHR 0x0C], [CHR 0x0D], [CHR 0x20],
      [CHR 0xC2, CHR 0x85], [CHR 0xC2, CHR 0xA0], [CHR 0xE1, CHR 0x9A, CHR 0x80]] @
     map (\<lambda>c. [CHR 0xE2, CHR 0x80, c])
       [CHR 0x80, CHR 0x81, CHR 0x82, CHR 0x83, CHR 0x84, CHR 0x85, CHR 0x86, CHR 0x87, CHR 0x88,
        CHR 0x89, CHR 0x8A, CHR 0xA8, CHR 0xA9, CHR 0xAF] @
     [[CHR 0xE2, CHR 0x81, CHR 0x9F], [CHR 0xE3, CHR 0x80, CHR 0x80]]"

function trim_left_of :: "string list \<Rightarrow> string \<Rightarrow> string" where
  "trim_left_of pats s =
     (case List.find (\<lambda>p. p \<noteq> [] \<and> prefix p s) pats of
        None \<Rightarrow> s
      | Some p \<Rightarrow> trim_left_of pats (drop (length p) s))"
  by pat_completeness auto
termination
  by (relation "measure (length \<circ> snd)")
    (auto simp: find_Some_iff prefix_def)

declare trim_left_of.simps [simp del]

definition TrimSpace :: "string \<Rightarrow> string" where
  "TrimSpace s =
     rev (trim_left_of (map rev unicode_spaces) (rev (trim_left_of unicode_spaces s)))"

definition ErrInvalidSortField :: error where
  "ErrInvalidSortField = Errorf ''invalid sort field''"

text \<open>The \<open>allowed\<close> argument is only looked up.\<close>

definition ParseUserSort :: "string \<Rightarrow> (string \<rightharpoonup> string) \<Rightarrow> Sorting option result" where
  "ParseUserSort raw0 allowed =
     (let raw = TrimSpace raw0
      in if raw = '''' then Inr None
         else let (direction, field) =
                (if prefix ''-'' raw then (SortDirectionDesc, drop 1 raw) else (SortDirectionAsc, raw))
              in case allowed field of
                   None \<Rightarrow> Inl (WithMessage ErrInvalidSortField (''sort field '' @ field @ '' is not allowed''))
                 | Some column \<Rightarrow>
                     if column = '''' then
                       Inl (WithMessage ErrInvalidSortField (''sort field '' @ field @ '' is not allowed''))
                     else Inr (Some \<lparr>Sorting_Field = column, Sorting_Direction = direction\<rparr>))"

text \<open>
  \<open>sort.Slice\<close> by a list of sortings and a three-way comparison by field: the comparison functions
  of the repositories are all of this form.
\<close>

fun sorting_less :: "('a \<Rightarrow> 'a \<Rightarrow> string \<Rightarrow> int) \<Rightarrow> Sorting list \<Rightarrow> 'a \<Rightarrow> 'a \<Rightarrow> bool" where
  "sorting_less cmp [] a b = False"
| "sorting_less cmp (s # order) a b =
     (let c = cmp a b (Sorting_Field s)
      in if c \<noteq> 0 then
           (if Sorting_Direction s = SortDirectionDesc then c > 0 else c < 0)
         else sorting_less cmp order a b)"

definition cmp_Compare :: "'a::linorder \<Rightarrow> 'a \<Rightarrow> int" where
  "cmp_Compare a b = (if a < b then - 1 else if b < a then 1 else 0)"

text \<open>Comparison of nullable values, \<open>nil\<close> first.\<close>

definition compare_option :: "('a \<Rightarrow> 'a \<Rightarrow> int) \<Rightarrow> 'a option \<Rightarrow> 'a option \<Rightarrow> int" where
  "compare_option cmp a b =
     (case (a, b) of
        (None, None) \<Rightarrow> 0
      | (None, Some _) \<Rightarrow> - 1
      | (Some _, None) \<Rightarrow> 1
      | (Some x, Some y) \<Rightarrow> cmp x y)"

text \<open>\<open>strings.Compare\<close>: lexicographic on bytes.\<close>

fun strings_Compare :: "string \<Rightarrow> string \<Rightarrow> int" where
  "strings_Compare [] [] = 0"
| "strings_Compare [] (y # ys) = - 1"
| "strings_Compare (x # xs) [] = 1"
| "strings_Compare (x # xs) (y # ys) =
     (if (of_char x :: nat) < of_char y then - 1
      else if (of_char y :: nat) < of_char x then 1
      else strings_Compare xs ys)"

section \<open>Pagination\<close>

definition DefaultLimit :: uint64 where "DefaultLimit = 20"
definition DefaultOffset :: uint64 where "DefaultOffset = 0"

record Pagination =
  Pagination_Limit :: uint64
  Pagination_Offset :: uint64

definition applyPagination :: "Pagination option \<Rightarrow> 'a list \<Rightarrow> 'a list result" where
  "applyPagination pagination xs =
     (case pagination of
        None \<Rightarrow> Inr xs
      | Some p \<Rightarrow>
          let limit = (if Pagination_Limit p = 0 then DefaultLimit else Pagination_Limit p);
              offset = Pagination_Offset p;
              len = (of_nat (length xs) :: uint64)
          in if offset \<ge> len then Inr []
             else slice xs (unat offset) (unat (min (offset + limit) len)))"

section \<open>Hash indexes\<close>

type_synonym 'k index = "('k \<times> uint set) list"

definition index_get :: "'k index \<Rightarrow> 'k \<Rightarrow> uint set" where
  "index_get idx k = (case map_of idx k of None \<Rightarrow> {} | Some S \<Rightarrow> S)"

definition index_add :: "'k option \<Rightarrow> uint \<Rightarrow> 'k index \<Rightarrow> 'k index" where
  "index_add ko i idx =
     (case ko of None \<Rightarrow> idx | Some k \<Rightarrow> AList.update k (insert i (index_get idx k)) idx)"

definition index_remove :: "'k option \<Rightarrow> uint \<Rightarrow> 'k index \<Rightarrow> 'k index" where
  "index_remove ko i idx =
     (case ko of
        None \<Rightarrow> idx
      | Some k \<Rightarrow>
          (case map_of idx k of
             None \<Rightarrow> idx
           | Some S \<Rightarrow>
               if S - {i} = {} then AList.delete k idx else AList.update k (S - {i}) idx))"

definition index_union :: "'k index \<Rightarrow> 'k list \<Rightarrow> uint set" where
  "index_union idx ks = \<Union> (set (map (index_get idx) ks))"

definition index_intersect :: "'k index \<Rightarrow> 'k list \<Rightarrow> uint set \<Rightarrow> uint set" where
  "index_intersect idx ks result = \<Union> (set (map (\<lambda>k. index_get idx k \<inter> result) ks))"

section \<open>Facts about sorting\<close>

text \<open>What a three-way comparison has to satisfy for \<open>sort.Slice\<close> to sort by it.\<close>

definition consistent :: "('a \<Rightarrow> 'a \<Rightarrow> int) \<Rightarrow> bool" where
  "consistent c \<longleftrightarrow> (\<forall>a b. c a b < 0 \<longleftrightarrow> c b a > 0) \<and>
     (\<forall>a b d. c a b \<le> 0 \<longrightarrow> c b d \<le> 0 \<longrightarrow> c a d \<le> 0)"

named_theorems consistents

lemma consistentI:
  assumes "\<And>a b. c a b < 0 \<longleftrightarrow> c b a > 0" and "\<And>a b d. c a b \<le> 0 \<Longrightarrow> c b d \<le> 0 \<Longrightarrow> c a d \<le> 0"
  shows "consistent c"
  unfolding consistent_def using assms by blast

lemma consistentD:
  assumes "consistent c"
  shows "c a b < 0 \<longleftrightarrow> c b a > 0" and "c a b \<le> 0 \<Longrightarrow> c b d \<le> 0 \<Longrightarrow> c a d \<le> 0"
    and "c a b = 0 \<longleftrightarrow> c b a = 0" and "c a a = 0"
proof -
  show flip: "c a b < 0 \<longleftrightarrow> c b a > 0" for a b using assms by (simp add: consistent_def)
  show "c a b \<le> 0 \<Longrightarrow> c b d \<le> 0 \<Longrightarrow> c a d \<le> 0" using assms unfolding consistent_def by blast
  show "c a b = 0 \<longleftrightarrow> c b a = 0" using flip [of a b] flip [of b a] by linarith
  show "c a a = 0" using flip [of a a] by linarith
qed

lemma consistent_const [consistents]: "consistent (\<lambda>a b. 0)"
  by (simp add: consistent_def)

lemma consistent_cmp [consistents]: "consistent (\<lambda>a b. cmp_Compare (f a) (f b))"
  by (rule consistentI) (auto simp: cmp_Compare_def split: if_splits)

lemma consistent_option [consistents]:
  assumes "consistent c"
  shows "consistent (\<lambda>a b. compare_option c (f a) (f b))"
proof (rule consistentI)
  show "compare_option c (f a) (f b) < 0 \<longleftrightarrow> compare_option c (f b) (f a) > 0" for a b
    using consistentD(1) [OF assms] by (auto simp: compare_option_def split: option.splits)
  show "compare_option c (f a) (f b) \<le> 0 \<Longrightarrow> compare_option c (f b) (f d) \<le> 0 \<Longrightarrow>
      compare_option c (f a) (f d) \<le> 0" for a b d
    using consistentD(2) [OF assms] by (cases "f a"; cases "f b"; cases "f d") (simp_all add: compare_option_def)
qed

lemma strings_Compare_lex:
  "strings_Compare s t = cmp_Compare (map of_char s :: nat list) (map of_char t)"
  by (induction s t rule: strings_Compare.induct) (auto simp: cmp_Compare_def)

lemma consistent_strings [consistents]: "consistent (\<lambda>a b. strings_Compare (f a) (f b))"
  unfolding strings_Compare_lex by (rule consistent_cmp)

lemma consistent_weak_order:
  assumes "consistent c"
  shows "weak_order (\<lambda>a b. c a b < 0)"
  unfolding weak_order_def
proof (intro conjI allI impI)
  note D = consistentD [OF assms]
  show "\<not> c x x < 0" for x using D(4) [of x] by simp
  show neg: "c x y < 0 \<or> c y z < 0" if "c x z < 0" for x y z
    using that D(2) [of z y x] D(1) [of x z] D(1) [of x y] D(1) [of y z] by linarith
  show "c x z < 0" if "c x y < 0" "c y z < 0" for x y z
    using that D(2) [of z x y] D(1) [of x y] D(1) [of y z] D(1) [of x z] neg [of x z y] neg [of y z x]
    by linarith
qed

lemma weak_order_lex:
  assumes "weak_order lc" and "weak_order lt"
  shows "weak_order (\<lambda>a b. lc a b \<or> (\<not> lc b a \<and> lt a b))"
proof -
  have c: "\<not> lc x x" "lc x y \<Longrightarrow> lc y z \<Longrightarrow> lc x z" "lc x z \<Longrightarrow> lc x y \<or> lc y z" for x y z
    using assms(1) unfolding weak_order_def by blast+
  have t: "\<not> lt x x" "lt x y \<Longrightarrow> lt y z \<Longrightarrow> lt x z" "lt x z \<Longrightarrow> lt x y \<or> lt y z" for x y z
    using assms(2) unfolding weak_order_def by blast+
  show ?thesis
    unfolding weak_order_def
  proof (intro conjI allI impI)
    show "\<not> (lc x x \<or> (\<not> lc x x \<and> lt x x))" for x using c(1) t(1) by blast
    show "lc x z \<or> (\<not> lc z x \<and> lt x z)"
      if "lc x y \<or> (\<not> lc y x \<and> lt x y)" "lc y z \<or> (\<not> lc z y \<and> lt y z)" for x y z
      using that c(2,3) t(2) by blast
    show "(lc x y \<or> (\<not> lc y x \<and> lt x y)) \<or> (lc y z \<or> (\<not> lc z y \<and> lt y z))"
      if "lc x z \<or> (\<not> lc z x \<and> lt x z)" for x y z
      using that c(3) t(3) by blast
  qed
qed

lemma lex_weak_order:
  assumes "consistent c" and "weak_order lt"
  shows "weak_order (\<lambda>a b. if c a b \<noteq> 0 then c a b < 0 else lt a b)"
proof -
  have "(if c a b \<noteq> 0 then c a b < 0 else lt a b) = (c a b < 0 \<or> (\<not> c b a < 0 \<and> lt a b))" for a b
    using consistentD(1) [OF assms(1), of b a] by auto
  then show ?thesis
    using weak_order_lex [OF consistent_weak_order [OF assms(1)] assms(2)] by simp
qed

lemma consistent_flip: "consistent c \<Longrightarrow> consistent (\<lambda>a b. c b a)"
  unfolding consistent_def by blast

lemma sorting_weak_order:
  assumes "\<And>field. consistent (\<lambda>a b. cmp a b field)"
  shows "weak_order (sorting_less cmp order)"
proof (induction order)
  case Nil
  then show ?case by (simp add: weak_order_def)
next
  case (Cons s order)
  let ?c = "\<lambda>a b. cmp a b (Sorting_Field s)"
  show ?case
  proof (cases "Sorting_Direction s")
    case SortDirectionAsc
    then have "sorting_less cmp (s # order) =
        (\<lambda>a b. if ?c a b \<noteq> 0 then ?c a b < 0 else sorting_less cmp order a b)"
      by (simp add: fun_eq_iff Let_def)
    then show ?thesis using lex_weak_order [OF assms Cons.IH] by simp
  next
    case SortDirectionDesc
    then have "sorting_less cmp (s # order) =
        (\<lambda>a b. if ?c b a \<noteq> 0 then ?c b a < 0 else sorting_less cmp order a b)"
      using consistentD(1,3) [OF assms] by (auto simp: fun_eq_iff Let_def)
    then show ?thesis using lex_weak_order [OF consistent_flip [OF assms] Cons.IH] by simp
  qed
qed

section \<open>Facts about pagination\<close>

definition page_limit :: "Pagination \<Rightarrow> nat" where
  "page_limit p = (if Pagination_Limit p = 0 then 20 else unat (Pagination_Limit p))"

lemma applyPagination_page:
  assumes "length xs < 2 ^ 64" and "unat (Pagination_Offset p) + page_limit p < 2 ^ 64"
  shows "applyPagination (Some p) xs = Inr (take (page_limit p) (drop (unat (Pagination_Offset p)) xs))"
proof -
  let ?limit = "if Pagination_Limit p = 0 then DefaultLimit else Pagination_Limit p"
  let ?o = "Pagination_Offset p" and ?len = "of_nat (length xs) :: uint64"
  have l: "unat ?limit = page_limit p" by (simp add: page_limit_def DefaultLimit_def)
  have len: "unat ?len = length xs" using assms(1) by (simp add: unat_of_nat take_bit_nat_eq_self)
  have sum: "unat (?o + ?limit) = unat ?o + page_limit p"
    using assms(2) l by (simp add: unat_add_lem [THEN iffD1])
  have ge: "?len \<le> ?o \<longleftrightarrow> length xs \<le> unat ?o" by (simp add: word_le_nat_alt len)
  have hi: "unat (min (?o + ?limit) ?len) = min (unat ?o + page_limit p) (length xs)"
    by (simp add: min_def word_le_nat_alt sum len)
  show ?thesis
  proof (cases "length xs \<le> unat ?o")
    case True
    then show ?thesis by (simp add: applyPagination_def Let_def ge)
  next
    case False
    have "slice xs (unat ?o) (min (unat ?o + page_limit p) (length xs)) =
        Inr (take (page_limit p) (drop (unat ?o) xs))"
      using False by (auto simp: slice_def min_def)
    then show ?thesis using False hi by (simp add: applyPagination_def Let_def ge)
  qed
qed

lemma applyPagination_None [simp]: "applyPagination None xs = Inr xs"
  by (simp add: applyPagination_def)

lemma applyPagination_one:
  "length xs < 2 ^ 64 \<Longrightarrow>
    applyPagination (Some \<lparr>Pagination_Limit = 1, Pagination_Offset = 0\<rparr>) xs = Inr (take 1 xs)"
  by (subst applyPagination_page) (simp_all add: page_limit_def)

section \<open>Facts about indexes\<close>

text \<open>
  An index is exact when each bucket holds the identifiers of the rows with that key; \<open>key v = None\<close>
  marks a row that the index leaves out.
\<close>

definition index_ok :: "('v \<Rightarrow> 'k option) \<Rightarrow> (uint \<rightharpoonup> 'v) \<Rightarrow> 'k index \<Rightarrow> bool" where
  "index_ok key tbl idx \<longleftrightarrow>
     (\<forall>k. index_get idx k = {i. \<exists>v. tbl i = Some v \<and> key v = Some k})"

lemma index_ok_Nil [simp]: "index_ok key Map.empty []"
  by (simp add: index_ok_def index_get_def)

lemma index_get_add:
  "index_get (index_add ko i idx) k = (if ko = Some k then insert i (index_get idx k) else index_get idx k)"
  by (auto simp: index_add_def index_get_def split: option.splits)

lemma index_get_remove:
  "index_get (index_remove ko i idx) k = (if ko = Some k then index_get idx k - {i} else index_get idx k)"
  by (auto simp: index_remove_def index_get_def split: option.splits if_splits)

lemma index_ok_remove:
  assumes "index_ok key tbl idx" and "tbl i = Some v" and "ko = key v"
  shows "index_ok key (tbl(i := None)) (index_remove ko i idx)"
  using assms unfolding index_ok_def index_get_remove by (auto split: if_splits)

lemma index_ok_add:
  assumes "index_ok key (tbl(i := None)) idx" and "ko = key v"
  shows "index_ok key (tbl(i \<mapsto> v)) (index_add ko i idx)"
  using assms unfolding index_ok_def index_get_add by (auto split: if_splits)

text \<open>An update that leaves the keys alone leaves the index exact.\<close>

lemma index_ok_same_key:
  assumes "index_ok key tbl idx" and "tbl i = Some v" and "key w = key v"
  shows "index_ok key (tbl(i \<mapsto> w)) idx"
  using assms unfolding index_ok_def by (auto split: if_splits)

text \<open>The identifiers of the rows that satisfy a predicate, and how filters compose on them.\<close>

definition select :: "(uint \<rightharpoonup> 'v) \<Rightarrow> ('v \<Rightarrow> bool) \<Rightarrow> uint set" where
  "select tbl P = {i. \<exists>v. tbl i = Some v \<and> P v}"

lemma index_ok_union:
  "index_ok key tbl idx \<Longrightarrow> index_union idx ks = select tbl (\<lambda>v. key v \<in> Some ` set ks)"
  by (auto simp: index_ok_def index_union_def select_def)

lemma index_ok_intersect:
  "index_ok key tbl idx \<Longrightarrow>
    index_intersect idx ks (select tbl P) = select tbl (\<lambda>v. P v \<and> key v \<in> Some ` set ks)"
  by (auto simp: index_ok_def index_intersect_def select_def)

lemma select_keys: "set (keys m) = select (map_of m) (\<lambda>_. True)"
  by (simp add: select_def dom_map_of_conv_image_fst [symmetric] dom_def)

lemma select_ids:
  assumes "\<And>i v. tbl i = Some v \<Longrightarrow> key v = i"
  shows "{i \<in> set ids. i \<in> select tbl (\<lambda>_. True)} = select tbl (\<lambda>v. key v \<in> set ids)"
  using assms by (auto simp: select_def)

lemma Some_image_iff: "Some x \<in> Some ` S \<longleftrightarrow> x \<in> S"
  by auto

lemma index_intersect_Int: "index_intersect idx ks S = S \<inter> index_union idx ks"
  by (auto simp: index_intersect_def index_union_def)

section \<open>Theorems\<close>

text \<open>
  An untrusted sort parameter never reaches the \<open>ORDER BY\<close> clause: whatever text it is, the clause
  that is built from the parsed value is a non-empty column of the caller's allow-list followed by a
  direction.
\<close>

theorem ParseUserSort_allow_listed:
  assumes "ParseUserSort raw allowed = Inr (Some srt)"
  shows "\<exists>field column. allowed field = Some column \<and> column \<noteq> [] \<and>
    (TrimSpace raw = field \<and> Sorting_String srt = column @ '' asc'' \<or>
     TrimSpace raw = ''-'' @ field \<and> Sorting_String srt = column @ '' desc'')"
proof (cases "prefix ''-'' (TrimSpace raw)")
  case True
  then obtain field where "TrimSpace raw = ''-'' @ field" by (auto simp: prefix_def)
  with assms show ?thesis
    by (auto simp: ParseUserSort_def Let_def Sorting_String_def SortDirection_String_def
        split: option.splits if_splits)
next
  case False
  with assms show ?thesis
    by (auto simp: ParseUserSort_def Let_def Sorting_String_def SortDirection_String_def
        split: option.splits if_splits)
qed

theorem ParseUserSort_allow_listed_witness:
  "\<exists>srt. ParseUserSort ''-name'' [''name'' \<mapsto> ''servers.name''] = Inr (Some srt) \<and>
    Sorting_String srt = ''servers.name desc''"
proof -
  let ?s = "\<lparr>Sorting_Field = ''servers.name'', Sorting_Direction = SortDirectionDesc\<rparr>"
  have t: "TrimSpace ''-name'' = ''-name''" by code_simp
  then have run: "ParseUserSort ''-name'' [''name'' \<mapsto> ''servers.name''] = Inr (Some ?s)"
    by (simp add: ParseUserSort_def)
  from ParseUserSort_allow_listed [OF run] t have "Sorting_String ?s = ''servers.name desc''"
    by (auto split: if_splits)
  with run show ?thesis by blast
qed

end
