(* ===== verification/DaemonTask_Repository.thy ===== *)
theory DaemonTask_Repository
  imports Repo_Filters
begin

text \<open>
  Daemon tasks (\<open>internal/domain/gdaemon_task.go\<close>), the filter of
  \<open>internal/filters/daemon_tasks.go\<close> and the in-memory repository
  \<open>internal/repositories/inmemory/daemon_tasks.go\<close> with its four hash indexes.

  The interface \<open>repositories.DaemonTaskRepository\<close> is the record \<open>TaskRepo\<close>; the contract its clients
  rely on is the locale \<open>daemon_task_repository\<close>, interpreted by the in-memory repository.
\<close>

section \<open>Tasks and filters\<close>

type_synonym DaemonTaskStatus = string
type_synonym DaemonTaskType = string

definition DaemonTaskStatusWaiting :: DaemonTaskStatus where "DaemonTaskStatusWaiting = ''waiting''"
definition DaemonTaskStatusWorking :: DaemonTaskStatus where "DaemonTaskStatusWorking = ''working''"
definition DaemonTaskStatusError :: DaemonTaskStatus where "DaemonTaskStatusError = ''error''"
definition DaemonTaskStatusSuccess :: DaemonTaskStatus where "DaemonTaskStatusSuccess = ''success''"
definition DaemonTaskStatusCanceled :: DaemonTaskStatus where "DaemonTaskStatusCanceled = ''canceled''"

lemmas status_defs = DaemonTaskStatusWaiting_def DaemonTaskStatusWorking_def DaemonTaskStatusError_def
  DaemonTaskStatusSuccess_def DaemonTaskStatusCanceled_def

definition DaemonTaskTypeServerStart :: DaemonTaskType where "DaemonTaskTypeServerStart = ''gsstart''"
definition DaemonTaskTypeServerStop :: DaemonTaskType where "DaemonTaskTypeServerStop = ''gsstop''"
definition DaemonTaskTypeServerRestart :: DaemonTaskType where "DaemonTaskTypeServerRestart = ''gsrest''"
definition DaemonTaskTypeServerUpdate :: DaemonTaskType where "DaemonTaskTypeServerUpdate = ''gsupd''"
definition DaemonTaskTypeServerInstall :: DaemonTaskType where "DaemonTaskTypeServerInstall = ''gsinst''"
definition DaemonTaskTypeServerDelete :: DaemonTaskType where "DaemonTaskTypeServerDelete = ''gsdel''"
definition DaemonTaskTypeServerMove :: DaemonTaskType where "DaemonTaskTypeServerMove = ''gsmove''"
definition DaemonTaskTypeCmdExec :: DaemonTaskType where "DaemonTaskTypeCmdExec = ''cmdexec''"

lemmas task_type_defs = DaemonTaskTypeServerStart_def DaemonTaskTypeServerStop_def
  DaemonTaskTypeServerRestart_def DaemonTaskTypeServerUpdate_def DaemonTaskTypeServerInstall_def
  DaemonTaskTypeServerDelete_def DaemonTaskTypeServerMove_def DaemonTaskTypeCmdExec_def

record DaemonTask =
  DaemonTask_ID :: uint
  DaemonTask_RunAftID :: "uint option"
  DaemonTask_CreatedAt :: "time option"
  DaemonTask_UpdatedAt :: "time option"
  DaemonTask_DedicatedServerID :: uint
  DaemonTask_ServerID :: "uint option"
  DaemonTask_Task :: DaemonTaskType
  DaemonTask_Data :: "string option"
  DaemonTask_Cmd :: "string option"
  DaemonTask_Output :: "string option"
  DaemonTask_Status :: DaemonTaskStatus

record FindDaemonTask =
  fdt_IDs :: "uint list"
  fdt_DedicatedServerIDs :: "uint list"
  fdt_ServerIDs :: "uint option list"
  fdt_Tasks :: "DaemonTaskType list"
  fdt_Statuses :: "DaemonTaskStatus list"

definition no_task_filter :: FindDaemonTask where
  "no_task_filter = \<lparr>fdt_IDs = [], fdt_DedicatedServerIDs = [], fdt_ServerIDs = [], fdt_Tasks = [],
     fdt_Statuses = []\<rparr>"

definition FindDaemonTaskByIDs :: "uint list \<Rightarrow> FindDaemonTask" where
  "FindDaemonTaskByIDs ids = no_task_filter\<lparr>fdt_IDs := ids\<rparr>"

section \<open>The in-memory repository\<close>

record DaemonTaskRepository =
  dt_tasks :: "(uint \<times> DaemonTask) list"
  dt_nextID :: uint32
  dt_dedicatedServerIDIndex :: "uint index"
  dt_serverIDIndex :: "uint index"
  dt_taskTypeIndex :: "DaemonTaskType index"
  dt_statusIndex :: "DaemonTaskStatus index"

definition NewDaemonTaskRepository :: DaemonTaskRepository where
  "NewDaemonTaskRepository =
     \<lparr>dt_tasks = [], dt_nextID = 0, dt_dedicatedServerIDIndex = [], dt_serverIDIndex = [],
      dt_taskTypeIndex = [], dt_statusIndex = []\<rparr>"

definition dt_addToIndexes :: "DaemonTask \<Rightarrow> DaemonTaskRepository \<Rightarrow> DaemonTaskRepository" where
  "dt_addToIndexes task r =
     r\<lparr>dt_dedicatedServerIDIndex :=
         index_add (Some (DaemonTask_DedicatedServerID task)) (DaemonTask_ID task) (dt_dedicatedServerIDIndex r),
       dt_serverIDIndex :=
         index_add (DaemonTask_ServerID task) (DaemonTask_ID task) (dt_serverIDIndex r),
       dt_taskTypeIndex :=
         index_add (Some (DaemonTask_Task task)) (DaemonTask_ID task) (dt_taskTypeIndex r),
       dt_statusIndex :=
         index_add (Some (DaemonTask_Status task)) (DaemonTask_ID task) (dt_statusIndex r)\<rparr>"

definition dt_removeFromIndexes :: "DaemonTask \<Rightarrow> DaemonTaskRepository \<Rightarrow> DaemonTaskRepository" where
  "dt_removeFromIndexes task r =
     r\<lparr>dt_dedicatedServerIDIndex :=
         index_remove (Some (DaemonTask_DedicatedServerID task)) (DaemonTask_ID task) (dt_dedicatedServerIDIndex r),
       dt_serverIDIndex :=
         index_remove (DaemonTask_ServerID task) (DaemonTask_ID task) (dt_serverIDIndex r),
       dt_taskTypeIndex :=
         index_remove (Some (DaemonTask_Task task)) (DaemonTask_ID task) (dt_taskTypeIndex r),
       dt_statusIndex :=
         index_remove (Some (DaemonTask_Status task)) (DaemonTask_ID task) (dt_statusIndex r)\<rparr>"

text \<open>A \<open>nil\<close> entry of \<open>ServerIDs\<close> is skipped.\<close>

definition intersectWithDedicatedServerIDs :: "DaemonTaskRepository \<Rightarrow> uint set \<Rightarrow> uint list \<Rightarrow> uint set" where
  "intersectWithDedicatedServerIDs r resultIDs dsIDs =
     index_intersect (dt_dedicatedServerIDIndex r) dsIDs resultIDs"

definition intersectWithServerIDs :: "DaemonTaskRepository \<Rightarrow> uint set \<Rightarrow> uint option list \<Rightarrow> uint set" where
  "intersectWithServerIDs r resultIDs serverIDs =
     index_intersect (dt_serverIDIndex r) (List.map_filter id serverIDs) resultIDs"

definition intersectWithTasks :: "DaemonTaskRepository \<Rightarrow> uint set \<Rightarrow> DaemonTaskType list \<Rightarrow> uint set" where
  "intersectWithTasks r resultIDs tasks = index_intersect (dt_taskTypeIndex r) tasks resultIDs"

definition intersectWithStatuses :: "DaemonTaskRepository \<Rightarrow> uint set \<Rightarrow> DaemonTaskStatus list \<Rightarrow> uint set" where
  "intersectWithStatuses r resultIDs statuses = index_intersect (dt_statusIndex r) statuses resultIDs"

definition getFilteredTaskIDs :: "DaemonTaskRepository \<Rightarrow> FindDaemonTask option \<Rightarrow> uint set" where
  "getFilteredTaskIDs r filter0 =
     (case filter0 of
        None \<Rightarrow> set (keys (dt_tasks r))
      | Some f \<Rightarrow>
          let result0 =
                (if fdt_IDs f \<noteq> [] then {i \<in> set (fdt_IDs f). i \<in> set (keys (dt_tasks r))}
                 else if fdt_DedicatedServerIDs f \<noteq> [] then
                   index_union (dt_dedicatedServerIDIndex r) (fdt_DedicatedServerIDs f)
                 else if fdt_ServerIDs f \<noteq> [] then
                   index_union (dt_serverIDIndex r) (List.map_filter id (fdt_ServerIDs f))
                 else if fdt_Tasks f \<noteq> [] then index_union (dt_taskTypeIndex r) (fdt_Tasks f)
                 else if fdt_Statuses f \<noteq> [] then index_union (dt_statusIndex r) (fdt_Statuses f)
                 else set (keys (dt_tasks r)));
              result1 =
                (if fdt_DedicatedServerIDs f \<noteq> [] \<and> fdt_IDs f \<noteq> []
                 then intersectWithDedicatedServerIDs r result0 (fdt_DedicatedServerIDs f) else result0);
              result2 =
                (if fdt_ServerIDs f \<noteq> [] \<and> (fdt_IDs f \<noteq> [] \<or> fdt_DedicatedServerIDs f \<noteq> [])
                 then intersectWithServerIDs r result1 (fdt_ServerIDs f) else result1);
              result3 =
                (if fdt_Tasks f \<noteq> [] \<and>
                    (fdt_IDs f \<noteq> [] \<or> fdt_DedicatedServerIDs f \<noteq> [] \<or> fdt_ServerIDs f \<noteq> [])
                 then intersectWithTasks r result2 (fdt_Tasks f) else result2)
          in if fdt_Statuses f \<noteq> [] \<and>
                (fdt_IDs f \<noteq> [] \<or> fdt_DedicatedServerIDs f \<noteq> [] \<or> fdt_ServerIDs f \<noteq> [] \<or> fdt_Tasks f \<noteq> [])
             then intersectWithStatuses r result3 (fdt_Statuses f) else result3)"

definition compareTasks :: "DaemonTask \<Rightarrow> DaemonTask \<Rightarrow> string \<Rightarrow> int" where
  "compareTasks a b field =
     (if field = ''id'' then cmp_Compare (DaemonTask_ID a) (DaemonTask_ID b)
      else if field = ''dedicated_server_id'' \<or> field = ''node_id'' then
        cmp_Compare (DaemonTask_DedicatedServerID a) (DaemonTask_DedicatedServerID b)
      else if field = ''server_id'' then
        compare_option cmp_Compare (DaemonTask_ServerID a) (DaemonTask_ServerID b)
      else if field = ''task'' then strings_Compare (DaemonTask_Task a) (DaemonTask_Task b)
      else if field = ''status'' then strings_Compare (DaemonTask_Status a) (DaemonTask_Status b)
      else if field = ''created_at'' then
        compare_option cmp_Compare (DaemonTask_CreatedAt a) (DaemonTask_CreatedAt b)
      else if field = ''updated_at'' then
        compare_option cmp_Compare (DaemonTask_UpdatedAt a) (DaemonTask_UpdatedAt b)
      else 0)"

definition task_less :: "Sorting list \<Rightarrow> DaemonTask \<Rightarrow> DaemonTask \<Rightarrow> bool" where
  "task_less order =
     (if order = [] then (\<lambda>a b. DaemonTask_ID a < DaemonTask_ID b)
      else sorting_less compareTasks order)"

definition sortTasks :: "DaemonTask list \<Rightarrow> Sorting list \<Rightarrow> DaemonTask list" where
  "sortTasks tasks order = sort_slice (task_less order) tasks"

definition DaemonTaskRepository_FindAll ::
    "DaemonTaskRepository \<Rightarrow> Sorting list \<Rightarrow> Pagination option \<Rightarrow> DaemonTask list result" where
  "DaemonTaskRepository_FindAll r order pagination =
     applyPagination pagination (sortTasks (map snd (dt_tasks r)) order)"

text \<open>
  The loop over the candidate set appends the rows that exist, in the unspecified order of a map;
  the model appends them in the order of the table.
\<close>

definition dt_candidates :: "DaemonTaskRepository \<Rightarrow> FindDaemonTask option \<Rightarrow> DaemonTask list" where
  "dt_candidates r filter0 =
     map snd (filter (\<lambda>(i, _). i \<in> getFilteredTaskIDs r filter0) (dt_tasks r))"

definition DaemonTaskRepository_Find ::
    "DaemonTaskRepository \<Rightarrow> FindDaemonTask option \<Rightarrow> Sorting list \<Rightarrow> Pagination option \<Rightarrow>
     DaemonTask list result" where
  "DaemonTaskRepository_Find r filter0 order pagination =
     applyPagination pagination
       (sortTasks (map (\<lambda>t. t\<lparr>DaemonTask_Output := None\<rparr>) (dt_candidates r filter0)) order)"

definition DaemonTaskRepository_FindWithOutput ::
    "DaemonTaskRepository \<Rightarrow> FindDaemonTask option \<Rightarrow> Sorting list \<Rightarrow> Pagination option \<Rightarrow>
     DaemonTask list result" where
  "DaemonTaskRepository_FindWithOutput r filter0 order pagination =
     applyPagination pagination (sortTasks (dt_candidates r filter0) order)"

text \<open>\<open>Save\<close> writes the identifier and the times into the caller's task, which it returns.\<close>

definition DaemonTaskRepository_Save ::
    "time \<Rightarrow> DaemonTask \<Rightarrow> DaemonTaskRepository \<Rightarrow> error option \<times> DaemonTask \<times> DaemonTaskRepository" where
  "DaemonTaskRepository_Save now task0 r0 =
     (let task1 = task0\<lparr>DaemonTask_UpdatedAt := Some now\<rparr>;
          task2 = (if DaemonTask_ID task1 = 0 \<and>
                      (DaemonTask_CreatedAt task1 = None \<or> DaemonTask_CreatedAt task1 = Some 0)
                   then task1\<lparr>DaemonTask_CreatedAt := Some now\<rparr> else task1);
          (task, preserved, r) =
            (if DaemonTask_ID task2 \<noteq> 0 then
               (case map_of (dt_tasks r0) (DaemonTask_ID task2) of
                  None \<Rightarrow> (task2, None, r0)
                | Some old \<Rightarrow>
                    (task2, if DaemonTask_Output task2 = None then DaemonTask_Output old else None,
                     dt_removeFromIndexes old r0))
             else let next = dt_nextID r0 + 1
                  in (task2\<lparr>DaemonTask_ID := id_of_counter next\<rparr>, None, r0\<lparr>dt_nextID := next\<rparr>));
          output = (case preserved of None \<Rightarrow> DaemonTask_Output task | Some s \<Rightarrow> Some s);
          stored = task\<lparr>DaemonTask_Output := output\<rparr>
      in (None, task,
          dt_addToIndexes stored (r\<lparr>dt_tasks := AList.update (DaemonTask_ID task) stored (dt_tasks r)\<rparr>)))"

definition DaemonTaskRepository_Delete ::
    "uint \<Rightarrow> DaemonTaskRepository \<Rightarrow> error option \<times> DaemonTaskRepository" where
  "DaemonTaskRepository_Delete i r0 =
     (let r = (case map_of (dt_tasks r0) i of None \<Rightarrow> r0 | Some task \<Rightarrow> dt_removeFromIndexes task r0)
      in (None, r\<lparr>dt_tasks := AList.delete i (dt_tasks r)\<rparr>))"

definition DaemonTaskRepository_AppendOutput ::
    "uint \<Rightarrow> string \<Rightarrow> DaemonTaskRepository \<Rightarrow> error option \<times> DaemonTaskRepository" where
  "DaemonTaskRepository_AppendOutput i output r =
     (case map_of (dt_tasks r) i of
        None \<Rightarrow> (None, r)
      | Some task \<Rightarrow>
          (let newOutput = (case DaemonTask_Output task of None \<Rightarrow> output | Some s \<Rightarrow> s @ output)
           in (None, r\<lparr>dt_tasks := AList.update i (task\<lparr>DaemonTask_Output := Some newOutput\<rparr>) (dt_tasks r)\<rparr>)))"

definition DaemonTaskRepository_Count :: "DaemonTaskRepository \<Rightarrow> FindDaemonTask option \<Rightarrow> nat result" where
  "DaemonTaskRepository_Count r filter0 = Inr (card (getFilteredTaskIDs r filter0))"

definition DaemonTaskRepository_Exists :: "DaemonTaskRepository \<Rightarrow> FindDaemonTask option \<Rightarrow> bool result" where
  "DaemonTaskRepository_Exists r filter0 =
     (case filter0 of
        None \<Rightarrow> Inr False
      | Some f \<Rightarrow>
          let candidateIDs = getFilteredTaskIDs r filter0
          in if fdt_IDs f \<noteq> [] then Inr (card candidateIDs = length (fdt_IDs f))
             else Inr (card candidateIDs > 0))"

section \<open>The interface\<close>

record 's TaskRepo =
  tr_FindAll :: "'s \<Rightarrow> Sorting list \<Rightarrow> Pagination option \<Rightarrow> DaemonTask list result"
  tr_Find :: "'s \<Rightarrow> FindDaemonTask option \<Rightarrow> Sorting list \<Rightarrow> Pagination option \<Rightarrow> DaemonTask list result"
  tr_FindWithOutput :: "'s \<Rightarrow> FindDaemonTask option \<Rightarrow> Sorting list \<Rightarrow> Pagination option \<Rightarrow> DaemonTask list result"
  tr_Count :: "'s \<Rightarrow> FindDaemonTask option \<Rightarrow> nat result"
  tr_Save :: "time \<Rightarrow> DaemonTask \<Rightarrow> 's \<Rightarrow> error option \<times> DaemonTask \<times> 's"
  tr_Delete :: "uint \<Rightarrow> 's \<Rightarrow> error option \<times> 's"
  tr_Exists :: "'s \<Rightarrow> FindDaemonTask option \<Rightarrow> bool result"
  tr_AppendOutput :: "uint \<Rightarrow> string \<Rightarrow> 's \<Rightarrow> error option \<times> 's"

definition inmemory_tasks :: "DaemonTaskRepository TaskRepo" where
  "inmemory_tasks =
     \<lparr>tr_FindAll = DaemonTaskRepository_FindAll, tr_Find = DaemonTaskRepository_Find,
      tr_FindWithOutput = DaemonTaskRepository_FindWithOutput, tr_Count = DaemonTaskRepository_Count,
      tr_Save = DaemonTaskRepository_Save, tr_Delete = DaemonTaskRepository_Delete,
      tr_Exists = DaemonTaskRepository_Exists, tr_AppendOutput = DaemonTaskRepository_AppendOutput\<rparr>"

text \<open>What a filter selects, written without indexes.\<close>

definition task_matches :: "FindDaemonTask option \<Rightarrow> DaemonTask \<Rightarrow> bool" where
  "task_matches filter0 t \<longleftrightarrow>
     (case filter0 of
        None \<Rightarrow> True
      | Some f \<Rightarrow>
          (fdt_IDs f = [] \<or> DaemonTask_ID t \<in> set (fdt_IDs f)) \<and>
          (fdt_DedicatedServerIDs f = [] \<or> DaemonTask_DedicatedServerID t \<in> set (fdt_DedicatedServerIDs f)) \<and>
          (fdt_ServerIDs f = [] \<or>
             (DaemonTask_ServerID t \<noteq> None \<and> DaemonTask_ServerID t \<in> set (fdt_ServerIDs f))) \<and>
          (fdt_Tasks f = [] \<or> DaemonTask_Task t \<in> set (fdt_Tasks f)) \<and>
          (fdt_Statuses f = [] \<or> DaemonTask_Status t \<in> set (fdt_Statuses f)))"

abbreviation tasks_in :: "DaemonTaskRepository \<Rightarrow> uint \<rightharpoonup> DaemonTask" where
  "tasks_in r \<equiv> map_of (dt_tasks r)"

section \<open>The invariant\<close>

definition dt_idx_ok :: "(uint \<rightharpoonup> DaemonTask) \<Rightarrow> DaemonTaskRepository \<Rightarrow> bool" where
  "dt_idx_ok tbl r \<longleftrightarrow>
     index_ok (Some \<circ> DaemonTask_DedicatedServerID) tbl (dt_dedicatedServerIDIndex r) \<and>
     index_ok DaemonTask_ServerID tbl (dt_serverIDIndex r) \<and>
     index_ok (Some \<circ> DaemonTask_Task) tbl (dt_taskTypeIndex r) \<and>
     index_ok (Some \<circ> DaemonTask_Status) tbl (dt_statusIndex r)"

definition dt_wf :: "DaemonTaskRepository \<Rightarrow> bool" where
  "dt_wf r \<longleftrightarrow> wf_map (dt_tasks r) \<and>
     (\<forall>i t. tasks_in r i = Some t \<longrightarrow> DaemonTask_ID t = i \<and> i \<noteq> 0 \<and> unat i \<le> unat (dt_nextID r)) \<and>
     dt_idx_ok (tasks_in r) r"

definition dt_room :: "DaemonTaskRepository \<Rightarrow> nat \<Rightarrow> bool" where
  "dt_room r n \<longleftrightarrow> counter_room (dt_nextID r) n"

lemma dt_wf_new [simp]: "dt_wf NewDaemonTaskRepository"
  by (simp add: dt_wf_def dt_idx_ok_def NewDaemonTaskRepository_def)

lemma dt_idx_ok_frame [simp]:
  "dt_idx_ok tbl (r\<lparr>dt_tasks := ts\<rparr>) = dt_idx_ok tbl r"
  "dt_idx_ok tbl (r\<lparr>dt_nextID := n\<rparr>) = dt_idx_ok tbl r"
  by (simp_all add: dt_idx_ok_def)

lemma dt_remove_ok:
  assumes "dt_idx_ok tbl r" and "tbl i = Some t" and "DaemonTask_ID t = i"
  shows "dt_idx_ok (tbl(i := None)) (dt_removeFromIndexes t r)"
  using assms by (auto simp: dt_idx_ok_def dt_removeFromIndexes_def intro!: index_ok_remove)

lemma dt_add_ok:
  assumes "dt_idx_ok (tbl(i := None)) r" and "DaemonTask_ID t = i"
  shows "dt_idx_ok (tbl(i \<mapsto> t)) (dt_addToIndexes t r)"
  using assms by (auto simp: dt_idx_ok_def dt_addToIndexes_def intro!: index_ok_add)

lemma dt_index_simps [simp]:
  "dt_tasks (dt_addToIndexes t r) = dt_tasks r" "dt_nextID (dt_addToIndexes t r) = dt_nextID r"
  "dt_tasks (dt_removeFromIndexes t r) = dt_tasks r" "dt_nextID (dt_removeFromIndexes t r) = dt_nextID r"
  by (simp_all add: dt_addToIndexes_def dt_removeFromIndexes_def)

text \<open>The indexed filter selects what the filter says.\<close>

lemma skip_nil_iff: "x \<in> Some ` set (List.map_filter id ys) \<longleftrightarrow> x \<noteq> None \<and> x \<in> set ys"
  by (cases x) (auto simp: image_iff)

lemma getFiltered_ok:
  assumes "dt_wf r"
  shows "getFilteredTaskIDs r f = select (tasks_in r) (task_matches f)"
proof (cases f)
  case None
  have "task_matches None = (\<lambda>_. True)" by (simp add: task_matches_def fun_eq_iff)
  then show ?thesis by (simp only: None getFilteredTaskIDs_def option.case select_keys)
next
  case (Some g)
  have ids: "tasks_in r i = Some t \<Longrightarrow> DaemonTask_ID t = i" for i t
    using assms by (simp add: dt_wf_def)
  have idx: "index_ok (Some \<circ> DaemonTask_DedicatedServerID) (tasks_in r) (dt_dedicatedServerIDIndex r)"
    "index_ok DaemonTask_ServerID (tasks_in r) (dt_serverIDIndex r)"
    "index_ok (Some \<circ> DaemonTask_Task) (tasks_in r) (dt_taskTypeIndex r)"
    "index_ok (Some \<circ> DaemonTask_Status) (tasks_in r) (dt_statusIndex r)"
    using assms by (simp_all add: dt_wf_def dt_idx_ok_def)
  note sets = idx [THEN index_ok_union] idx [THEN index_ok_intersect] select_keys
    select_ids [OF ids] intersectWithDedicatedServerIDs_def intersectWithServerIDs_def
    intersectWithTasks_def intersectWithStatuses_def o_def Some_image_iff skip_nil_iff
  show ?thesis
    unfolding Some getFilteredTaskIDs_def task_matches_def option.case Let_def
    by (cases "fdt_IDs g = []"; cases "fdt_DedicatedServerIDs g = []"; cases "fdt_ServerIDs g = []";
        cases "fdt_Tasks g = []"; cases "fdt_Statuses g = []")
      (simp_all only: sets if_True if_False simp_thms conj_assoc)
qed

text \<open>Reads.\<close>

abbreviation strip_output :: "DaemonTask \<Rightarrow> DaemonTask" where
  "strip_output t \<equiv> t\<lparr>DaemonTask_Output := None\<rparr>"

lemma consistent_compareTasks: "consistent (\<lambda>a b. compareTasks a b field)"
  unfolding compareTasks_def
  by (cases "field = ''id''"; cases "field = ''dedicated_server_id'' \<or> field = ''node_id''";
      cases "field = ''server_id''"; cases "field = ''task''"; cases "field = ''status''";
      cases "field = ''created_at''"; cases "field = ''updated_at''")
    (simp_all only: if_True if_False simp_thms, (rule consistents consistent_cmp [where f = "\<lambda>x. x"])+)

lemma task_less_weak: "weak_order (task_less order)"
proof (cases "order = []")
  case True
  then show ?thesis by (auto simp: task_less_def weak_order_def)
next
  case False
  then show ?thesis
    using sorting_weak_order [of compareTasks order] consistent_compareTasks by (simp add: task_less_def)
qed

lemma set_candidates:
  assumes "dt_wf r"
  shows "set (dt_candidates r f) = {t. \<exists>i. tasks_in r i = Some t \<and> task_matches f t}"
proof -
  have wf: "wf_map (dt_tasks r)" using assms by (simp add: dt_wf_def)
  show ?thesis
    unfolding dt_candidates_def getFiltered_ok [OF assms] select_def
    by (auto simp: map_of_eq_Some [OF wf] image_iff) (metis map_of_eq_Some [OF wf] option.inject)+
qed

lemma distinct_candidates:
  assumes "dt_wf r"
  shows "distinct (map DaemonTask_ID (dt_candidates r f))"
    and "0 \<notin> set (map DaemonTask_ID (dt_candidates r f))"
proof -
  have wf: "wf_map (dt_tasks r)" using assms by (simp add: dt_wf_def)
  have id: "(i, t) \<in> set (dt_tasks r) \<Longrightarrow> DaemonTask_ID t = i \<and> i \<noteq> 0" for i t
    using assms unfolding dt_wf_def map_of_eq_Some [OF wf] by blast
  then have "map DaemonTask_ID (dt_candidates r f) =
      keys (filter (\<lambda>(i, _). i \<in> getFilteredTaskIDs r f) (dt_tasks r))"
    by (auto simp: dt_candidates_def)
  then show "distinct (map DaemonTask_ID (dt_candidates r f))"
    using wf by (simp add: wf_map_def distinct_map_filter)
  show "0 \<notin> set (map DaemonTask_ID (dt_candidates r f))"
    using id by (fastforce simp: dt_candidates_def)
qed

text \<open>Distinct nonzero identifiers: fewer rows than a 64-bit length can count.\<close>

lemma length_bound:
  assumes "distinct (map f xs)" and "(0 :: uint) \<notin> set (map f xs)"
  shows "length xs < 2 ^ 64"
proof -
  have "card (set (map f xs)) \<le> card (UNIV - {0 :: uint})"
    using assms(2) by (intro card_mono) auto
  then have "length (map f xs) \<le> card (UNIV - {0 :: uint})"
    using distinct_card [OF assms(1)] by simp
  then show ?thesis by (simp add: card_Diff_subset card_word)
qed

lemma sorted_read:
  assumes "dt_wf r" and g: "\<And>t. DaemonTask_ID (g t) = DaemonTask_ID t"
  shows "\<exists>xs. applyPagination p (sortTasks (map g (dt_candidates r f)) order) = applyPagination p xs \<and>
    set xs = g ` {t. \<exists>i. tasks_in r i = Some t \<and> task_matches f t} \<and>
    distinct (map DaemonTask_ID xs) \<and> length xs < 2 ^ 64 \<and>
    sorted_wrt (\<lambda>a b. \<not> task_less order b a) xs"
proof -
  note d = distinct_candidates [OF assms(1), of f]
  let ?xs = "sortTasks (map g (dt_candidates r f)) order"
  have m: "mset (map DaemonTask_ID ?xs) = mset (map DaemonTask_ID (dt_candidates r f))"
    by (simp add: sortTasks_def g flip: mset_map) (simp add: multiset.map_comp o_def g)
  then have "distinct (map DaemonTask_ID ?xs)"
    using d(1) by (metis mset_eq_imp_distinct_iff)
  moreover have "length ?xs < 2 ^ 64"
    using length_bound [OF d] by (simp add: sortTasks_def)
  moreover have "sorted_wrt (\<lambda>a b. \<not> task_less order b a) ?xs"
    unfolding sortTasks_def by (rule sorted_sort_slice [OF task_less_weak])
  ultimately show ?thesis
    using set_candidates [OF assms(1), of f] by (intro exI [of _ ?xs]) (simp add: sortTasks_def)
qed

text \<open>Writes.\<close>

lemma Save_new:
  assumes "dt_wf r" and "dt_room r (Suc n)" and "DaemonTask_ID task = 0"
  shows "\<exists>i created r'. DaemonTaskRepository_Save now task r =
      (None, task\<lparr>DaemonTask_ID := i, DaemonTask_CreatedAt := Some created, DaemonTask_UpdatedAt := Some now\<rparr>, r') \<and>
    i \<noteq> 0 \<and> tasks_in r i = None \<and> dt_wf r' \<and> dt_room r' n \<and>
    (DaemonTask_CreatedAt task \<in> {None, Some 0} \<longrightarrow> created = now) \<and>
    tasks_in r' = (tasks_in r)(i \<mapsto>
      task\<lparr>DaemonTask_ID := i, DaemonTask_CreatedAt := Some created, DaemonTask_UpdatedAt := Some now\<rparr>)"
proof -
  let ?i = "id_of_counter (dt_nextID r + 1)"
  let ?c = "case DaemonTask_CreatedAt task of None \<Rightarrow> now | Some c \<Rightarrow> if c = 0 then now else c"
  let ?t = "task\<lparr>DaemonTask_ID := ?i, DaemonTask_CreatedAt := Some ?c, DaemonTask_UpdatedAt := Some now\<rparr>"
  let ?r = "dt_addToIndexes ?t (r\<lparr>dt_nextID := dt_nextID r + 1, dt_tasks := AList.update ?i ?t (dt_tasks r)\<rparr>)"
  have room: "counter_room (dt_nextID r) (Suc n)" using assms(2) by (simp add: dt_room_def)
  have ks: "\<forall>k \<in> set (keys (dt_tasks r)). unat k \<le> unat (dt_nextID r)"
    unfolding select_keys using assms(1) by (auto simp: select_def dt_wf_def)
  have fresh: "?i \<notin> set (keys (dt_tasks r))" "?i \<noteq> 0" by (rule next_id_fresh [OF room ks])+
  then have none: "tasks_in r ?i = None" by (simp add: map_of_eq_None_iff)
  have run: "DaemonTaskRepository_Save now task r = (None, ?t, ?r)"
    using assms(3) by (cases task) (auto simp: DaemonTaskRepository_Save_def Let_def split: option.split)
  have "dt_idx_ok ((tasks_in r)(?i := None)) (r\<lparr>dt_nextID := dt_nextID r + 1, dt_tasks := AList.update ?i ?t (dt_tasks r)\<rparr>)"
    using assms(1) none by (simp add: dt_wf_def fun_upd_idem)
  then have idx: "dt_idx_ok (tasks_in ?r) ?r" using dt_add_ok [of "tasks_in r" ?i] by simp
  have "dt_wf ?r"
    using assms(1) idx fresh(2) counter_room_Suc [OF room]
    unfolding dt_wf_def by (auto simp: le_Suc_eq split: if_splits)
  moreover have "dt_room ?r n" using counter_room_step [OF room] by (simp add: dt_room_def)
  ultimately show ?thesis
    using run none fresh(2) by (intro exI [of _ ?i] exI [of _ ?c] exI [of _ ?r]) (auto split: option.split)
qed

lemma Save_old:
  assumes "dt_wf r" and "tasks_in r (DaemonTask_ID task) = Some old"
  shows "\<exists>r'. DaemonTaskRepository_Save now task r = (None, task\<lparr>DaemonTask_UpdatedAt := Some now\<rparr>, r') \<and>
    dt_wf r' \<and> (\<forall>n. dt_room r n \<longrightarrow> dt_room r' n) \<and>
    tasks_in r' = (tasks_in r)(DaemonTask_ID task \<mapsto> task\<lparr>DaemonTask_UpdatedAt := Some now,
      DaemonTask_Output := (if DaemonTask_Output task = None then DaemonTask_Output old else DaemonTask_Output task)\<rparr>)"
proof -
  let ?i = "DaemonTask_ID task"
  let ?t = "task\<lparr>DaemonTask_UpdatedAt := Some now,
      DaemonTask_Output := (if DaemonTask_Output task = None then DaemonTask_Output old else DaemonTask_Output task)\<rparr>"
  let ?q = "(dt_removeFromIndexes old r)\<lparr>dt_tasks := AList.update ?i ?t (dt_tasks r)\<rparr>"
  have i: "?i \<noteq> 0" "DaemonTask_ID old = ?i" "unat ?i \<le> unat (dt_nextID r)"
    using assms by (auto simp: dt_wf_def)
  have run: "DaemonTaskRepository_Save now task r =
      (None, task\<lparr>DaemonTask_UpdatedAt := Some now\<rparr>, dt_addToIndexes ?t ?q)"
    using i(1) assms(2) by (auto simp: DaemonTaskRepository_Save_def Let_def split: option.split)
  have "dt_idx_ok ((tasks_in r)(?i := None)) (dt_removeFromIndexes old r)"
    using dt_remove_ok [of "tasks_in r" r ?i old] assms i(2) by (simp add: dt_wf_def)
  then have idx: "dt_idx_ok (tasks_in (dt_addToIndexes ?t ?q)) (dt_addToIndexes ?t ?q)"
    using dt_add_ok [of "tasks_in r" ?i ?q ?t] by simp
  have "dt_wf (dt_addToIndexes ?t ?q)"
    using assms(1) idx i unfolding dt_wf_def by (auto split: if_splits)
  then show ?thesis using run by (simp add: dt_room_def)
qed

lemma Append_ok:
  assumes "dt_wf r"
  shows "\<exists>r'. DaemonTaskRepository_AppendOutput i out r = (None, r') \<and> dt_wf r' \<and>
    (\<forall>n. dt_room r n \<longrightarrow> dt_room r' n) \<and>
    tasks_in r' = (case tasks_in r i of None \<Rightarrow> tasks_in r
      | Some t \<Rightarrow> (tasks_in r)(i \<mapsto> t\<lparr>DaemonTask_Output :=
          Some (case DaemonTask_Output t of None \<Rightarrow> out | Some s \<Rightarrow> s @ out)\<rparr>))"
proof (cases "tasks_in r i")
  case None
  then show ?thesis using assms by (simp add: DaemonTaskRepository_AppendOutput_def)
next
  case (Some t)
  let ?t = "t\<lparr>DaemonTask_Output := Some (case DaemonTask_Output t of None \<Rightarrow> out | Some s \<Rightarrow> s @ out)\<rparr>"
  have "dt_idx_ok ((tasks_in r)(i \<mapsto> ?t)) r"
    using assms Some unfolding dt_wf_def dt_idx_ok_def by (auto intro!: index_ok_same_key)
  then have "dt_wf (r\<lparr>dt_tasks := AList.update i ?t (dt_tasks r)\<rparr>)"
    using assms Some unfolding dt_wf_def by (auto split: if_splits)
  then show ?thesis
    using Some by (simp add: DaemonTaskRepository_AppendOutput_def Let_def dt_room_def)
qed

lemma Delete_ok:
  assumes "dt_wf r"
  shows "\<exists>r'. DaemonTaskRepository_Delete i r = (None, r') \<and> dt_wf r' \<and>
    (\<forall>n. dt_room r n \<longrightarrow> dt_room r' n) \<and> tasks_in r' = (tasks_in r)(i := None)"
proof (cases "tasks_in r i")
  case None
  then show ?thesis
    using assms unfolding DaemonTaskRepository_Delete_def dt_wf_def dt_room_def
    by (auto simp: fun_upd_idem)
next
  case (Some t)
  have "dt_idx_ok ((tasks_in r)(i := None)) (dt_removeFromIndexes t r)"
    by (rule dt_remove_ok) (use assms Some in \<open>auto simp: dt_wf_def\<close>)
  then show ?thesis
    using assms Some unfolding DaemonTaskRepository_Delete_def dt_wf_def dt_room_def
    by auto
qed

lemma finite_select [simp]: "finite (select (map_of m) P)"
  by (rule finite_subset [OF _ finite_dom_map_of [of m]]) (auto simp: select_def)

section \<open>The contract\<close>

text \<open>
  What the clients of the task repository rely on, over the view of a store as a map from
  identifiers to tasks.
\<close>

locale daemon_task_repository =
  fixes T :: "'s TaskRepo" and inv :: "'s \<Rightarrow> bool" and room :: "'s \<Rightarrow> nat \<Rightarrow> bool"
    and view :: "'s \<Rightarrow> uint \<rightharpoonup> DaemonTask"
  assumes view_id: "inv s \<Longrightarrow> view s i = Some t \<Longrightarrow> DaemonTask_ID t = i \<and> i \<noteq> 0"
    and room_mono: "room s m \<Longrightarrow> n \<le> m \<Longrightarrow> room s n"
    and find: "inv s \<Longrightarrow> \<exists>xs. tr_Find T s f order p = applyPagination p xs \<and>
      set xs = strip_output ` {t. \<exists>i. view s i = Some t \<and> task_matches f t} \<and>
      distinct (map DaemonTask_ID xs) \<and> length xs < 2 ^ 64 \<and>
      sorted_wrt (\<lambda>a b. \<not> task_less order b a) xs"
    and find_with_output: "inv s \<Longrightarrow> \<exists>xs. tr_FindWithOutput T s f order p = applyPagination p xs \<and>
      set xs = {t. \<exists>i. view s i = Some t \<and> task_matches f t} \<and>
      distinct (map DaemonTask_ID xs) \<and> length xs < 2 ^ 64 \<and>
      sorted_wrt (\<lambda>a b. \<not> task_less order b a) xs"
    and count: "inv s \<Longrightarrow> tr_Count T s f = Inr (card (select (view s) (task_matches f)))"
    and exists: "inv s \<Longrightarrow> fdt_IDs g = [] \<Longrightarrow>
      tr_Exists T s (Some g) = Inr (\<exists>i t. view s i = Some t \<and> task_matches (Some g) t)"
    and save_new: "inv s \<Longrightarrow> room s (Suc n) \<Longrightarrow> DaemonTask_ID task = 0 \<Longrightarrow>
      \<exists>i created s'. tr_Save T now task s =
        (None, task\<lparr>DaemonTask_ID := i, DaemonTask_CreatedAt := Some created, DaemonTask_UpdatedAt := Some now\<rparr>, s') \<and>
      i \<noteq> 0 \<and> view s i = None \<and> inv s' \<and> room s' n \<and>
      (DaemonTask_CreatedAt task \<in> {None, Some 0} \<longrightarrow> created = now) \<and>
      view s' = (view s)(i \<mapsto>
        task\<lparr>DaemonTask_ID := i, DaemonTask_CreatedAt := Some created, DaemonTask_UpdatedAt := Some now\<rparr>)"
    and save_old: "inv s \<Longrightarrow> view s (DaemonTask_ID task) = Some old \<Longrightarrow>
      \<exists>s'. tr_Save T now task s = (None, task\<lparr>DaemonTask_UpdatedAt := Some now\<rparr>, s') \<and> inv s' \<and>
      (\<forall>n. room s n \<longrightarrow> room s' n) \<and>
      view s' = (view s)(DaemonTask_ID task \<mapsto> task\<lparr>DaemonTask_UpdatedAt := Some now,
        DaemonTask_Output := (if DaemonTask_Output task = None then DaemonTask_Output old else DaemonTask_Output task)\<rparr>)"
    and delete: "inv s \<Longrightarrow> \<exists>s'. tr_Delete T i s = (None, s') \<and> inv s' \<and>
      (\<forall>n. room s n \<longrightarrow> room s' n) \<and> view s' = (view s)(i := None)"
    and append_output: "inv s \<Longrightarrow> \<exists>s'. tr_AppendOutput T i out s = (None, s') \<and> inv s' \<and>
      (\<forall>n. room s n \<longrightarrow> room s' n) \<and>
      view s' = (case view s i of None \<Rightarrow> view s
        | Some t \<Rightarrow> (view s)(i \<mapsto> t\<lparr>DaemonTask_Output :=
            Some (case DaemonTask_Output t of None \<Rightarrow> out | Some o' \<Rightarrow> o' @ out)\<rparr>))"

interpretation inmem_tasks: daemon_task_repository inmemory_tasks dt_wf dt_room tasks_in
proof (unfold_locales, goal_cases)
  case (1 s i t)
  then show ?case by (simp add: dt_wf_def)
next
  case (2 s m n)
  then show ?case by (auto simp: dt_room_def elim: counter_room_mono)
next
  case (3 s f order p)
  then show ?case using sorted_read [of s strip_output p f order]
    by (simp add: inmemory_tasks_def DaemonTaskRepository_Find_def)
next
  case (4 s f order p)
  then show ?case using sorted_read [of s "\<lambda>t. t" p f order]
    by (simp add: inmemory_tasks_def DaemonTaskRepository_FindWithOutput_def)
next
  case (5 s f)
  then show ?case by (simp add: inmemory_tasks_def DaemonTaskRepository_Count_def getFiltered_ok)
next
  case (6 s f)
  then show ?case
    by (auto simp: inmemory_tasks_def DaemonTaskRepository_Exists_def getFiltered_ok card_gt_0_iff select_def Let_def
        intro: finite_select [unfolded select_def])
next
  case 7
  then show ?case using Save_new by (simp add: inmemory_tasks_def)
next
  case 8
  then show ?case using Save_old by (simp add: inmemory_tasks_def)
next
  case 9
  then show ?case using Delete_ok by (simp add: inmemory_tasks_def)
next
  case 10
  then show ?case using Append_ok by (simp add: inmemory_tasks_def)
qed

context daemon_task_repository
begin

text \<open>The lookup by identifier that the handlers use.\<close>

lemma find_by_id:
  assumes "inv s"
  shows "tr_Find T s (Some (FindDaemonTaskByIDs [i])) order None =
    Inr (case view s i of None \<Rightarrow> [] | Some t \<Rightarrow> [strip_output t])"
proof -
  obtain xs where xs: "tr_Find T s (Some (FindDaemonTaskByIDs [i])) order None = Inr xs"
    "set xs = strip_output ` {t. \<exists>j. view s j = Some t \<and> task_matches (Some (FindDaemonTaskByIDs [i])) t}"
    "distinct (map DaemonTask_ID xs)"
    using find [OF assms, of "Some (FindDaemonTaskByIDs [i])" order None] by auto
  have "{t. \<exists>j. view s j = Some t \<and> task_matches (Some (FindDaemonTaskByIDs [i])) t} = {t. view s i = Some t}"
    using view_id [OF assms] by (auto simp: task_matches_def FindDaemonTaskByIDs_def no_task_filter_def)
  then have set: "set xs = strip_output ` {t. view s i = Some t}" using xs(2) by simp
  have d: "distinct xs" using xs(3) by (simp add: distinct_map)
  show ?thesis
  proof (cases "view s i")
    case None
    with set have "xs = []" by simp
    with xs(1) None show ?thesis by simp
  next
    case (Some t)
    with set have "set xs = {strip_output t}" by simp
    with d have "length xs = 1" using distinct_card by fastforce
    with \<open>set xs = {strip_output t}\<close> have "xs = [strip_output t]" by (cases xs) auto
    with xs(1) Some show ?thesis by simp
  qed
qed

text \<open>The whole selection, by identifier.\<close>

lemma find_all_matching:
  assumes "inv s"
  shows "\<exists>xs. tr_Find T s f [] None = Inr xs \<and>
    set xs = strip_output ` {t. \<exists>i. view s i = Some t \<and> task_matches f t} \<and>
    distinct (map DaemonTask_ID xs)"
  using find [OF assms, of f "[]" None] by auto

end

section \<open>Runs of the repository\<close>

text \<open>
  The writes a client can make: saving a new task, saving one that is stored, appending output and
  deleting.
\<close>

inductive task_repo_step :: "DaemonTaskRepository \<Rightarrow> nat \<Rightarrow> DaemonTaskRepository \<Rightarrow> bool" where
  save_new: "DaemonTask_ID task = 0 \<Longrightarrow> DaemonTaskRepository_Save now task r = (e, task', r') \<Longrightarrow>
    task_repo_step r 1 r'"
| save_old: "tasks_in r (DaemonTask_ID task) \<noteq> None \<Longrightarrow> DaemonTaskRepository_Save now task r = (e, task', r') \<Longrightarrow>
    task_repo_step r 0 r'"
| append: "DaemonTaskRepository_AppendOutput i out r = (e, r') \<Longrightarrow> task_repo_step r 0 r'"
| delete: "DaemonTaskRepository_Delete i r = (e, r') \<Longrightarrow> task_repo_step r 0 r'"

inductive task_repo_run :: "DaemonTaskRepository \<Rightarrow> nat \<Rightarrow> DaemonTaskRepository \<Rightarrow> bool" where
  start: "task_repo_run r 0 r"
| more: "task_repo_run r n r1 \<Longrightarrow> task_repo_step r1 m r2 \<Longrightarrow> task_repo_run r (n + m) r2"

lemma task_repo_step_ok:
  assumes "task_repo_step r m r'" and "dt_wf r" and "dt_room r (m + n)"
  shows "dt_wf r' \<and> dt_room r' n"
  using assms
proof (induction rule: task_repo_step.induct)
  case (save_new task now r e task' r')
  then show ?case using Save_new [of r n task now] by auto
next
  case (save_old r task now e task' r')
  then obtain old where "tasks_in r (DaemonTask_ID task) = Some old" by blast
  with save_old show ?case using Save_old [of r task old now] by auto
next
  case (append i out r e r')
  then show ?case using Append_ok [of r i out] by auto
next
  case (delete i r e r')
  then show ?case using Delete_ok [of r i] by auto
qed

lemma task_repo_run_ok:
  "task_repo_run r m r' \<Longrightarrow> dt_wf r \<Longrightarrow> dt_room r (m + n) \<Longrightarrow> dt_wf r' \<and> dt_room r' n"
proof (induction arbitrary: n rule: task_repo_run.induct)
  case (more r k r1 m r2)
  then have "dt_wf r1 \<and> dt_room r1 (m + n)" by (simp add: add.assoc)
  then show ?case using task_repo_step_ok [OF more.hyps(2)] by blast
qed simp

section \<open>Theorems\<close>

definition sample_task :: DaemonTask where
  "sample_task = \<lparr>DaemonTask_ID = 0, DaemonTask_RunAftID = None, DaemonTask_CreatedAt = None,
     DaemonTask_UpdatedAt = None, DaemonTask_DedicatedServerID = 3, DaemonTask_ServerID = Some 5,
     DaemonTask_Task = DaemonTaskTypeServerStart, DaemonTask_Data = None, DaemonTask_Cmd = None,
     DaemonTask_Output = None, DaemonTask_Status = DaemonTaskStatusWaiting\<rparr>"

definition sample_tasks :: DaemonTaskRepository where
  "sample_tasks = snd (snd (DaemonTaskRepository_Save 10 sample_task NewDaemonTaskRepository))"

lemma sample_run: "task_repo_run NewDaemonTaskRepository 1 sample_tasks"
proof -
  have "task_repo_step NewDaemonTaskRepository 1 sample_tasks"
    unfolding sample_tasks_def
    by (rule task_repo_step.save_new [of sample_task 10 _
          "fst (DaemonTaskRepository_Save 10 sample_task NewDaemonTaskRepository)"
          "fst (snd (DaemonTaskRepository_Save 10 sample_task NewDaemonTaskRepository))"])
      (simp_all add: sample_task_def)
  from task_repo_run.more [OF task_repo_run.start this] show ?thesis by simp
qed



lemma sample_wf: "dt_wf sample_tasks"
  using task_repo_run_ok [OF sample_run dt_wf_new, of 0]
  by (simp add: dt_room_def counter_room_def NewDaemonTaskRepository_def)

lemma sample_task_1: "tasks_in sample_tasks 1 = Some (sample_task\<lparr>DaemonTask_ID := 1,
    DaemonTask_CreatedAt := Some 10, DaemonTask_UpdatedAt := Some 10\<rparr>)"
  by (simp add: sample_tasks_def sample_task_def DaemonTaskRepository_Save_def NewDaemonTaskRepository_def
      dt_addToIndexes_def index_add_def index_get_def id_of_counter_def)

text \<open>
  The read-modify-write of a task that every handler makes keeps the recorded output: \<open>Find\<close>
  strips it, and saving the stripped task with a new status changes the status and the update time
  and nothing else.
\<close>

theorem status_update_keeps_output:
  assumes "dt_wf r" and "tasks_in r i = Some t"
  shows "\<exists>t0 r'. DaemonTaskRepository_Find r (Some (FindDaemonTaskByIDs [i])) [] None = Inr [t0] \<and>
    DaemonTask_Output t0 = None \<and>
    DaemonTaskRepository_Save now (t0\<lparr>DaemonTask_Status := st\<rparr>) r =
      (None, t0\<lparr>DaemonTask_Status := st, DaemonTask_UpdatedAt := Some now\<rparr>, r') \<and>
    tasks_in r' = (tasks_in r)(i \<mapsto> t\<lparr>DaemonTask_Status := st, DaemonTask_UpdatedAt := Some now\<rparr>) \<and>
    dt_wf r'"
proof -
  let ?t = "(strip_output t)\<lparr>DaemonTask_Status := st\<rparr>"
  have id: "DaemonTask_ID t = i" using assms by (simp add: dt_wf_def)
  have "DaemonTaskRepository_Find r (Some (FindDaemonTaskByIDs [i])) [] None = Inr [strip_output t]"
    using inmem_tasks.find_by_id [OF assms(1), of i "[]"] assms(2) by (simp add: inmemory_tasks_def)
  moreover have "tasks_in r (DaemonTask_ID ?t) = Some t" using assms(2) id by simp
  from Save_old [OF assms(1) this, of now] obtain r' where
    "DaemonTaskRepository_Save now ?t r = (None, ?t\<lparr>DaemonTask_UpdatedAt := Some now\<rparr>, r')" "dt_wf r'"
    "tasks_in r' = (tasks_in r)(i \<mapsto> t\<lparr>DaemonTask_Status := st, DaemonTask_UpdatedAt := Some now\<rparr>)"
    by (cases t) (use id in auto)
  ultimately show ?thesis by (intro exI [of _ "strip_output t"] exI [of _ r']) simp
qed

theorem status_update_keeps_output_witness:
  "\<exists>t0 r'. DaemonTaskRepository_Find sample_tasks (Some (FindDaemonTaskByIDs [1])) [] None = Inr [t0] \<and>
    DaemonTaskRepository_Save 20 (t0\<lparr>DaemonTask_Status := DaemonTaskStatusWorking\<rparr>) sample_tasks =
      (None, t0\<lparr>DaemonTask_Status := DaemonTaskStatusWorking, DaemonTask_UpdatedAt := Some 20\<rparr>, r')"
  using status_update_keeps_output [OF sample_wf sample_task_1, of 20 DaemonTaskStatusWorking] by blast

text \<open>
  Without wrap-around the pages of a listing are consecutive and complete: the first \<open>n\<close> pages of
  \<open>L\<close> rows are the first \<open>n * L\<close> rows of the sorted listing.
\<close>

theorem pages_partition:
  assumes "0 < L" and "n * L < 2 ^ 64" and "length xs < 2 ^ 64"
  shows "concat (map (\<lambda>k. case applyPagination
      (Some \<lparr>Pagination_Limit = of_nat L, Pagination_Offset = of_nat (k * L)\<rparr>) xs of
        Inl e \<Rightarrow> [] | Inr page \<Rightarrow> page) [0..<n]) = take (n * L) xs"
  using assms(2)
proof (induction n)
  case 0
  then show ?case by simp
next
  case (Suc n)
  let ?p = "\<lparr>Pagination_Limit = of_nat L, Pagination_Offset = of_nat (n * L)\<rparr>"
  have "L < 2 ^ 64" "n * L < 2 ^ 64" using Suc.prems assms(1) by auto
  then have u: "unat (of_nat L :: uint64) = L" "unat (of_nat (n * L) :: uint64) = n * L"
    by (simp_all add: unat_of_nat take_bit_nat_eq_self del: of_nat_mult)
  then have l: "page_limit ?p = L" using assms(1) by (auto simp: page_limit_def unat_eq_zero)
  have "applyPagination (Some ?p) xs = Inr (take L (drop (n * L) xs))"
    using applyPagination_page [OF assms(3), of ?p] Suc.prems l u(2) by (simp del: of_nat_mult)
  then show ?case
    using Suc.IH \<open>n * L < 2 ^ 64\<close> by (simp add: take_add [symmetric] add.commute del: of_nat_mult)
qed

theorem pages_partition_witness:
  "concat (map (\<lambda>k. case applyPagination
      (Some \<lparr>Pagination_Limit = of_nat 2, Pagination_Offset = of_nat (k * 2)\<rparr>) [1::nat, 2, 3] of
        Inl e \<Rightarrow> [] | Inr page \<Rightarrow> page) [0..<2]) = [1, 2, 3]"
  using pages_partition [of 2 2 "[1::nat, 2, 3]"] by simp

text \<open>
  C27. \<open>applyPagination\<close> adds offset and limit at 64 bits: with a positive offset and the largest limit
  the sum wraps below the offset and the slice expression panics.
\<close>

theorem pagination_wraps:
  assumes "0 < unat offset" and "unat offset < length xs" and "length xs < 2 ^ 64"
  shows "applyPagination (Some \<lparr>Pagination_Limit = - 1, Pagination_Offset = offset\<rparr>) xs =
    Inl (Panic ''slice bounds out of range'')"
proof -
  have len: "unat (of_nat (length xs) :: uint64) = length xs"
    using assms(3) by (simp add: unat_of_nat take_bit_nat_eq_self)
  have "offset \<noteq> 0" using assms(1) by auto
  then have m: "unat (offset - 1) = unat offset - 1" by (simp add: unat_minus_one)
  have "\<not> of_nat (length xs) \<le> offset" using assms(2) len by (simp add: word_le_nat_alt)
  moreover have "min (offset - 1) (of_nat (length xs)) = offset - 1"
    using assms(2) by (auto simp: min_def word_le_nat_alt len m)
  ultimately show ?thesis
    using assms(1) m by (simp add: applyPagination_def Let_def slice_def)
qed

theorem pagination_wraps_witness:
  "applyPagination (Some \<lparr>Pagination_Limit = - 1, Pagination_Offset = 1\<rparr>) [sample_task, sample_task] =
    Inl (Panic ''slice bounds out of range'')"
  by (rule pagination_wraps) simp_all

end
