(* ===== verification/Server_Repository.thy ===== *)
theory Server_Repository
  imports Repo_Filters
begin

text \<open>
  Game servers (\<open>internal/domain/server.go\<close>), the filter of \<open>internal/filters/servers.go\<close> and the
  in-memory repository \<open>internal/repositories/inmemory/servers.go\<close> with its seven hash indexes and
  the relation between users and servers.

  A UUID is represented by its canonical text, so that \<open>UID.String()\<close> is the identity.  The
  free-form bag \<open>Metadata\<close>, which this code only copies, is kept as its JSON text.
\<close>

section \<open>Servers and filters\<close>

type_synonym uuid = string
type_synonym ServerInstalledStatus = int

definition ServerInstalledStatusNotInstalled :: ServerInstalledStatus where
  "ServerInstalledStatusNotInstalled = 0"
definition ServerInstalledStatusInstalled :: ServerInstalledStatus where
  "ServerInstalledStatusInstalled = 1"
definition ServerInstalledStatusInstallationInProg :: ServerInstalledStatus where
  "ServerInstalledStatusInstallationInProg = 2"

definition ServerInstalledStatus_Valid :: "ServerInstalledStatus \<Rightarrow> bool" where
  "ServerInstalledStatus_Valid s \<longleftrightarrow>
     s = ServerInstalledStatusNotInstalled \<or> s = ServerInstalledStatusInstalled \<or>
     s = ServerInstalledStatusInstallationInProg"

record Server =
  Server_ID :: uint
  Server_UID :: uuid
  Server_UUID :: uuid
  Server_UUIDShort :: string
  Server_Enabled :: bool
  Server_Installed :: ServerInstalledStatus
  Server_Blocked :: bool
  Server_Name :: string
  Server_GameID :: string
  Server_DSID :: uint
  Server_GameModID :: uint
  Server_Expires :: "time option"
  Server_ServerIP :: string
  Server_ServerPort :: int
  Server_QueryPort :: "int option"
  Server_RconPort :: "int option"
  Server_Rcon :: "string option"
  Server_Dir :: string
  Server_SuUser :: "string option"
  Server_CPULimit :: "int option"
  Server_RAMLimit :: "int option"
  Server_NetLimit :: "int option"
  Server_StartCommand :: "string option"
  Server_StopCommand :: "string option"
  Server_ForceStopCommand :: "string option"
  Server_RestartCommand :: "string option"
  Server_ProcessActive :: bool
  Server_LastProcessCheck :: "time option"
  Server_Vars :: "(string \<times> string) list option"
  Server_Metadata :: string
  Server_CreatedAt :: "time option"
  Server_UpdatedAt :: "time option"
  Server_DeletedAt :: "time option"

definition timeExpireProcessCheck :: duration where
  "timeExpireProcessCheck = 2 * 60 * 1000000000"

definition Server_IsOnline :: "time \<Rightarrow> Server \<Rightarrow> bool" where
  "Server_IsOnline now s =
     (case Server_LastProcessCheck s of
        None \<Rightarrow> False
      | Some t \<Rightarrow> if t = 0 then False else Server_ProcessActive s \<and> now - timeExpireProcessCheck < t)"

text \<open>\<open>s.UID.String()[:8]\<close> panics on a shorter text, which a canonical UUID never has.\<close>

definition Server_Hydrate :: "Server \<Rightarrow> Server" where
  "Server_Hydrate s = s\<lparr>Server_UUID := Server_UID s, Server_UUIDShort := take 8 (Server_UID s)\<rparr>"

definition Server_RconPassword :: "Server \<Rightarrow> string" where
  "Server_RconPassword s = (case Server_Rcon s of None \<Rightarrow> '''' | Some p \<Rightarrow> p)"

record FindServer =
  fs_IDs :: "uint list"
  fs_UUIDs :: "uuid list"
  fs_UserIDs :: "uint list"
  fs_Enabled :: "bool option"
  fs_Blocked :: "bool option"
  fs_GameIDs :: "string list"
  fs_DSIDs :: "uint list"
  fs_GameModIDs :: "uint list"
  fs_Names :: "string list"
  fs_WithDeleted :: bool

definition no_server_filter :: FindServer where
  "no_server_filter = \<lparr>fs_IDs = [], fs_UUIDs = [], fs_UserIDs = [], fs_Enabled = None, fs_Blocked = None,
     fs_GameIDs = [], fs_DSIDs = [], fs_GameModIDs = [], fs_Names = [], fs_WithDeleted = False\<rparr>"

definition FindServerByIDs :: "uint list \<Rightarrow> FindServer" where
  "FindServerByIDs ids = no_server_filter\<lparr>fs_IDs := ids\<rparr>"

definition FindServerByNodeIDs :: "uint list \<Rightarrow> FindServer" where
  "FindServerByNodeIDs nodeIDs = no_server_filter\<lparr>fs_DSIDs := nodeIDs\<rparr>"

definition FindServerByUUIDs :: "uuid list \<Rightarrow> FindServer" where
  "FindServerByUUIDs uuids = no_server_filter\<lparr>fs_UUIDs := uuids\<rparr>"

section \<open>The in-memory repository\<close>

record ServerRepository =
  sv_servers :: "(uint \<times> Server) list"
  sv_userServers :: "uint index"
  sv_nextID :: uint32
  sv_uuidIndex :: "uuid index"
  sv_gameIDIndex :: "string index"
  sv_dsidIndex :: "uint index"
  sv_gameModIDIndex :: "uint index"
  sv_nameIndex :: "string index"
  sv_enabledIndex :: "bool index"
  sv_blockedIndex :: "bool index"

definition NewServerRepository :: ServerRepository where
  "NewServerRepository =
     \<lparr>sv_servers = [], sv_userServers = [], sv_nextID = 0, sv_uuidIndex = [], sv_gameIDIndex = [],
      sv_dsidIndex = [], sv_gameModIDIndex = [], sv_nameIndex = [], sv_enabledIndex = [],
      sv_blockedIndex = []\<rparr>"

definition AddUserServer :: "uint \<Rightarrow> uint \<Rightarrow> ServerRepository \<Rightarrow> ServerRepository" where
  "AddUserServer userID serverID r =
     r\<lparr>sv_userServers := index_add (Some userID) serverID (sv_userServers r)\<rparr>"

definition RemoveUserServer :: "uint \<Rightarrow> uint \<Rightarrow> ServerRepository \<Rightarrow> ServerRepository" where
  "RemoveUserServer userID serverID r =
     r\<lparr>sv_userServers := index_remove (Some userID) serverID (sv_userServers r)\<rparr>"

definition SetUserServers ::
    "uint \<Rightarrow> uint list \<Rightarrow> ServerRepository \<Rightarrow> error option \<times> ServerRepository" where
  "SetUserServers userID serverIDs r =
     (let us = AList.delete userID (sv_userServers r)
      in (None, r\<lparr>sv_userServers :=
            (if serverIDs = [] then us else AList.update userID (set serverIDs) us)\<rparr>))"

definition AttachUserServer :: "uint \<Rightarrow> uint \<Rightarrow> ServerRepository \<Rightarrow> error option \<times> ServerRepository" where
  "AttachUserServer userID serverID r = (None, AddUserServer userID serverID r)"

definition DetachUserServer :: "uint \<Rightarrow> uint \<Rightarrow> ServerRepository \<Rightarrow> error option \<times> ServerRepository" where
  "DetachUserServer userID serverID r = (None, RemoveUserServer userID serverID r)"

definition sv_addToIndexes :: "Server \<Rightarrow> ServerRepository \<Rightarrow> ServerRepository" where
  "sv_addToIndexes s r =
     r\<lparr>sv_uuidIndex := index_add (Some (Server_UID s)) (Server_ID s) (sv_uuidIndex r),
       sv_gameIDIndex := index_add (Some (Server_GameID s)) (Server_ID s) (sv_gameIDIndex r),
       sv_dsidIndex := index_add (Some (Server_DSID s)) (Server_ID s) (sv_dsidIndex r),
       sv_gameModIDIndex := index_add (Some (Server_GameModID s)) (Server_ID s) (sv_gameModIDIndex r),
       sv_nameIndex := index_add (Some (Server_Name s)) (Server_ID s) (sv_nameIndex r),
       sv_enabledIndex := index_add (Some (Server_Enabled s)) (Server_ID s) (sv_enabledIndex r),
       sv_blockedIndex := index_add (Some (Server_Blocked s)) (Server_ID s) (sv_blockedIndex r)\<rparr>"

definition sv_removeFromIndexes :: "Server \<Rightarrow> ServerRepository \<Rightarrow> ServerRepository" where
  "sv_removeFromIndexes s r =
     r\<lparr>sv_uuidIndex := index_remove (Some (Server_UID s)) (Server_ID s) (sv_uuidIndex r),
       sv_gameIDIndex := index_remove (Some (Server_GameID s)) (Server_ID s) (sv_gameIDIndex r),
       sv_dsidIndex := index_remove (Some (Server_DSID s)) (Server_ID s) (sv_dsidIndex r),
       sv_gameModIDIndex := index_remove (Some (Server_GameModID s)) (Server_ID s) (sv_gameModIDIndex r),
       sv_nameIndex := index_remove (Some (Server_Name s)) (Server_ID s) (sv_nameIndex r),
       sv_enabledIndex := index_remove (Some (Server_Enabled s)) (Server_ID s) (sv_enabledIndex r),
       sv_blockedIndex := index_remove (Some (Server_Blocked s)) (Server_ID s) (sv_blockedIndex r)\<rparr>"

definition intersectWithUUIDs :: "ServerRepository \<Rightarrow> uint set \<Rightarrow> uuid list \<Rightarrow> uint set" where
  "intersectWithUUIDs r resultIDs uuids = index_intersect (sv_uuidIndex r) uuids resultIDs"

definition intersectWithUserIDs :: "ServerRepository \<Rightarrow> uint set \<Rightarrow> uint list \<Rightarrow> uint set" where
  "intersectWithUserIDs r resultIDs userIDs = index_intersect (sv_userServers r) userIDs resultIDs"

definition intersectWithEnabled :: "ServerRepository \<Rightarrow> uint set \<Rightarrow> bool \<Rightarrow> uint set" where
  "intersectWithEnabled r resultIDs enabled = index_intersect (sv_enabledIndex r) [enabled] resultIDs"

definition intersectWithBlocked :: "ServerRepository \<Rightarrow> uint set \<Rightarrow> bool \<Rightarrow> uint set" where
  "intersectWithBlocked r resultIDs blocked = index_intersect (sv_blockedIndex r) [blocked] resultIDs"

definition intersectWithGameIDs :: "ServerRepository \<Rightarrow> uint set \<Rightarrow> string list \<Rightarrow> uint set" where
  "intersectWithGameIDs r resultIDs gameIDs = index_intersect (sv_gameIDIndex r) gameIDs resultIDs"

definition intersectWithDSIDs :: "ServerRepository \<Rightarrow> uint set \<Rightarrow> uint list \<Rightarrow> uint set" where
  "intersectWithDSIDs r resultIDs dsids = index_intersect (sv_dsidIndex r) dsids resultIDs"

definition intersectWithNames :: "ServerRepository \<Rightarrow> uint set \<Rightarrow> string list \<Rightarrow> uint set" where
  "intersectWithNames r resultIDs names = index_intersect (sv_nameIndex r) names resultIDs"

text \<open>
  Each case of the first selection keeps the identifiers that exist and, unless \<open>WithDeleted\<close> is
  set, are not soft-deleted.
\<close>

definition sv_keep :: "bool \<Rightarrow> ServerRepository \<Rightarrow> uint set \<Rightarrow> uint set" where
  "sv_keep withDeleted r S =
     {i \<in> S. case map_of (sv_servers r) i of
               None \<Rightarrow> False
             | Some s \<Rightarrow> withDeleted \<or> Server_DeletedAt s = None}"

definition getFilteredServerIDs :: "ServerRepository \<Rightarrow> FindServer option \<Rightarrow> uint set" where
  "getFilteredServerIDs r filter0 =
     (case filter0 of
        None \<Rightarrow> sv_keep False r (set (keys (sv_servers r)))
      | Some f \<Rightarrow>
          let result0 = sv_keep (fs_WithDeleted f) r
                (if fs_IDs f \<noteq> [] then set (fs_IDs f)
                 else if fs_UUIDs f \<noteq> [] then index_union (sv_uuidIndex r) (fs_UUIDs f)
                 else if fs_UserIDs f \<noteq> [] then index_union (sv_userServers r) (fs_UserIDs f)
                 else if fs_Enabled f \<noteq> None then index_union (sv_enabledIndex r) [the (fs_Enabled f)]
                 else if fs_Blocked f \<noteq> None then index_union (sv_blockedIndex r) [the (fs_Blocked f)]
                 else if fs_GameIDs f \<noteq> [] then index_union (sv_gameIDIndex r) (fs_GameIDs f)
                 else if fs_DSIDs f \<noteq> [] then index_union (sv_dsidIndex r) (fs_DSIDs f)
                 else if fs_GameModIDs f \<noteq> [] then index_union (sv_gameModIDIndex r) (fs_GameModIDs f)
                 else if fs_Names f \<noteq> [] then index_union (sv_nameIndex r) (fs_Names f)
                 else set (keys (sv_servers r)));
              result1 =
                (if fs_UUIDs f \<noteq> [] \<and> fs_IDs f \<noteq> []
                 then intersectWithUUIDs r result0 (fs_UUIDs f) else result0);
              result2 =
                (if fs_UserIDs f \<noteq> [] \<and> (fs_IDs f \<noteq> [] \<or> fs_UUIDs f \<noteq> [])
                 then intersectWithUserIDs r result1 (fs_UserIDs f) else result1);
              result3 =
                (if fs_Enabled f \<noteq> None \<and> (fs_IDs f \<noteq> [] \<or> fs_UUIDs f \<noteq> [] \<or> fs_UserIDs f \<noteq> [])
                 then intersectWithEnabled r result2 (the (fs_Enabled f)) else result2);
              result4 =
                (if fs_Blocked f \<noteq> None \<and>
                    (fs_IDs f \<noteq> [] \<or> fs_UUIDs f \<noteq> [] \<or> fs_UserIDs f \<noteq> [] \<or> fs_Enabled f \<noteq> None)
                 then intersectWithBlocked r result3 (the (fs_Blocked f)) else result3);
              result5 =
                (if fs_GameIDs f \<noteq> [] \<and>
                    (fs_IDs f \<noteq> [] \<or> fs_UUIDs f \<noteq> [] \<or> fs_UserIDs f \<noteq> [] \<or> fs_Enabled f \<noteq> None \<or>
                     fs_Blocked f \<noteq> None)
                 then intersectWithGameIDs r result4 (fs_GameIDs f) else result4);
              result6 =
                (if fs_DSIDs f \<noteq> [] \<and>
                    (fs_IDs f \<noteq> [] \<or> fs_UUIDs f \<noteq> [] \<or> fs_UserIDs f \<noteq> [] \<or> fs_Enabled f \<noteq> None \<or>
                     fs_Blocked f \<noteq> None \<or> fs_GameIDs f \<noteq> [])
                 then intersectWithDSIDs r result5 (fs_DSIDs f) else result5)
          in if fs_Names f \<noteq> [] \<and>
                (fs_IDs f \<noteq> [] \<or> fs_UUIDs f \<noteq> [] \<or> fs_UserIDs f \<noteq> [] \<or> fs_Enabled f \<noteq> None \<or>
                 fs_Blocked f \<noteq> None \<or> fs_GameIDs f \<noteq> [] \<or> fs_DSIDs f \<noteq> [])
             then intersectWithNames r result6 (fs_Names f) else result6)"

text \<open>\<open>false\<close> before \<open>true\<close>.\<close>

definition compare_bool :: "bool \<Rightarrow> bool \<Rightarrow> int" where
  "compare_bool a b = (if \<not> a \<and> b then - 1 else if a \<and> \<not> b then 1 else 0)"

definition compareServers :: "Server \<Rightarrow> Server \<Rightarrow> string \<Rightarrow> int" where
  "compareServers a b field =
     (if field = ''id'' then cmp_Compare (Server_ID a) (Server_ID b)
      else if field = ''uuid'' then strings_Compare (Server_UID a) (Server_UID b)
      else if field = ''uuid_short'' then strings_Compare (Server_UUIDShort a) (Server_UUIDShort b)
      else if field = ''uid'' then strings_Compare (Server_UID a) (Server_UID b)
      else if field = ''enabled'' then compare_bool (Server_Enabled a) (Server_Enabled b)
      else if field = ''installed'' then cmp_Compare (Server_Installed a) (Server_Installed b)
      else if field = ''blocked'' then compare_bool (Server_Blocked a) (Server_Blocked b)
      else if field = ''name'' then strings_Compare (Server_Name a) (Server_Name b)
      else if field = ''game_id'' then strings_Compare (Server_GameID a) (Server_GameID b)
      else if field = ''ds_id'' then cmp_Compare (Server_DSID a) (Server_DSID b)
      else if field = ''game_mod_id'' then cmp_Compare (Server_GameModID a) (Server_GameModID b)
      else if field = ''server_ip'' then strings_Compare (Server_ServerIP a) (Server_ServerIP b)
      else if field = ''server_port'' then cmp_Compare (Server_ServerPort a) (Server_ServerPort b)
      else if field = ''dir'' then strings_Compare (Server_Dir a) (Server_Dir b)
      else if field = ''process_active'' then compare_bool (Server_ProcessActive a) (Server_ProcessActive b)
      else if field = ''created_at'' then
        compare_option cmp_Compare (Server_CreatedAt a) (Server_CreatedAt b)
      else if field = ''updated_at'' then
        compare_option cmp_Compare (Server_UpdatedAt a) (Server_UpdatedAt b)
      else 0)"

definition server_less :: "Sorting list \<Rightarrow> Server \<Rightarrow> Server \<Rightarrow> bool" where
  "server_less order =
     (if order = [] then (\<lambda>a b. Server_ID a < Server_ID b) else sorting_less compareServers order)"

definition sortServers :: "Server list \<Rightarrow> Sorting list \<Rightarrow> Server list" where
  "sortServers servers order = sort_slice (server_less order) servers"

definition ServerRepository_FindAll ::
    "ServerRepository \<Rightarrow> Sorting list \<Rightarrow> Pagination option \<Rightarrow> Server list result" where
  "ServerRepository_FindAll r order pagination =
     applyPagination pagination
       (sortServers (filter (\<lambda>s. Server_DeletedAt s = None) (map snd (sv_servers r))) order)"

definition sv_candidates :: "ServerRepository \<Rightarrow> FindServer option \<Rightarrow> Server list" where
  "sv_candidates r filter0 =
     map snd (filter (\<lambda>(i, _). i \<in> getFilteredServerIDs r filter0) (sv_servers r))"

definition ServerRepository_Find ::
    "ServerRepository \<Rightarrow> FindServer option \<Rightarrow> Sorting list \<Rightarrow> Pagination option \<Rightarrow> Server list result" where
  "ServerRepository_Find r filter0 order pagination =
     (let f = (case filter0 of None \<Rightarrow> no_server_filter | Some f \<Rightarrow> f)
      in applyPagination pagination (sortServers (sv_candidates r (Some f)) order))"

definition ServerRepository_FindUserServers ::
    "ServerRepository \<Rightarrow> uint \<Rightarrow> FindServer option \<Rightarrow> Sorting list \<Rightarrow> Pagination option \<Rightarrow>
     Server list result" where
  "ServerRepository_FindUserServers r userID filter0 order pagination =
     (let servers = map snd (filter (\<lambda>(i, _). i \<in> index_get (sv_userServers r) userID) (sv_servers r));
          candidateIDs = getFilteredServerIDs r filter0;
          filtered = filter (\<lambda>s. Server_ID s \<in> candidateIDs) servers
      in applyPagination pagination (sortServers filtered order))"

definition ServerRepository_Exists :: "ServerRepository \<Rightarrow> FindServer option \<Rightarrow> bool result" where
  "ServerRepository_Exists r filter0 =
     (case filter0 of
        None \<Rightarrow> Inr False
      | Some f \<Rightarrow>
          let candidateIDs = getFilteredServerIDs r filter0
          in if fs_IDs f \<noteq> [] then Inr (card candidateIDs = length (fs_IDs f))
             else Inr (card candidateIDs > 0))"

definition ServerRepository_Count :: "ServerRepository \<Rightarrow> FindServer option \<Rightarrow> nat result" where
  "ServerRepository_Count r filter0 = Inr (card (getFilteredServerIDs r filter0))"

text \<open>
  The part of \<open>Save\<close> and \<open>SaveBulk\<close> that stores a copy: the old row leaves the indexes, a new row gets
  the next identifier, the stored copy is hydrated and indexed.  The caller's record, with its
  identifier, is returned.
\<close>

definition sv_store :: "Server \<Rightarrow> ServerRepository \<Rightarrow> Server \<times> ServerRepository" where
  "sv_store server0 r0 =
     (let (server, r) =
            (if Server_ID server0 \<noteq> 0 then
               (case map_of (sv_servers r0) (Server_ID server0) of
                  None \<Rightarrow> (server0, r0)
                | Some old \<Rightarrow> (server0, sv_removeFromIndexes old r0))
             else let next = sv_nextID r0 + 1
                  in (server0\<lparr>Server_ID := id_of_counter next\<rparr>, r0\<lparr>sv_nextID := next\<rparr>));
          stored = Server_Hydrate server
      in (server, sv_addToIndexes stored
            (r\<lparr>sv_servers := AList.update (Server_ID server) stored (sv_servers r)\<rparr>)))"

definition ServerRepository_Save ::
    "time \<Rightarrow> Server \<Rightarrow> ServerRepository \<Rightarrow> error option \<times> Server \<times> ServerRepository" where
  "ServerRepository_Save now server0 r =
     (let server1 = server0\<lparr>Server_UpdatedAt := Some now\<rparr>;
          server2 = (if Server_ID server1 = 0 \<and>
                        (Server_CreatedAt server1 = None \<or> Server_CreatedAt server1 = Some 0)
                     then server1\<lparr>Server_CreatedAt := Some now\<rparr> else server1)
      in (None, sv_store server2 r))"

fun ServerRepository_SaveBulk ::
    "Server list \<Rightarrow> ServerRepository \<Rightarrow> error option \<times> Server list \<times> ServerRepository" where
  "ServerRepository_SaveBulk [] r = (None, [], r)"
| "ServerRepository_SaveBulk (s # servers) r =
     (let (s', r') = sv_store s r; (e, servers', r'') = ServerRepository_SaveBulk servers r'
      in (e, s' # servers', r''))"

record ServerStatusUpdate =
  ssu_ID :: uint
  ssu_ProcessActive :: bool
  ssu_LastProcessCheck :: time

definition update_status :: "time \<Rightarrow> uint \<Rightarrow> ServerStatusUpdate \<Rightarrow> ServerRepository \<Rightarrow> ServerRepository" where
  "update_status now nodeID u r =
     (case map_of (sv_servers r) (ssu_ID u) of
        None \<Rightarrow> r
      | Some server \<Rightarrow>
          if Server_DSID server \<noteq> nodeID then r
          else r\<lparr>sv_servers := AList.update (ssu_ID u)
                 (server\<lparr>Server_ProcessActive := ssu_ProcessActive u,
                         Server_LastProcessCheck := Some (ssu_LastProcessCheck u),
                         Server_UpdatedAt := Some now\<rparr>) (sv_servers r)\<rparr>)"

definition UpdateServerStatuses ::
    "time \<Rightarrow> uint \<Rightarrow> ServerStatusUpdate list \<Rightarrow> ServerRepository \<Rightarrow> error option \<times> ServerRepository" where
  "UpdateServerStatuses now nodeID statuses r = (None, fold (update_status now nodeID) statuses r)"

definition drop_server_relation :: "uint \<Rightarrow> uint index \<Rightarrow> uint index" where
  "drop_server_relation i us =
     filter (\<lambda>(_, S). S \<noteq> {}) (map (\<lambda>(u, S). (u, S - {i})) us)"

definition ServerRepository_Delete :: "uint \<Rightarrow> ServerRepository \<Rightarrow> error option \<times> ServerRepository" where
  "ServerRepository_Delete i r0 =
     (let r = (case map_of (sv_servers r0) i of None \<Rightarrow> r0 | Some s \<Rightarrow> sv_removeFromIndexes s r0)
      in (None, r\<lparr>sv_servers := AList.delete i (sv_servers r),
                  sv_userServers := drop_server_relation i (sv_userServers r)\<rparr>))"

definition ServerRepository_SoftDelete ::
    "time \<Rightarrow> uint \<Rightarrow> ServerRepository \<Rightarrow> error option \<times> ServerRepository" where
  "ServerRepository_SoftDelete now i r =
     (case map_of (sv_servers r) i of
        None \<Rightarrow> (None, r)
      | Some s \<Rightarrow>
          (None, r\<lparr>sv_servers := AList.update i (s\<lparr>Server_DeletedAt := Some now\<rparr>) (sv_servers r)\<rparr>))"

section \<open>The interface\<close>

record 's ServerRepo =
  sr_Find :: "'s \<Rightarrow> FindServer option \<Rightarrow> Sorting list \<Rightarrow> Pagination option \<Rightarrow> Server list result"
  sr_Save :: "time \<Rightarrow> Server \<Rightarrow> 's \<Rightarrow> error option \<times> Server \<times> 's"

definition inmemory_servers :: "ServerRepository ServerRepo" where
  "inmemory_servers = \<lparr>sr_Find = ServerRepository_Find, sr_Save = ServerRepository_Save\<rparr>"

abbreviation servers_in :: "ServerRepository \<Rightarrow> uint \<rightharpoonup> Server" where
  "servers_in r \<equiv> map_of (sv_servers r)"

text \<open>What a filter selects, written without indexes; \<open>own\<close> is the relation of users and servers.\<close>

definition server_matches :: "(uint \<Rightarrow> uint set) \<Rightarrow> FindServer \<Rightarrow> Server \<Rightarrow> bool" where
  "server_matches own f s \<longleftrightarrow>
     (fs_WithDeleted f \<or> Server_DeletedAt s = None) \<and>
     (fs_IDs f = [] \<or> Server_ID s \<in> set (fs_IDs f)) \<and>
     (fs_UUIDs f = [] \<or> Server_UID s \<in> set (fs_UUIDs f)) \<and>
     (fs_UserIDs f = [] \<or> (\<exists>u \<in> set (fs_UserIDs f). Server_ID s \<in> own u)) \<and>
     (fs_Enabled f = None \<or> fs_Enabled f = Some (Server_Enabled s)) \<and>
     (fs_Blocked f = None \<or> fs_Blocked f = Some (Server_Blocked s)) \<and>
     (fs_GameIDs f = [] \<or> Server_GameID s \<in> set (fs_GameIDs f)) \<and>
     (fs_DSIDs f = [] \<or> Server_DSID s \<in> set (fs_DSIDs f)) \<and>
     (fs_GameModIDs f = [] \<or> Server_GameModID s \<in> set (fs_GameModIDs f)) \<and>
     (fs_Names f = [] \<or> Server_Name s \<in> set (fs_Names f))"

section \<open>The invariant\<close>

definition sv_idx_ok :: "(uint \<rightharpoonup> Server) \<Rightarrow> ServerRepository \<Rightarrow> bool" where
  "sv_idx_ok tbl r \<longleftrightarrow>
     index_ok (Some \<circ> Server_UID) tbl (sv_uuidIndex r) \<and>
     index_ok (Some \<circ> Server_GameID) tbl (sv_gameIDIndex r) \<and>
     index_ok (Some \<circ> Server_DSID) tbl (sv_dsidIndex r) \<and>
     index_ok (Some \<circ> Server_GameModID) tbl (sv_gameModIDIndex r) \<and>
     index_ok (Some \<circ> Server_Name) tbl (sv_nameIndex r) \<and>
     index_ok (Some \<circ> Server_Enabled) tbl (sv_enabledIndex r) \<and>
     index_ok (Some \<circ> Server_Blocked) tbl (sv_blockedIndex r)"

definition sv_wf :: "ServerRepository \<Rightarrow> bool" where
  "sv_wf r \<longleftrightarrow> wf_map (sv_servers r) \<and>
     (\<forall>i s. servers_in r i = Some s \<longrightarrow> Server_ID s = i \<and> i \<noteq> 0 \<and> unat i \<le> unat (sv_nextID r) \<and>
        Server_UUID s = Server_UID s \<and> Server_UUIDShort s = take 8 (Server_UID s)) \<and>
     sv_idx_ok (servers_in r) r"

definition sv_room :: "ServerRepository \<Rightarrow> nat \<Rightarrow> bool" where
  "sv_room r n \<longleftrightarrow> counter_room (sv_nextID r) n"

lemma sv_wf_new [simp]: "sv_wf NewServerRepository"
  by (simp add: sv_wf_def sv_idx_ok_def NewServerRepository_def)

lemma sv_idx_ok_frame [simp]:
  "sv_idx_ok tbl (r\<lparr>sv_servers := ts\<rparr>) = sv_idx_ok tbl r"
  "sv_idx_ok tbl (r\<lparr>sv_nextID := n\<rparr>) = sv_idx_ok tbl r"
  "sv_idx_ok tbl (r\<lparr>sv_userServers := us\<rparr>) = sv_idx_ok tbl r"
  by (simp_all add: sv_idx_ok_def)

lemma sv_remove_ok:
  assumes "sv_idx_ok tbl r" and "tbl i = Some s" and "Server_ID s = i"
  shows "sv_idx_ok (tbl(i := None)) (sv_removeFromIndexes s r)"
  using assms by (auto simp: sv_idx_ok_def sv_removeFromIndexes_def intro!: index_ok_remove)

lemma sv_add_ok:
  assumes "sv_idx_ok (tbl(i := None)) r" and "Server_ID s = i"
  shows "sv_idx_ok (tbl(i \<mapsto> s)) (sv_addToIndexes s r)"
  using assms by (auto simp: sv_idx_ok_def sv_addToIndexes_def intro!: index_ok_add)

lemma sv_index_simps [simp]:
  "sv_servers (sv_addToIndexes t r) = sv_servers r" "sv_nextID (sv_addToIndexes t r) = sv_nextID r"
  "sv_servers (sv_removeFromIndexes t r) = sv_servers r" "sv_nextID (sv_removeFromIndexes t r) = sv_nextID r"
  "sv_userServers (sv_addToIndexes t r) = sv_userServers r"
  "sv_userServers (sv_removeFromIndexes t r) = sv_userServers r"
  by (simp_all add: sv_addToIndexes_def sv_removeFromIndexes_def)

section \<open>The indexed filter\<close>

definition given :: "bool \<Rightarrow> 'a set \<Rightarrow> 'a set" where
  "given b S = (if b then S else UNIV)"

lemma given_simps [simp]: "given True S = S" "given False S = UNIV"
  by (simp_all add: given_def)

lemma given_iff: "x \<in> given b S \<longleftrightarrow> \<not> b \<or> x \<in> S"
  by (simp add: given_def)

definition sv_live :: "bool \<Rightarrow> ServerRepository \<Rightarrow> uint set" where
  "sv_live wd r = select (servers_in r) (\<lambda>s. wd \<or> Server_DeletedAt s = None)"

lemma sv_keep_Int: "sv_keep wd r S = S \<inter> sv_live wd r"
  by (auto simp: sv_keep_def sv_live_def select_def split: option.splits)

lemma sv_live_keys:
  "set (keys (sv_servers r)) \<inter> sv_live wd r = sv_live wd r"
  "sv_live wd r \<inter> set (keys (sv_servers r)) = sv_live wd r"
  unfolding select_keys by (auto simp: sv_live_def select_def)

lemma filter_as_intersection:
  assumes "fs_GameModIDs f = []"
  shows "getFilteredServerIDs r (Some f) = sv_live (fs_WithDeleted f) r \<inter>
    given (fs_IDs f \<noteq> []) (set (fs_IDs f)) \<inter>
    given (fs_UUIDs f \<noteq> []) (index_union (sv_uuidIndex r) (fs_UUIDs f)) \<inter>
    given (fs_UserIDs f \<noteq> []) (index_union (sv_userServers r) (fs_UserIDs f)) \<inter>
    given (fs_Enabled f \<noteq> None) (index_union (sv_enabledIndex r) [the (fs_Enabled f)]) \<inter>
    given (fs_Blocked f \<noteq> None) (index_union (sv_blockedIndex r) [the (fs_Blocked f)]) \<inter>
    given (fs_GameIDs f \<noteq> []) (index_union (sv_gameIDIndex r) (fs_GameIDs f)) \<inter>
    given (fs_DSIDs f \<noteq> []) (index_union (sv_dsidIndex r) (fs_DSIDs f)) \<inter>
    given (fs_Names f \<noteq> []) (index_union (sv_nameIndex r) (fs_Names f))"
proof -
  note defs = intersectWithUUIDs_def intersectWithUserIDs_def intersectWithEnabled_def
    intersectWithBlocked_def intersectWithGameIDs_def intersectWithDSIDs_def intersectWithNames_def
    index_intersect_Int
  show ?thesis
    unfolding getFilteredServerIDs_def option.case defs assms sv_keep_Int
    by (cases "fs_IDs f = []"; cases "fs_UUIDs f = []"; cases "fs_UserIDs f = []";
        cases "fs_Enabled f = None"; cases "fs_Blocked f = None"; cases "fs_GameIDs f = []";
        cases "fs_DSIDs f = []"; cases "fs_Names f = []")
      (simp_all only: Let_def if_True if_False simp_thms given_simps sv_live_keys Int_UNIV_right Int_UNIV_left Int_ac)
qed

lemma index_ok_in:
  "index_ok (Some \<circ> key) tbl idx \<Longrightarrow> tbl i = Some s \<Longrightarrow> i \<in> index_union idx ks \<longleftrightarrow> key s \<in> set ks"
  by (auto simp: index_ok_union select_def)

lemma getFilteredServerIDs_ok:
  assumes "sv_wf r" and "fs_GameModIDs f = []"
  shows "getFilteredServerIDs r (Some f) =
    select (servers_in r) (server_matches (index_get (sv_userServers r)) f)"
proof (rule set_eqI)
  fix i
  have idx: "index_ok (Some \<circ> Server_UID) (servers_in r) (sv_uuidIndex r)"
    "index_ok (Some \<circ> Server_GameID) (servers_in r) (sv_gameIDIndex r)"
    "index_ok (Some \<circ> Server_DSID) (servers_in r) (sv_dsidIndex r)"
    "index_ok (Some \<circ> Server_Name) (servers_in r) (sv_nameIndex r)"
    "index_ok (Some \<circ> Server_Enabled) (servers_in r) (sv_enabledIndex r)"
    "index_ok (Some \<circ> Server_Blocked) (servers_in r) (sv_blockedIndex r)"
    using assms(1) by (simp_all add: sv_wf_def sv_idx_ok_def)
  show "i \<in> getFilteredServerIDs r (Some f) \<longleftrightarrow>
    i \<in> select (servers_in r) (server_matches (index_get (sv_userServers r)) f)"
  proof (cases "servers_in r i")
    case None
    then show ?thesis by (simp add: filter_as_intersection [OF assms(2)] sv_live_def select_def)
  next
    case (Some s)
    have id: "Server_ID s = i" using assms(1) Some by (simp add: sv_wf_def)
    have en: "(\<not> fs_Enabled f \<noteq> None \<or> Server_Enabled s \<in> set [the (fs_Enabled f)]) \<longleftrightarrow>
        (fs_Enabled f = None \<or> fs_Enabled f = Some (Server_Enabled s))"
      by (cases "fs_Enabled f") auto
    have bl: "(\<not> fs_Blocked f \<noteq> None \<or> Server_Blocked s \<in> set [the (fs_Blocked f)]) \<longleftrightarrow>
        (fs_Blocked f = None \<or> fs_Blocked f = Some (Server_Blocked s))"
      by (cases "fs_Blocked f") auto
    have us: "i \<in> index_union (sv_userServers r) (fs_UserIDs f) \<longleftrightarrow>
        (\<exists>u \<in> set (fs_UserIDs f). Server_ID s \<in> index_get (sv_userServers r) u)"
      by (auto simp: index_union_def id)
    have lv: "i \<in> sv_live (fs_WithDeleted f) r \<longleftrightarrow> fs_WithDeleted f \<or> Server_DeletedAt s = None"
      using Some by (auto simp: sv_live_def select_def)
    have "i \<in> getFilteredServerIDs r (Some f) \<longleftrightarrow> server_matches (index_get (sv_userServers r)) f s"
      unfolding filter_as_intersection [OF assms(2)] Int_iff server_matches_def given_iff
        idx [THEN index_ok_in, OF Some] en bl us lv assms(2) id
      by (simp only: simp_thms conj_assoc)
    then show ?thesis using Some by (auto simp: select_def)
  qed
qed

section \<open>What the writes do\<close>

lemma sv_store_new:
  assumes "sv_wf r" and "sv_room r (Suc n)" and "Server_ID server = 0"
  shows "\<exists>i r'. sv_store server r = (server\<lparr>Server_ID := i\<rparr>, r') \<and> i \<noteq> 0 \<and> servers_in r i = None \<and>
    sv_wf r' \<and> sv_room r' n \<and> sv_userServers r' = sv_userServers r \<and>
    servers_in r' = (servers_in r)(i \<mapsto> Server_Hydrate (server\<lparr>Server_ID := i\<rparr>))"
proof -
  let ?i = "id_of_counter (sv_nextID r + 1)"
  let ?t = "Server_Hydrate (server\<lparr>Server_ID := ?i\<rparr>)"
  let ?q = "r\<lparr>sv_nextID := sv_nextID r + 1, sv_servers := AList.update ?i ?t (sv_servers r)\<rparr>"
  have room: "counter_room (sv_nextID r) (Suc n)" using assms(2) by (simp add: sv_room_def)
  have ks: "\<forall>k \<in> set (keys (sv_servers r)). unat k \<le> unat (sv_nextID r)"
    unfolding select_keys using assms(1) by (auto simp: select_def sv_wf_def)
  have fresh: "?i \<notin> set (keys (sv_servers r))" "?i \<noteq> 0" by (rule next_id_fresh [OF room ks])+
  then have none: "servers_in r ?i = None" by (simp add: map_of_eq_None_iff)
  have run: "sv_store server r = (server\<lparr>Server_ID := ?i\<rparr>, sv_addToIndexes ?t ?q)"
    using assms(3) by (simp add: sv_store_def Let_def)
  have "sv_idx_ok ((servers_in r)(?i := None)) ?q"
    using assms(1) none by (simp add: sv_wf_def fun_upd_idem)
  then have idx: "sv_idx_ok (servers_in (sv_addToIndexes ?t ?q)) (sv_addToIndexes ?t ?q)"
    using sv_add_ok [of "servers_in r" ?i ?q ?t] by (simp add: Server_Hydrate_def)
  have "sv_wf (sv_addToIndexes ?t ?q)"
    using assms(1) idx fresh(2) counter_room_Suc [OF room]
    unfolding sv_wf_def by (auto simp: le_Suc_eq Server_Hydrate_def split: if_splits)
  moreover have "sv_room (sv_addToIndexes ?t ?q) n" using counter_room_step [OF room] by (simp add: sv_room_def)
  ultimately show ?thesis
    using run none fresh(2) by (intro exI [of _ ?i] exI [of _ "sv_addToIndexes ?t ?q"]) simp
qed

lemma sv_store_old:
  assumes "sv_wf r" and "servers_in r (Server_ID server) = Some old"
  shows "\<exists>r'. sv_store server r = (server, r') \<and> sv_wf r' \<and> (\<forall>n. sv_room r n \<longrightarrow> sv_room r' n) \<and>
    sv_userServers r' = sv_userServers r \<and>
    servers_in r' = (servers_in r)(Server_ID server \<mapsto> Server_Hydrate server)"
proof -
  let ?i = "Server_ID server"
  let ?t = "Server_Hydrate server"
  let ?q = "(sv_removeFromIndexes old r)\<lparr>sv_servers := AList.update ?i ?t (sv_servers r)\<rparr>"
  have i: "?i \<noteq> 0" "Server_ID old = ?i" "unat ?i \<le> unat (sv_nextID r)"
    using assms by (auto simp: sv_wf_def)
  have run: "sv_store server r = (server, sv_addToIndexes ?t ?q)"
    using i(1) assms(2) by (simp add: sv_store_def Let_def)
  have "sv_idx_ok ((servers_in r)(?i := None)) (sv_removeFromIndexes old r)"
    using sv_remove_ok [of "servers_in r" r ?i old] assms i(2) by (simp add: sv_wf_def)
  then have idx: "sv_idx_ok (servers_in (sv_addToIndexes ?t ?q)) (sv_addToIndexes ?t ?q)"
    using sv_add_ok [of "servers_in r" ?i ?q ?t] by (simp add: Server_Hydrate_def)
  have "sv_wf (sv_addToIndexes ?t ?q)"
    using assms(1) idx i unfolding sv_wf_def by (auto simp: Server_Hydrate_def split: if_splits)
  then show ?thesis using run by (simp add: sv_room_def)
qed

text \<open>An in-place change of a stored row that the indexes do not see.\<close>

lemma sv_touch_ok:
  assumes "sv_wf r" and "servers_in r i = Some s"
    and "Server_ID t = Server_ID s" "Server_UID t = Server_UID s" "Server_UUID t = Server_UUID s"
      "Server_UUIDShort t = Server_UUIDShort s" "Server_GameID t = Server_GameID s"
      "Server_DSID t = Server_DSID s" "Server_GameModID t = Server_GameModID s"
      "Server_Name t = Server_Name s" "Server_Enabled t = Server_Enabled s" "Server_Blocked t = Server_Blocked s"
  shows "sv_wf (r\<lparr>sv_servers := AList.update i t (sv_servers r)\<rparr>)"
proof -
  have "sv_idx_ok ((servers_in r)(i \<mapsto> t)) r"
    using assms unfolding sv_wf_def sv_idx_ok_def by (auto intro!: index_ok_same_key)
  then show ?thesis using assms unfolding sv_wf_def by (auto split: if_splits)
qed

lemma update_status_ok:
  assumes "sv_wf r"
  shows "sv_wf (update_status now nodeID u r)" and "sv_nextID (update_status now nodeID u r) = sv_nextID r"
proof -
  show "sv_wf (update_status now nodeID u r)"
  proof (cases "servers_in r (ssu_ID u)")
    case None
    then show ?thesis using assms by (simp add: update_status_def)
  next
    case (Some s)
    then show ?thesis
      using assms sv_touch_ok [OF assms Some] by (auto simp: update_status_def)
  qed
qed (simp add: update_status_def split: option.split)

lemma UpdateServerStatuses_ok:
  assumes "sv_wf r"
  shows "sv_wf (snd (UpdateServerStatuses now nodeID statuses r)) \<and>
    sv_nextID (snd (UpdateServerStatuses now nodeID statuses r)) = sv_nextID r"
  using assms unfolding UpdateServerStatuses_def snd_conv
  by (induction statuses arbitrary: r) (simp_all add: update_status_ok)

lemma SoftDelete_ok:
  assumes "sv_wf r"
  shows "sv_wf (snd (ServerRepository_SoftDelete now i r)) \<and>
    sv_nextID (snd (ServerRepository_SoftDelete now i r)) = sv_nextID r"
proof (cases "servers_in r i")
  case None
  then show ?thesis using assms by (simp add: ServerRepository_SoftDelete_def)
next
  case (Some s)
  then show ?thesis
    using sv_touch_ok [OF assms Some, of "s\<lparr>Server_DeletedAt := Some now\<rparr>"]
    by (simp add: ServerRepository_SoftDelete_def)
qed

lemma sv_Delete_ok:
  assumes "sv_wf r"
  shows "sv_wf (snd (ServerRepository_Delete i r)) \<and>
    sv_nextID (snd (ServerRepository_Delete i r)) = sv_nextID r \<and>
    servers_in (snd (ServerRepository_Delete i r)) = (servers_in r)(i := None)"
proof (cases "servers_in r i")
  case None
  then show ?thesis
    using assms unfolding ServerRepository_Delete_def sv_wf_def by (auto simp: fun_upd_idem)
next
  case (Some s)
  have "sv_idx_ok ((servers_in r)(i := None)) (sv_removeFromIndexes s r)"
    by (rule sv_remove_ok) (use assms Some in \<open>auto simp: sv_wf_def\<close>)
  then show ?thesis using assms Some unfolding ServerRepository_Delete_def sv_wf_def by auto
qed

section \<open>The contract\<close>

text \<open>
  What the task handlers rely on: a lookup by identifier returns the live server with that
  identifier, and saving it replaces that row.
\<close>

locale server_repository =
  fixes V :: "'s ServerRepo" and inv :: "'s \<Rightarrow> bool" and view :: "'s \<Rightarrow> uint \<rightharpoonup> Server"
  assumes view_id: "inv s \<Longrightarrow> view s i = Some v \<Longrightarrow> Server_ID v = i"
    and find_by_id: "inv s \<Longrightarrow> sr_Find V s (Some (FindServerByIDs [i])) [] None =
      Inr (case view s i of None \<Rightarrow> [] | Some v \<Rightarrow> if Server_DeletedAt v = None then [v] else [])"
    and save_old: "inv s \<Longrightarrow> view s (Server_ID v) = Some old \<Longrightarrow>
      \<exists>s'. sr_Save V now v s = (None, v\<lparr>Server_UpdatedAt := Some now\<rparr>, s') \<and> inv s' \<and>
      view s' = (view s)(Server_ID v \<mapsto> Server_Hydrate (v\<lparr>Server_UpdatedAt := Some now\<rparr>))"

lemma sv_find_by_id:
  assumes "sv_wf r"
  shows "ServerRepository_Find r (Some (FindServerByIDs [i])) [] None =
    Inr (case servers_in r i of None \<Rightarrow> [] | Some v \<Rightarrow> if Server_DeletedAt v = None then [v] else [])"
proof -
  let ?f = "FindServerByIDs [i]"
  have wf: "wf_map (sv_servers r)" and id: "\<And>j v. servers_in r j = Some v \<Longrightarrow> Server_ID v = j"
    using assms by (auto simp: sv_wf_def)
  have "getFilteredServerIDs r (Some ?f) = select (servers_in r) (\<lambda>v. Server_DeletedAt v = None \<and> Server_ID v = i)"
    by (subst getFilteredServerIDs_ok [OF assms])
      (auto simp: FindServerByIDs_def no_server_filter_def server_matches_def select_def)
  then have sel: "j \<in> getFilteredServerIDs r (Some ?f) \<longleftrightarrow>
      j = i \<and> (\<exists>v. servers_in r i = Some v \<and> Server_DeletedAt v = None)" for j
    using id by (auto simp: select_def)
  have one: "filter (\<lambda>(j, _). j = i) m = (case map_of m i of None \<Rightarrow> [] | Some v \<Rightarrow> [(i, v)])"
    if "wf_map m" for m :: "(uint \<times> Server) list"
    using that by (induction m) (auto simp: wf_map_def filter_empty_conv image_iff split: option.splits)
  have "sv_candidates r (Some ?f) =
      (case servers_in r i of None \<Rightarrow> [] | Some v \<Rightarrow> if Server_DeletedAt v = None then [v] else [])"
  proof (cases "\<exists>v. servers_in r i = Some v \<and> Server_DeletedAt v = None")
    case True
    then have "(\<lambda>(j, v :: Server). j \<in> getFilteredServerIDs r (Some ?f)) = (\<lambda>(j, _). j = i)"
      by (auto simp: sel fun_eq_iff)
    with True one [OF wf] show ?thesis by (auto simp: sv_candidates_def)
  next
    case False
    then have "sv_candidates r (Some ?f) = []" by (auto simp: sv_candidates_def sel filter_empty_conv)
    with False show ?thesis by (auto split: option.split)
  qed
  then show ?thesis
    by (simp add: ServerRepository_Find_def sortServers_def split: option.split)
qed

interpretation inmem_servers: server_repository inmemory_servers sv_wf servers_in
proof (unfold_locales, goal_cases)
  case 1
  then show ?case by (simp add: sv_wf_def)
next
  case 2
  then show ?case by (simp add: inmemory_servers_def sv_find_by_id)
next
  case (3 s v old now)
  then have "servers_in s (Server_ID (v\<lparr>Server_UpdatedAt := Some now\<rparr>)) = Some old" "Server_ID v \<noteq> 0"
    by (auto simp: sv_wf_def)
  then show ?case
    using sv_store_old [OF 3(1), of "v\<lparr>Server_UpdatedAt := Some now\<rparr>" old]
    by (auto simp: inmemory_servers_def ServerRepository_Save_def Let_def)
qed

section \<open>Runs of the repository\<close>

inductive server_repo_step :: "ServerRepository \<Rightarrow> nat \<Rightarrow> ServerRepository \<Rightarrow> bool" where
  save_new: "Server_ID v = 0 \<Longrightarrow> ServerRepository_Save now v r = (e, v', r') \<Longrightarrow> server_repo_step r 1 r'"
| save_old: "servers_in r (Server_ID v) \<noteq> None \<Longrightarrow> ServerRepository_Save now v r = (e, v', r') \<Longrightarrow>
    server_repo_step r 0 r'"
| statuses: "UpdateServerStatuses now nodeID us r = (e, r') \<Longrightarrow> server_repo_step r 0 r'"
| delete: "ServerRepository_Delete i r = (e, r') \<Longrightarrow> server_repo_step r 0 r'"
| soft_delete: "ServerRepository_SoftDelete now i r = (e, r') \<Longrightarrow> server_repo_step r 0 r'"
| set_users: "SetUserServers u ids r = (e, r') \<Longrightarrow> server_repo_step r 0 r'"
| attach: "AttachUserServer u i r = (e, r') \<Longrightarrow> server_repo_step r 0 r'"
| detach: "DetachUserServer u i r = (e, r') \<Longrightarrow> server_repo_step r 0 r'"

inductive server_repo_run :: "ServerRepository \<Rightarrow> nat \<Rightarrow> ServerRepository \<Rightarrow> bool" where
  start: "server_repo_run r 0 r"
| more: "server_repo_run r n r1 \<Longrightarrow> server_repo_step r1 m r2 \<Longrightarrow> server_repo_run r (n + m) r2"

lemma sv_wf_users [simp]: "sv_wf (r\<lparr>sv_userServers := us\<rparr>) = sv_wf r"
  by (simp add: sv_wf_def)

lemma server_repo_step_ok:
  assumes "server_repo_step r m r'" and "sv_wf r" and "sv_room r (m + n)"
  shows "sv_wf r' \<and> sv_room r' n"
  using assms
proof (induction rule: server_repo_step.induct)
  case (save_new v now r e v' r')
  let ?v = "if Server_CreatedAt v = None \<or> Server_CreatedAt v = Some 0
    then v\<lparr>Server_UpdatedAt := Some now, Server_CreatedAt := Some now\<rparr> else v\<lparr>Server_UpdatedAt := Some now\<rparr>"
  have "Server_ID ?v = 0" using save_new by simp
  with save_new show ?case
    using sv_store_new [of r n ?v] by (auto simp: ServerRepository_Save_def Let_def split: if_splits)
next
  case (save_old r v now e v' r')
  then obtain old where "servers_in r (Server_ID v) = Some old" by blast
  then have "servers_in r (Server_ID (v\<lparr>Server_UpdatedAt := Some now\<rparr>)) = Some old" "Server_ID v \<noteq> 0"
    using save_old.prems by (auto simp: sv_wf_def)
  with save_old show ?case
    using sv_store_old [of r "v\<lparr>Server_UpdatedAt := Some now\<rparr>" old]
    by (auto simp: ServerRepository_Save_def Let_def)
next
  case (statuses now nodeID us r e r')
  then show ?case using UpdateServerStatuses_ok [of r now nodeID us] by (auto simp: sv_room_def)
next
  case (delete i r e r')
  then show ?case using sv_Delete_ok [of r i] by (auto simp: sv_room_def)
next
  case (soft_delete now i r e r')
  then show ?case using SoftDelete_ok [of r now i] by (auto simp: sv_room_def)
qed (auto simp: SetUserServers_def AttachUserServer_def DetachUserServer_def AddUserServer_def
    RemoveUserServer_def sv_room_def Let_def)

lemma server_repo_run_ok:
  "server_repo_run r m r' \<Longrightarrow> sv_wf r \<Longrightarrow> sv_room r (m + n) \<Longrightarrow> sv_wf r' \<and> sv_room r' n"
proof (induction arbitrary: n rule: server_repo_run.induct)
  case (more r k r1 m r2)
  then have "sv_wf r1 \<and> sv_room r1 (m + n)" by (simp add: add.assoc)
  then show ?case using server_repo_step_ok [OF more.hyps(2)] by blast
qed simp


section \<open>Theorems\<close>

definition sample_server :: Server where
  "sample_server = \<lparr>Server_ID = 0, Server_UID = ''0192b1e0'', Server_UUID = [], Server_UUIDShort = [],
     Server_Enabled = True, Server_Installed = ServerInstalledStatusInstalled, Server_Blocked = False,
     Server_Name = ''srv'', Server_GameID = ''cs'', Server_DSID = 3, Server_GameModID = 7,
     Server_Expires = None, Server_ServerIP = ''10.0.0.1'', Server_ServerPort = 27015,
     Server_QueryPort = None, Server_RconPort = None, Server_Rcon = None, Server_Dir = ''srv'',
     Server_SuUser = None, Server_CPULimit = None, Server_RAMLimit = None, Server_NetLimit = None,
     Server_StartCommand = None, Server_StopCommand = None, Server_ForceStopCommand = None,
     Server_RestartCommand = None, Server_ProcessActive = False, Server_LastProcessCheck = None,
     Server_Vars = None, Server_Metadata = [], Server_CreatedAt = None, Server_UpdatedAt = None,
     Server_DeletedAt = None\<rparr>"

definition sample_servers :: ServerRepository where
  "sample_servers = snd (snd (ServerRepository_Save 10 sample_server NewServerRepository))"

lemma sample_server_run: "server_repo_run NewServerRepository 1 sample_servers"
proof -
  have "server_repo_step NewServerRepository 1 sample_servers"
    unfolding sample_servers_def
    by (rule server_repo_step.save_new [of sample_server 10 _
          "fst (ServerRepository_Save 10 sample_server NewServerRepository)"
          "fst (snd (ServerRepository_Save 10 sample_server NewServerRepository))"])
      (simp_all add: sample_server_def)
  from server_repo_run.more [OF server_repo_run.start this] show ?thesis by simp
qed

lemma reachable_servers_wf:
  assumes "server_repo_run NewServerRepository n r" and "n < 2 ^ 32"
  shows "sv_wf r"
proof -
  have "sv_room NewServerRepository (n + 0)"
    using assms(2) by (simp add: sv_room_def counter_room_def NewServerRepository_def)
  then show ?thesis using server_repo_run_ok [OF assms(1), of 0] by simp
qed

lemma sample_servers_wf: "sv_wf sample_servers"
  by (rule reachable_servers_wf [OF sample_server_run]) simp

lemma sample_server_1: "servers_in sample_servers 1 = Some (Server_Hydrate (sample_server\<lparr>Server_ID := 1,
    Server_CreatedAt := Some 10, Server_UpdatedAt := Some 10\<rparr>))"
  by (simp add: sample_servers_def sample_server_def ServerRepository_Save_def NewServerRepository_def
      sv_store_def Server_Hydrate_def Let_def id_of_counter_def)



text \<open>
  The field \<open>GameModIDs\<close> of a filter has no effect as soon as identifiers, UUIDs, users, the two
  flags, games or nodes are given too: there is no intersection step for it.
\<close>

theorem game_mod_filter_ignored:
  assumes "fs_IDs f \<noteq> [] \<or> fs_UUIDs f \<noteq> [] \<or> fs_UserIDs f \<noteq> [] \<or> fs_Enabled f \<noteq> None \<or>
    fs_Blocked f \<noteq> None \<or> fs_GameIDs f \<noteq> [] \<or> fs_DSIDs f \<noteq> []"
  shows "getFilteredServerIDs r (Some (f\<lparr>fs_GameModIDs := gameModIDs\<rparr>)) = getFilteredServerIDs r (Some f)"
proof -
  let ?g = "f\<lparr>fs_GameModIDs := gameModIDs\<rparr>"
  have same: "fs_IDs ?g = fs_IDs f" "fs_UUIDs ?g = fs_UUIDs f" "fs_UserIDs ?g = fs_UserIDs f"
    "fs_Enabled ?g = fs_Enabled f" "fs_Blocked ?g = fs_Blocked f" "fs_GameIDs ?g = fs_GameIDs f"
    "fs_DSIDs ?g = fs_DSIDs f" "fs_Names ?g = fs_Names f" "fs_WithDeleted ?g = fs_WithDeleted f"
    by simp_all
  show ?thesis
    unfolding getFilteredServerIDs_def option.case same
    by (rule arg_cong2 [where f = Let, OF arg_cong [where f = "sv_keep (fs_WithDeleted f) r"] refl]) (use assms in auto)
qed

theorem game_mod_filter_ignored_witness:
  "Server_GameModID sample_server = 7 \<and>
    1 \<in> getFilteredServerIDs sample_servers (Some ((FindServerByIDs [1])\<lparr>fs_GameModIDs := [8]\<rparr>))"
proof -
  have "getFilteredServerIDs sample_servers (Some ((FindServerByIDs [1])\<lparr>fs_GameModIDs := [8]\<rparr>)) =
      getFilteredServerIDs sample_servers (Some (FindServerByIDs [1]))"
    by (rule game_mod_filter_ignored) (simp add: FindServerByIDs_def)
  moreover have "1 \<in> getFilteredServerIDs sample_servers (Some (FindServerByIDs [1]))"
    using sample_server_1
    by (simp add: getFilteredServerIDs_ok [OF sample_servers_wf] FindServerByIDs_def no_server_filter_def
        select_def server_matches_def Server_Hydrate_def sample_server_def)
  ultimately show ?thesis by (simp add: sample_server_def)
qed

lemma slice_subset: "slice xs lo hi = Inr ys \<Longrightarrow> set ys \<subseteq> set xs"
  by (auto simp: slice_def dest: in_set_takeD in_set_dropD split: if_splits)

lemma page_subset: "applyPagination p xs = Inr ys \<Longrightarrow> set ys \<subseteq> set xs"
  by (auto simp: applyPagination_def Let_def dest: slice_subset split: option.splits if_splits)

lemma listed_servers:
  assumes "\<not> fs_WithDeleted f"
    and "ServerRepository_Find r (Some f) order p = Inr xs \<or> ServerRepository_FindAll r order p = Inr xs \<or>
      ServerRepository_FindUserServers r u (Some f) order p = Inr xs"
    and "sv_wf r" and "s \<in> set xs"
  shows "Server_DeletedAt s = None \<and> servers_in r (Server_ID s) = Some s"
proof -
  have row: "servers_in r i = Some v" "Server_ID v = i" if "(i, v) \<in> set (sv_servers r)" for i v
    using that assms(3) by (auto simp: sv_wf_def map_of_eq_Some)
  have live: "Server_DeletedAt v = None" if "i \<in> getFilteredServerIDs r (Some f)" "servers_in r i = Some v" for i v
  proof -
    have "getFilteredServerIDs r (Some f) \<subseteq> sv_live (fs_WithDeleted f) r"
      unfolding getFilteredServerIDs_def Let_def sv_keep_Int intersectWithUUIDs_def intersectWithUserIDs_def
        intersectWithEnabled_def intersectWithBlocked_def intersectWithGameIDs_def intersectWithDSIDs_def
        intersectWithNames_def index_intersect_Int option.case
      by (simp split: if_split) blast
    then show ?thesis using that assms(1) by (auto simp: sv_live_def select_def)
  qed
  consider "ServerRepository_Find r (Some f) order p = Inr xs" | "ServerRepository_FindAll r order p = Inr xs"
    | "ServerRepository_FindUserServers r u (Some f) order p = Inr xs"
    using assms(2) by blast
  then show ?thesis
  proof cases
    case 1
    then have "s \<in> set (sv_candidates r (Some f))"
      using page_subset assms(4) by (fastforce simp: ServerRepository_Find_def sortServers_def)
    then show ?thesis using row live by (fastforce simp: sv_candidates_def)
  next
    case 2
    then have "s \<in> set (filter (\<lambda>s. Server_DeletedAt s = None) (map snd (sv_servers r)))"
      using page_subset assms(4) by (fastforce simp: ServerRepository_FindAll_def sortServers_def)
    then show ?thesis using row by fastforce
  next
    case 3
    then have "s \<in> snd ` set (sv_servers r)" "Server_ID s \<in> getFilteredServerIDs r (Some f)"
      using page_subset assms(4) by (fastforce simp: ServerRepository_FindUserServers_def sortServers_def Let_def)+
    then show ?thesis using row live by fastforce
  qed
qed

text \<open>
  A soft-deleted server is gone from every listing that does not ask for deleted rows, and it is
  the only row that left the table's live part.
\<close>

theorem soft_delete_hides:
  assumes "sv_wf r" and "ServerRepository_SoftDelete now i r = (e, r')" and "\<not> fs_WithDeleted f"
    and "ServerRepository_Find r' (Some f) order p = Inr xs \<or> ServerRepository_FindAll r' order p = Inr xs \<or>
      ServerRepository_FindUserServers r' u (Some f) order p = Inr xs"
  shows "i \<notin> Server_ID ` set xs \<and> (\<forall>j. j \<noteq> i \<longrightarrow> servers_in r' j = servers_in r j)"
proof -
  have "sv_wf r'" using SoftDelete_ok [OF assms(1), of now i] assms(2) by simp
  then have "s \<in> set xs \<Longrightarrow> Server_DeletedAt s = None \<and> servers_in r' (Server_ID s) = Some s" for s
    using listed_servers [OF assms(3,4)] by blast
  moreover have "Server_DeletedAt s \<noteq> None" if "servers_in r' i = Some s" for s
    using assms(2) that by (auto simp: ServerRepository_SoftDelete_def split: option.splits)
  ultimately have "i \<notin> Server_ID ` set xs" by fastforce
  moreover have "\<forall>j. j \<noteq> i \<longrightarrow> servers_in r' j = servers_in r j"
    using assms(2) by (auto simp: ServerRepository_SoftDelete_def split: option.splits)
  ultimately show ?thesis by blast
qed

theorem soft_delete_hides_witness:
  "\<exists>r' xs. ServerRepository_SoftDelete 20 1 sample_servers = (None, r') \<and>
    ServerRepository_FindAll r' [] None = Inr xs \<and> 1 \<notin> Server_ID ` set xs"
proof -
  let ?r = "snd (ServerRepository_SoftDelete 20 1 sample_servers)"
  have run: "ServerRepository_SoftDelete 20 1 sample_servers = (None, ?r)"
    using sample_server_1 by (simp add: ServerRepository_SoftDelete_def)
  have "ServerRepository_FindAll ?r [] None = Inr (sortServers (filter (\<lambda>s. Server_DeletedAt s = None)
      (map snd (sv_servers ?r))) [])" (is "_ = Inr ?xs")
    by (simp add: ServerRepository_FindAll_def)
  with soft_delete_hides [OF sample_servers_wf run, of no_server_filter "[]" None ?xs]
  have "1 \<notin> Server_ID ` set ?xs" by (simp add: no_server_filter_def)
  with run \<open>ServerRepository_FindAll ?r [] None = Inr ?xs\<close> show ?thesis by blast
qed

lemma update_status_isolated:
  assumes "servers_in r j = Some s"
  shows "\<exists>a l w. servers_in (update_status now nodeID u r) j =
    Some (s\<lparr>Server_ProcessActive := a, Server_LastProcessCheck := l, Server_UpdatedAt := w\<rparr>)"
    (is "\<exists>a l w. ?P a l w")
    and "Server_DSID s \<noteq> nodeID \<Longrightarrow> servers_in (update_status now nodeID u r) j = Some s"
proof -
  have "?P (Server_ProcessActive s) (Server_LastProcessCheck s) (Server_UpdatedAt s) \<or>
      ?P (ssu_ProcessActive u) (Some (ssu_LastProcessCheck u)) (Some now)"
    using assms by (auto simp: update_status_def split: option.split)
  then show "\<exists>a l w. ?P a l w" by blast
  show "Server_DSID s \<noteq> nodeID \<Longrightarrow> servers_in (update_status now nodeID u r) j = Some s"
    using assms by (auto simp: update_status_def split: option.split)
qed

lemma update_status_absent:
  "servers_in r j = None \<Longrightarrow> servers_in (update_status now nodeID u r) j = None"
  by (auto simp: update_status_def split: option.split)

text \<open>
  A status report of a node cannot touch what is not its own: whatever the reported list, servers
  of other nodes stay as they are, no server appears or disappears, and of the node's own servers at
  most the process flag and the two timestamps change.
\<close>

theorem status_report_isolated:
  assumes "UpdateServerStatuses now nodeID statuses r = (e, r')"
  shows "case servers_in r j of
      None \<Rightarrow> servers_in r' j = None
    | Some s \<Rightarrow> (if Server_DSID s \<noteq> nodeID then servers_in r' j = Some s
        else \<exists>a l w. servers_in r' j =
          Some (s\<lparr>Server_ProcessActive := a, Server_LastProcessCheck := l, Server_UpdatedAt := w\<rparr>))"
proof -
  have none: "servers_in q j = None \<Longrightarrow> servers_in (fold (update_status now nodeID) us q) j = None" for us q
    by (induction us arbitrary: q) (simp_all add: update_status_absent)
  have other: "servers_in q j = Some s \<Longrightarrow> Server_DSID s \<noteq> nodeID \<Longrightarrow>
      servers_in (fold (update_status now nodeID) us q) j = Some s" for us q s
    by (induction us arbitrary: q) (auto dest: update_status_isolated(2))
  have own: "servers_in q j = Some (s\<lparr>Server_ProcessActive := a0, Server_LastProcessCheck := l0,
      Server_UpdatedAt := w0\<rparr>) \<Longrightarrow> \<exists>a l w. servers_in (fold (update_status now nodeID) us q) j =
      Some (s\<lparr>Server_ProcessActive := a, Server_LastProcessCheck := l, Server_UpdatedAt := w\<rparr>)" for us q s a0 l0 w0
  proof (induction us arbitrary: q a0 l0 w0)
    case (Cons u us)
    from update_status_isolated(1) [OF Cons.prems, of now nodeID u] show ?case by (auto intro: Cons.IH)
  qed auto
  have r': "r' = fold (update_status now nodeID) statuses r"
    using assms by (simp add: UpdateServerStatuses_def)
  show ?thesis
  proof (cases "servers_in r j")
    case None
    then show ?thesis using none r' by simp
  next
    case (Some s)
    have "servers_in r j = Some (s\<lparr>Server_ProcessActive := Server_ProcessActive s,
        Server_LastProcessCheck := Server_LastProcessCheck s, Server_UpdatedAt := Server_UpdatedAt s\<rparr>)"
      using Some by simp
    from own [OF this, of statuses] other [OF Some, of statuses] show ?thesis unfolding r' Some by simp
  qed
qed

theorem status_report_isolated_witness:
  "\<exists>r'. UpdateServerStatuses 30 4 [\<lparr>ssu_ID = 1, ssu_ProcessActive = True, ssu_LastProcessCheck = 29\<rparr>]
      sample_servers = (None, r') \<and> servers_in r' 1 = servers_in sample_servers 1"
proof -
  let ?us = "[\<lparr>ssu_ID = 1, ssu_ProcessActive = True, ssu_LastProcessCheck = 29\<rparr>]"
  have run: "UpdateServerStatuses 30 4 ?us sample_servers =
      (None, fold (update_status 30 4) ?us sample_servers)"
    by (simp add: UpdateServerStatuses_def)
  from status_report_isolated [OF run, of 1] sample_server_1
  have "servers_in (fold (update_status 30 4) ?us sample_servers) 1 = servers_in sample_servers 1"
    by (simp add: Server_Hydrate_def sample_server_def)
  with run show ?thesis by blast
qed

end
