(* ===== verification/Task_Handler.thy ===== *)
theory Task_Handler
  imports DaemonTask_Repository Server_Repository
begin

text \<open>
  What the panel does with the reports of a daemon: the conversions of \<open>internal/grpc/gateway/converters.go\<close>
  for tasks and the handler \<open>internal/grpc/handlers/task_handler.go\<close>.

  The handler works on a world of three parts: the store of its task repository, the store of its
  server repository and the sequence of messages it has handed to the publisher and to the plugin
  dispatcher.  The repositories are the interface records of the two repository theories.  A failure
  to publish is only logged, so it does not appear.  \<open>now\<close> is the instant of the call.
\<close>

section \<open>The wire types\<close>

datatype proto_DaemonTaskStatus =
    DAEMON_TASK_STATUS_UNSPECIFIED | DAEMON_TASK_STATUS_WAITING | DAEMON_TASK_STATUS_WORKING
  | DAEMON_TASK_STATUS_ERROR | DAEMON_TASK_STATUS_SUCCESS | DAEMON_TASK_STATUS_CANCELED
  | DAEMON_TASK_STATUS_OTHER int

datatype proto_DaemonTaskType =
    DAEMON_TASK_TYPE_UNSPECIFIED | DAEMON_TASK_TYPE_SERVER_START | DAEMON_TASK_TYPE_SERVER_STOP
  | DAEMON_TASK_TYPE_SERVER_RESTART | DAEMON_TASK_TYPE_SERVER_UPDATE | DAEMON_TASK_TYPE_SERVER_INSTALL
  | DAEMON_TASK_TYPE_SERVER_DELETE | DAEMON_TASK_TYPE_SERVER_MOVE | DAEMON_TASK_TYPE_CMD_EXEC

record proto_DaemonTask =
  proto_Id :: uint64
  proto_RunAfterId :: "uint64 option"
  proto_NodeId :: uint64
  proto_ServerId :: "uint64 option"
  proto_TaskType :: proto_DaemonTaskType
  proto_Data :: "string option"
  proto_Cmd :: "string option"
  proto_Output :: "string option"
  proto_Status :: proto_DaemonTaskStatus
  proto_CreatedAt :: "time option"
  proto_UpdatedAt :: "time option"

record TaskStatusUpdate =
  tsu_TaskId :: uint64
  tsu_Status :: proto_DaemonTaskStatus
  tsu_Message :: string

record TaskOutput =
  to_TaskId :: uint64
  to_OutputChunk :: string
  to_IsFinal :: bool

definition domainTaskTypeToProto :: "DaemonTaskType \<Rightarrow> proto_DaemonTaskType" where
  "domainTaskTypeToProto t =
     (if t = DaemonTaskTypeServerStart then DAEMON_TASK_TYPE_SERVER_START
      else if t = DaemonTaskTypeServerStop then DAEMON_TASK_TYPE_SERVER_STOP
      else if t = DaemonTaskTypeServerRestart then DAEMON_TASK_TYPE_SERVER_RESTART
      else if t = DaemonTaskTypeServerUpdate then DAEMON_TASK_TYPE_SERVER_UPDATE
      else if t = DaemonTaskTypeServerInstall then DAEMON_TASK_TYPE_SERVER_INSTALL
      else if t = DaemonTaskTypeServerDelete then DAEMON_TASK_TYPE_SERVER_DELETE
      else if t = DaemonTaskTypeServerMove then DAEMON_TASK_TYPE_SERVER_MOVE
      else if t = DaemonTaskTypeCmdExec then DAEMON_TASK_TYPE_CMD_EXEC
      else DAEMON_TASK_TYPE_UNSPECIFIED)"

definition domainTaskStatusToProto :: "DaemonTaskStatus \<Rightarrow> proto_DaemonTaskStatus" where
  "domainTaskStatusToProto s =
     (if s = DaemonTaskStatusWaiting then DAEMON_TASK_STATUS_WAITING
      else if s = DaemonTaskStatusWorking then DAEMON_TASK_STATUS_WORKING
      else if s = DaemonTaskStatusError then DAEMON_TASK_STATUS_ERROR
      else if s = DaemonTaskStatusSuccess then DAEMON_TASK_STATUS_SUCCESS
      else if s = DaemonTaskStatusCanceled then DAEMON_TASK_STATUS_CANCELED
      else DAEMON_TASK_STATUS_UNSPECIFIED)"

definition ProtoTaskStatusToDomain :: "proto_DaemonTaskStatus \<Rightarrow> DaemonTaskStatus" where
  "ProtoTaskStatusToDomain s =
     (case s of
        DAEMON_TASK_STATUS_WAITING \<Rightarrow> DaemonTaskStatusWaiting
      | DAEMON_TASK_STATUS_WORKING \<Rightarrow> DaemonTaskStatusWorking
      | DAEMON_TASK_STATUS_ERROR \<Rightarrow> DaemonTaskStatusError
      | DAEMON_TASK_STATUS_SUCCESS \<Rightarrow> DaemonTaskStatusSuccess
      | DAEMON_TASK_STATUS_CANCELED \<Rightarrow> DaemonTaskStatusCanceled
      | _ \<Rightarrow> DaemonTaskStatusWaiting)"

definition DomainDaemonTaskToProto :: "DaemonTask \<Rightarrow> proto_DaemonTask" where
  "DomainDaemonTaskToProto task =
     \<lparr>proto_Id = DaemonTask_ID task, proto_RunAfterId = DaemonTask_RunAftID task,
      proto_NodeId = DaemonTask_DedicatedServerID task, proto_ServerId = DaemonTask_ServerID task,
      proto_TaskType = domainTaskTypeToProto (DaemonTask_Task task), proto_Data = DaemonTask_Data task,
      proto_Cmd = DaemonTask_Cmd task, proto_Output = DaemonTask_Output task,
      proto_Status = domainTaskStatusToProto (DaemonTask_Status task),
      proto_CreatedAt = DaemonTask_CreatedAt task, proto_UpdatedAt = DaemonTask_UpdatedAt task\<rparr>"

section \<open>The world\<close>

datatype plugin_event_type =
    EVENT_TYPE_DAEMON_TASK_CREATED | EVENT_TYPE_DAEMON_TASK_STARTED
  | EVENT_TYPE_DAEMON_TASK_COMPLETED | EVENT_TYPE_DAEMON_TASK_FAILED

datatype task_event =
    TaskStatusMessage uint64 DaemonTaskStatus uint string
  | TaskCompleteMessage uint64 DaemonTaskStatus uint
  | TaskOutputMessage uint64 string bool
  | PluginTaskEvent plugin_event_type uint uint "uint option" DaemonTaskType DaemonTaskStatus

record ('t, 's) world =
  w_tasks :: 't
  w_servers :: 's
  w_events :: "task_event list"

record ('t, 's) TaskHandler =
  th_daemonTaskRepo :: "'t TaskRepo"
  th_serverRepo :: "'s ServerRepo option"
  th_publisher :: bool
  th_pluginEvents :: bool

definition emit :: "bool \<Rightarrow> task_event \<Rightarrow> ('t, 's) world \<Rightarrow> ('t, 's) world" where
  "emit on e w = (if on then w\<lparr>w_events := w_events w @ [e]\<rparr> else w)"

section \<open>The handler\<close>

definition isTerminalStatus :: "DaemonTaskStatus \<Rightarrow> bool" where
  "isTerminalStatus s \<longleftrightarrow>
     s = DaemonTaskStatusSuccess \<or> s = DaemonTaskStatusError \<or> s = DaemonTaskStatusCanceled"

definition resolveInstalledStatus ::
    "DaemonTaskType \<Rightarrow> DaemonTaskStatus \<Rightarrow> ServerInstalledStatus \<times> bool" where
  "resolveInstalledStatus taskType taskStatus =
     (if taskType = DaemonTaskTypeServerInstall then
        (if taskStatus = DaemonTaskStatusWorking then (ServerInstalledStatusInstallationInProg, True)
         else if taskStatus = DaemonTaskStatusSuccess then (ServerInstalledStatusInstalled, True)
         else if taskStatus = DaemonTaskStatusError \<or> taskStatus = DaemonTaskStatusCanceled
         then (ServerInstalledStatusNotInstalled, True)
         else (0, False))
      else if taskType = DaemonTaskTypeServerDelete then
        (if taskStatus = DaemonTaskStatusSuccess then (ServerInstalledStatusNotInstalled, True) else (0, False))
      else (0, False))"

definition updateServerInstalledStatus ::
    "('t, 's) TaskHandler \<Rightarrow> time \<Rightarrow> DaemonTask \<Rightarrow> ('t, 's) world \<Rightarrow> ('t, 's) world" where
  "updateServerInstalledStatus h now task w =
     (case (th_serverRepo h, DaemonTask_ServerID task) of
        (Some repo, Some serverID) \<Rightarrow>
          (case resolveInstalledStatus (DaemonTask_Task task) (DaemonTask_Status task) of
             (installed, ok) \<Rightarrow>
               if \<not> ok then w
               else (case sr_Find repo (w_servers w) (Some (FindServerByIDs [serverID])) [] None of
                       Inl e \<Rightarrow> w
                     | Inr [] \<Rightarrow> w
                     | Inr (server # _) \<Rightarrow>
                         (case sr_Save repo now (server\<lparr>Server_Installed := installed\<rparr>) (w_servers w) of
                            (_, _, s') \<Rightarrow> w\<lparr>w_servers := s'\<rparr>)))
      | _ \<Rightarrow> w)"

definition publishTaskStatus ::
    "('t, 's) TaskHandler \<Rightarrow> uint64 \<Rightarrow> DaemonTaskStatus \<Rightarrow> uint \<Rightarrow> string \<Rightarrow> ('t, 's) world \<Rightarrow> ('t, 's) world" where
  "publishTaskStatus h taskID status serverID message =
     emit (th_publisher h) (TaskStatusMessage taskID status serverID message)"

definition publishTaskComplete ::
    "('t, 's) TaskHandler \<Rightarrow> uint64 \<Rightarrow> DaemonTaskStatus \<Rightarrow> uint \<Rightarrow> ('t, 's) world \<Rightarrow> ('t, 's) world" where
  "publishTaskComplete h taskID status serverID =
     emit (th_publisher h) (TaskCompleteMessage taskID status serverID)"

definition publishTaskOutput ::
    "('t, 's) TaskHandler \<Rightarrow> uint64 \<Rightarrow> string \<Rightarrow> bool \<Rightarrow> ('t, 's) world \<Rightarrow> ('t, 's) world" where
  "publishTaskOutput h taskID chunk isFinal =
     emit (th_publisher h) (TaskOutputMessage taskID chunk isFinal)"

definition event_of_status :: "DaemonTaskStatus \<Rightarrow> plugin_event_type" where
  "event_of_status s =
     (if s = DaemonTaskStatusWorking then EVENT_TYPE_DAEMON_TASK_STARTED
      else if s = DaemonTaskStatusSuccess then EVENT_TYPE_DAEMON_TASK_COMPLETED
      else EVENT_TYPE_DAEMON_TASK_FAILED)"

definition dispatchPluginTaskEvent ::
    "('t, 's) TaskHandler \<Rightarrow> DaemonTask \<Rightarrow> ('t, 's) world \<Rightarrow> ('t, 's) world" where
  "dispatchPluginTaskEvent h task =
     emit (th_pluginEvents h)
       (PluginTaskEvent (event_of_status (DaemonTask_Status task)) (DaemonTask_ID task)
          (DaemonTask_DedicatedServerID task) (DaemonTask_ServerID task) (DaemonTask_Task task)
          (DaemonTask_Status task))"

definition HandleTaskStatusUpdate ::
    "('t, 's) TaskHandler \<Rightarrow> time \<Rightarrow> uint64 \<Rightarrow> TaskStatusUpdate \<Rightarrow> ('t, 's) world \<Rightarrow>
     error option \<times> ('t, 's) world" where
  "HandleTaskStatusUpdate h now nodeID update w =
     (case tr_Find (th_daemonTaskRepo h) (w_tasks w) (Some (FindDaemonTaskByIDs [tsu_TaskId update])) [] None of
        Inl e \<Rightarrow> (Some (WithMessage e ''find task''), w)
      | Inr [] \<Rightarrow> (None, w)
      | Inr (task0 # _) \<Rightarrow>
          let prevStatus = DaemonTask_Status task0;
              task1 = task0\<lparr>DaemonTask_Status := ProtoTaskStatusToDomain (tsu_Status update)\<rparr>
          in case tr_Save (th_daemonTaskRepo h) now task1 (w_tasks w) of
               (Some e, _, t') \<Rightarrow> (Some (WithMessage e ''save task status''), w\<lparr>w_tasks := t'\<rparr>)
             | (None, task, t') \<Rightarrow>
                 let w1 = updateServerInstalledStatus h now task (w\<lparr>w_tasks := t'\<rparr>);
                     w2 = publishTaskStatus h (tsu_TaskId update) (DaemonTask_Status task)
                            (DaemonTask_DedicatedServerID task) (tsu_Message update) w1;
                     w3 = (if isTerminalStatus (DaemonTask_Status task)
                           then publishTaskComplete h (tsu_TaskId update) (DaemonTask_Status task)
                                  (DaemonTask_DedicatedServerID task) w2
                           else w2);
                     w4 = (if prevStatus \<noteq> DaemonTask_Status task \<and>
                              (isTerminalStatus (DaemonTask_Status task) \<or>
                               DaemonTask_Status task = DaemonTaskStatusWorking)
                           then dispatchPluginTaskEvent h task w3 else w3)
                 in (None, w4))"

definition HandleTaskOutput ::
    "('t, 's) TaskHandler \<Rightarrow> uint64 \<Rightarrow> TaskOutput \<Rightarrow> ('t, 's) world \<Rightarrow> error option \<times> ('t, 's) world" where
  "HandleTaskOutput h nodeID output w =
     (if to_OutputChunk output = [] then (None, w)
      else case tr_AppendOutput (th_daemonTaskRepo h) (to_TaskId output) (to_OutputChunk output) (w_tasks w) of
             (Some e, t') \<Rightarrow> (Some (WithMessage e ''append task output''), w\<lparr>w_tasks := t'\<rparr>)
           | (None, t') \<Rightarrow>
               (None, publishTaskOutput h (to_TaskId output) (to_OutputChunk output) (to_IsFinal output)
                        (w\<lparr>w_tasks := t'\<rparr>)))"

definition tasks_of_node :: "uint64 \<Rightarrow> DaemonTaskStatus \<Rightarrow> FindDaemonTask" where
  "tasks_of_node nodeID status =
     no_task_filter\<lparr>fdt_DedicatedServerIDs := [nodeID], fdt_Statuses := [status]\<rparr>"

definition GetPendingTasks ::
    "('t, 's) TaskHandler \<Rightarrow> uint64 \<Rightarrow> ('t, 's) world \<Rightarrow> proto_DaemonTask list result" where
  "GetPendingTasks h nodeID w =
     (case tr_Find (th_daemonTaskRepo h) (w_tasks w)
             (Some (tasks_of_node nodeID DaemonTaskStatusWaiting)) [] None of
        Inl e \<Rightarrow> Inl (WithMessage e ''find pending tasks'')
      | Inr tasks \<Rightarrow> Inr (map DomainDaemonTaskToProto tasks))"

definition AbandonedTaskMessage :: string where
  "AbandonedTaskMessage = ''Daemon was restarted before task could complete''"

definition markTaskAbandoned ::
    "('t, 's) TaskHandler \<Rightarrow> time \<Rightarrow> DaemonTask \<Rightarrow> ('t, 's) world \<Rightarrow> error option \<times> ('t, 's) world" where
  "markTaskAbandoned h now task0 w =
     (case tr_AppendOutput (th_daemonTaskRepo h) (DaemonTask_ID task0) AbandonedTaskMessage (w_tasks w) of
        (Some e, t') \<Rightarrow> (Some (WithMessage e ''append abandoned output''), w\<lparr>w_tasks := t'\<rparr>)
      | (None, t') \<Rightarrow>
          let task1 = task0\<lparr>DaemonTask_Status := DaemonTaskStatusError, DaemonTask_Output := None\<rparr>
          in case tr_Save (th_daemonTaskRepo h) now task1 t' of
               (Some e, _, t'') \<Rightarrow> (Some (WithMessage e ''save task error status''), w\<lparr>w_tasks := t''\<rparr>)
             | (None, task, t'') \<Rightarrow>
                 let w1 = updateServerInstalledStatus h now task (w\<lparr>w_tasks := t''\<rparr>);
                     w2 = publishTaskStatus h (DaemonTask_ID task) (DaemonTask_Status task)
                            (DaemonTask_DedicatedServerID task) AbandonedTaskMessage w1;
                     w3 = publishTaskComplete h (DaemonTask_ID task) (DaemonTask_Status task)
                            (DaemonTask_DedicatedServerID task) w2
                 in (None, dispatchPluginTaskEvent h task w3))"

fun mark_abandoned ::
    "('t, 's) TaskHandler \<Rightarrow> time \<Rightarrow> uint64 list \<Rightarrow> DaemonTask list \<Rightarrow> ('t, 's) world \<Rightarrow> nat \<times> ('t, 's) world" where
  "mark_abandoned h now inFlight [] w = (0, w)"
| "mark_abandoned h now inFlight (task # tasks) w =
     (if DaemonTask_ID task \<in> set inFlight then mark_abandoned h now inFlight tasks w
      else case markTaskAbandoned h now task w of
             (Some e, w') \<Rightarrow> mark_abandoned h now inFlight tasks w'
           | (None, w') \<Rightarrow>
               (case mark_abandoned h now inFlight tasks w' of (n, w'') \<Rightarrow> (n + 1, w'')))"

definition ReconcileWorkingTasks ::
    "('t, 's) TaskHandler \<Rightarrow> time \<Rightarrow> uint64 \<Rightarrow> uint64 list \<Rightarrow> ('t, 's) world \<Rightarrow>
     nat result \<times> ('t, 's) world" where
  "ReconcileWorkingTasks h now nodeID inFlightIDs w =
     (case tr_Find (th_daemonTaskRepo h) (w_tasks w)
             (Some (tasks_of_node nodeID DaemonTaskStatusWorking)) [] None of
        Inl e \<Rightarrow> (Inl (WithMessage e ''find working tasks''), w)
      | Inr tasks \<Rightarrow>
          if tasks = [] then (Inr 0, w)
          else case mark_abandoned h now inFlightIDs tasks w of (marked, w') \<Rightarrow> (Inr marked, w'))"

section \<open>What the handler does, over tables\<close>

text \<open>
  The abstract panel: the stored tasks and servers as maps and the emitted messages.  The
  specification says what each report does to it.
\<close>

record panel =
  p_tasks :: "uint \<rightharpoonup> DaemonTask"
  p_servers :: "uint \<rightharpoonup> Server"
  p_events :: "task_event list"

definition install_effect :: "time \<Rightarrow> DaemonTask \<Rightarrow> (uint \<rightharpoonup> Server) \<Rightarrow> (uint \<rightharpoonup> Server)" where
  "install_effect now task m =
     (case DaemonTask_ServerID task of
        None \<Rightarrow> m
      | Some i \<Rightarrow>
          (case (resolveInstalledStatus (DaemonTask_Task task) (DaemonTask_Status task), m i) of
             ((st, True), Some v) \<Rightarrow>
               if Server_DeletedAt v = None
               then m(i \<mapsto> Server_Hydrate (v\<lparr>Server_Installed := st, Server_UpdatedAt := Some now\<rparr>)) else m
           | _ \<Rightarrow> m))"

definition plugin_event :: "DaemonTask \<Rightarrow> task_event" where
  "plugin_event task =
     PluginTaskEvent (event_of_status (DaemonTask_Status task)) (DaemonTask_ID task)
       (DaemonTask_DedicatedServerID task) (DaemonTask_ServerID task) (DaemonTask_Task task) (DaemonTask_Status task)"

definition status_events :: "('t, 's) TaskHandler \<Rightarrow> DaemonTaskStatus \<Rightarrow> string \<Rightarrow> DaemonTask \<Rightarrow> task_event list" where
  "status_events h prev msg task =
     (let i = DaemonTask_ID task; st = DaemonTask_Status task; ds = DaemonTask_DedicatedServerID task
      in (if th_publisher h then [TaskStatusMessage i st ds msg] else []) @
         (if th_publisher h \<and> isTerminalStatus st then [TaskCompleteMessage i st ds] else []) @
         (if th_pluginEvents h \<and> prev \<noteq> st \<and> (isTerminalStatus st \<or> st = DaemonTaskStatusWorking)
          then [plugin_event task] else []))"

definition spec_status ::
    "('t, 's) TaskHandler \<Rightarrow> time \<Rightarrow> uint \<Rightarrow> DaemonTaskStatus \<Rightarrow> string \<Rightarrow> panel \<Rightarrow> panel" where
  "spec_status h now i st msg p =
     (case p_tasks p i of
        None \<Rightarrow> p
      | Some t \<Rightarrow>
          let t' = t\<lparr>DaemonTask_Status := st, DaemonTask_UpdatedAt := Some now\<rparr>
          in p\<lparr>p_tasks := (p_tasks p)(i \<mapsto> t'), p_servers := install_effect now t' (p_servers p),
               p_events := p_events p @ status_events h (DaemonTask_Status t) msg t'\<rparr>)"

definition append_output :: "string \<Rightarrow> DaemonTask \<Rightarrow> DaemonTask" where
  "append_output out t =
     t\<lparr>DaemonTask_Output := Some (case DaemonTask_Output t of None \<Rightarrow> out | Some o' \<Rightarrow> o' @ out)\<rparr>"

definition spec_output :: "('t, 's) TaskHandler \<Rightarrow> TaskOutput \<Rightarrow> panel \<Rightarrow> panel" where
  "spec_output h o' p =
     (if to_OutputChunk o' = [] then p
      else p\<lparr>p_tasks := (case p_tasks p (to_TaskId o') of
                 None \<Rightarrow> p_tasks p
               | Some t \<Rightarrow> (p_tasks p)(to_TaskId o' \<mapsto> append_output (to_OutputChunk o') t)),
             p_events := p_events p @
               (if th_publisher h then [TaskOutputMessage (to_TaskId o') (to_OutputChunk o') (to_IsFinal o')] else [])\<rparr>)"

definition spec_abandon :: "('t, 's) TaskHandler \<Rightarrow> time \<Rightarrow> uint \<Rightarrow> panel \<Rightarrow> panel" where
  "spec_abandon h now i p =
     (case p_tasks p i of
        None \<Rightarrow> p
      | Some t \<Rightarrow>
          let t' = (append_output AbandonedTaskMessage t)
                     \<lparr>DaemonTask_Status := DaemonTaskStatusError, DaemonTask_UpdatedAt := Some now\<rparr>
          in p\<lparr>p_tasks := (p_tasks p)(i \<mapsto> t'), p_servers := install_effect now t' (p_servers p),
               p_events := p_events p @ status_events h DaemonTaskStatusWorking AbandonedTaskMessage t'\<rparr>)"

section \<open>The handler refines its specification\<close>

lemma statuses_distinct [simp]:
  "DaemonTaskStatusWaiting \<noteq> DaemonTaskStatusWorking" "DaemonTaskStatusWorking \<noteq> DaemonTaskStatusWaiting"
  "DaemonTaskStatusWorking \<noteq> DaemonTaskStatusError" "DaemonTaskStatusError \<noteq> DaemonTaskStatusWorking"
  "DaemonTaskStatusWorking \<noteq> DaemonTaskStatusSuccess" "DaemonTaskStatusSuccess \<noteq> DaemonTaskStatusWorking"
  "DaemonTaskStatusWorking \<noteq> DaemonTaskStatusCanceled" "DaemonTaskStatusCanceled \<noteq> DaemonTaskStatusWorking"
  "DaemonTaskStatusError \<noteq> DaemonTaskStatusSuccess" "DaemonTaskStatusSuccess \<noteq> DaemonTaskStatusError"
  "DaemonTaskStatusWaiting \<noteq> DaemonTaskStatusError" "DaemonTaskStatusError \<noteq> DaemonTaskStatusWaiting"
  "DaemonTaskStatusWaiting \<noteq> DaemonTaskStatusSuccess" "DaemonTaskStatusSuccess \<noteq> DaemonTaskStatusWaiting"
  "DaemonTaskStatusWaiting \<noteq> DaemonTaskStatusCanceled" "DaemonTaskStatusCanceled \<noteq> DaemonTaskStatusWaiting"
  "DaemonTaskStatusError \<noteq> DaemonTaskStatusCanceled" "DaemonTaskStatusCanceled \<noteq> DaemonTaskStatusError"
  "DaemonTaskStatusSuccess \<noteq> DaemonTaskStatusCanceled" "DaemonTaskStatusCanceled \<noteq> DaemonTaskStatusSuccess"
  by (simp_all add: DaemonTaskStatusWaiting_def DaemonTaskStatusWorking_def DaemonTaskStatusError_def
      DaemonTaskStatusSuccess_def DaemonTaskStatusCanceled_def)

lemma emit_simps [simp]:
  "w_tasks (emit on e w) = w_tasks w" "w_servers (emit on e w) = w_servers w"
  "w_events (emit on e w) = w_events w @ (if on then [e] else [])"
  by (simp_all add: emit_def)

lemma install_effect_cong:
  "DaemonTask_ServerID a = DaemonTask_ServerID b \<Longrightarrow> DaemonTask_Task a = DaemonTask_Task b \<Longrightarrow>
    DaemonTask_Status a = DaemonTask_Status b \<Longrightarrow> install_effect now a = install_effect now b"
  by (simp add: install_effect_def fun_eq_iff split: option.split)

locale task_handler =
  T: daemon_task_repository T invT room viewT + V: server_repository V invV viewV
  for T :: "'t TaskRepo" and invT :: "'t \<Rightarrow> bool" and room :: "'t \<Rightarrow> nat \<Rightarrow> bool"
    and viewT :: "'t \<Rightarrow> uint \<rightharpoonup> DaemonTask"
    and V :: "'s ServerRepo" and invV :: "'s \<Rightarrow> bool" and viewV :: "'s \<Rightarrow> uint \<rightharpoonup> Server" +
  fixes h :: "('t, 's) TaskHandler"
  assumes tasks_repo: "th_daemonTaskRepo h = T" and servers_repo: "th_serverRepo h = Some V"
begin

abbreviation world_ok :: "('t, 's) world \<Rightarrow> bool" where
  "world_ok w \<equiv> invT (w_tasks w) \<and> invV (w_servers w)"

abbreviation panel_of :: "('t, 's) world \<Rightarrow> panel" where
  "panel_of w \<equiv> \<lparr>p_tasks = viewT (w_tasks w), p_servers = viewV (w_servers w), p_events = w_events w\<rparr>"

lemma update_installed:
  assumes "invV (w_servers w)"
  shows "\<exists>s'. updateServerInstalledStatus h now task w = w\<lparr>w_servers := s'\<rparr> \<and> invV s' \<and>
    viewV s' = install_effect now task (viewV (w_servers w))"
proof (cases "DaemonTask_ServerID task")
  case None
  then show ?thesis
    using assms by (intro exI [of _ "w_servers w"]) (simp add: updateServerInstalledStatus_def install_effect_def servers_repo)
next
  case (Some i)
  obtain st ok where r: "resolveInstalledStatus (DaemonTask_Task task) (DaemonTask_Status task) = (st, ok)"
    by (cases "resolveInstalledStatus (DaemonTask_Task task) (DaemonTask_Status task)")
  show ?thesis
  proof (cases "ok \<and> (\<exists>v. viewV (w_servers w) i = Some v \<and> Server_DeletedAt v = None)")
    case False
    then show ?thesis
      using assms Some r V.find_by_id [OF assms, of i]
      by (intro exI [of _ "w_servers w"])
        (cases "viewV (w_servers w) i"; cases ok; auto simp: updateServerInstalledStatus_def install_effect_def servers_repo)
  next
    case True
    then obtain v where v: "viewV (w_servers w) i = Some v" "Server_DeletedAt v = None" and ok by blast
    have "viewV (w_servers w) (Server_ID (v\<lparr>Server_Installed := st\<rparr>)) = Some v"
      using V.view_id [OF assms v(1)] v(1) by simp
    from V.save_old [OF assms this, of now] show ?thesis
      using Some r v \<open>ok\<close> V.find_by_id [OF assms, of i] V.view_id [OF assms v(1)]
      by (auto simp: updateServerInstalledStatus_def install_effect_def servers_repo)
  qed
qed

lemma save_stripped:
  assumes "invT s" and "viewT s i = Some t"
  shows "\<exists>s'. tr_Save T now ((strip_output t)\<lparr>DaemonTask_Status := st\<rparr>) s =
      (None, (strip_output t)\<lparr>DaemonTask_Status := st, DaemonTask_UpdatedAt := Some now\<rparr>, s') \<and> invT s' \<and>
    viewT s' = (viewT s)(i \<mapsto> t\<lparr>DaemonTask_Status := st, DaemonTask_UpdatedAt := Some now\<rparr>)"
proof -
  have i: "DaemonTask_ID t = i" using T.view_id [OF assms] by simp
  then have "viewT s (DaemonTask_ID ((strip_output t)\<lparr>DaemonTask_Status := st\<rparr>)) = Some t" using assms(2) by simp
  from T.save_old [OF assms(1) this, of now] show ?thesis using i by (cases t) auto
qed

lemma status_update_refines:
  assumes "world_ok w"
  shows "\<exists>w'. HandleTaskStatusUpdate h now nodeID u w = (None, w') \<and> world_ok w' \<and>
    panel_of w' = spec_status h now (tsu_TaskId u) (ProtoTaskStatusToDomain (tsu_Status u)) (tsu_Message u) (panel_of w)"
proof (cases "viewT (w_tasks w) (tsu_TaskId u)")
  case None
  then show ?thesis
    using assms T.find_by_id [of "w_tasks w" "tsu_TaskId u" "[]"]
    by (simp add: HandleTaskStatusUpdate_def spec_status_def tasks_repo)
next
  case (Some t)
  let ?st = "ProtoTaskStatusToDomain (tsu_Status u)"
  let ?t = "(strip_output t)\<lparr>DaemonTask_Status := ?st, DaemonTask_UpdatedAt := Some now\<rparr>"
  have i: "DaemonTask_ID t = tsu_TaskId u" using T.view_id [OF _ Some] assms by simp
  obtain s' where s': "tr_Save T now ((strip_output t)\<lparr>DaemonTask_Status := ?st\<rparr>) (w_tasks w) = (None, ?t, s')" "invT s'"
    "viewT s' = (viewT (w_tasks w))(tsu_TaskId u \<mapsto> t\<lparr>DaemonTask_Status := ?st, DaemonTask_UpdatedAt := Some now\<rparr>)"
    using save_stripped [of "w_tasks w" "tsu_TaskId u" t] Some assms by blast
  obtain v' where v': "updateServerInstalledStatus h now ?t (w\<lparr>w_tasks := s'\<rparr>) = w\<lparr>w_tasks := s', w_servers := v'\<rparr>"
    "invV v'" "viewV v' = install_effect now ?t (viewV (w_servers w))"
    using update_installed [of "w\<lparr>w_tasks := s'\<rparr>" now ?t] assms by auto
  have eff: "install_effect now ?t = install_effect now (t\<lparr>DaemonTask_Status := ?st, DaemonTask_UpdatedAt := Some now\<rparr>)"
    by (rule install_effect_cong) simp_all
  show ?thesis
    using Some assms s' v' i T.find_by_id [of "w_tasks w" "tsu_TaskId u" "[]"]
    by (auto simp: HandleTaskStatusUpdate_def spec_status_def tasks_repo Let_def eff status_events_def
        publishTaskStatus_def publishTaskComplete_def dispatchPluginTaskEvent_def plugin_event_def)
qed

lemma output_refines:
  assumes "world_ok w"
  shows "\<exists>w'. HandleTaskOutput h nodeID out w = (None, w') \<and> world_ok w' \<and> panel_of w' = spec_output h out (panel_of w)"
proof -
  obtain s' where "tr_AppendOutput T (to_TaskId out) (to_OutputChunk out) (w_tasks w) = (None, s')" "invT s'"
    "viewT s' = (case viewT (w_tasks w) (to_TaskId out) of None \<Rightarrow> viewT (w_tasks w)
        | Some t \<Rightarrow> (viewT (w_tasks w))(to_TaskId out \<mapsto> append_output (to_OutputChunk out) t))"
    using T.append_output [of "w_tasks w" "to_TaskId out" "to_OutputChunk out"] assms
    unfolding append_output_def by blast
  then show ?thesis
    using assms
    by (auto simp: HandleTaskOutput_def spec_output_def tasks_repo publishTaskOutput_def split: option.split)
qed

text \<open>
  The task that is marked is the one the listing returned, which may be older than the stored one:
  all its fields but the output replace the stored ones.
\<close>

lemma abandon_step:
  assumes "world_ok w" and "viewT (w_tasks w) (DaemonTask_ID task) = Some t" and "DaemonTask_Output task = None"
  shows "\<exists>w'. markTaskAbandoned h now task w = (None, w') \<and> world_ok w' \<and>
    (let i = DaemonTask_ID task;
         t' = task\<lparr>DaemonTask_Status := DaemonTaskStatusError, DaemonTask_UpdatedAt := Some now,
                    DaemonTask_Output := DaemonTask_Output (append_output AbandonedTaskMessage t)\<rparr>
     in panel_of w' = \<lparr>p_tasks = (viewT (w_tasks w))(i \<mapsto> t'),
       p_servers = install_effect now t' (viewV (w_servers w)),
       p_events = w_events w @ status_events h DaemonTaskStatusWorking AbandonedTaskMessage t'\<rparr>)"
proof -
  let ?i = "DaemonTask_ID task"
  let ?task = "task\<lparr>DaemonTask_Status := DaemonTaskStatusError, DaemonTask_Output := None\<rparr>"
  obtain s1 where s1: "tr_AppendOutput T ?i AbandonedTaskMessage (w_tasks w) = (None, s1)" "invT s1"
    "viewT s1 = (viewT (w_tasks w))(?i \<mapsto> append_output AbandonedTaskMessage t)"
    using T.append_output [of "w_tasks w" ?i AbandonedTaskMessage] assms(1,2) unfolding append_output_def by auto
  have "viewT s1 (DaemonTask_ID ?task) = Some (append_output AbandonedTaskMessage t)" by (simp add: s1(3))
  from T.save_old [OF s1(2) this, of now] obtain s2 where
    s2: "tr_Save T now ?task s1 = (None, ?task\<lparr>DaemonTask_UpdatedAt := Some now\<rparr>, s2)" "invT s2"
    "viewT s2 = (viewT s1)(?i \<mapsto> ?task\<lparr>DaemonTask_UpdatedAt := Some now,
        DaemonTask_Output := DaemonTask_Output (append_output AbandonedTaskMessage t)\<rparr>)"
    by auto
  let ?saved = "?task\<lparr>DaemonTask_UpdatedAt := Some now\<rparr>"
  let ?row = "task\<lparr>DaemonTask_Status := DaemonTaskStatusError, DaemonTask_UpdatedAt := Some now,
      DaemonTask_Output := DaemonTask_Output (append_output AbandonedTaskMessage t)\<rparr>"
  have row: "?saved\<lparr>DaemonTask_Output := DaemonTask_Output (append_output AbandonedTaskMessage t)\<rparr> = ?row"
    by (cases task) simp
  have v2: "viewT s2 = (viewT (w_tasks w))(?i \<mapsto> ?row)" using s2(3) row by (simp add: s1(3))
  obtain v' where v': "updateServerInstalledStatus h now ?saved (w\<lparr>w_tasks := s2\<rparr>) = w\<lparr>w_tasks := s2, w_servers := v'\<rparr>"
    "invV v'" "viewV v' = install_effect now ?saved (viewV (w_servers w))"
    using update_installed [of "w\<lparr>w_tasks := s2\<rparr>" now ?saved] assms(1) by auto
  have eff: "install_effect now ?saved = install_effect now ?row" by (rule install_effect_cong) simp_all
  show ?thesis
    using assms(1) s1(1) s2(1,2) v2 v'(1,2) v'(3) [unfolded eff]
    by (auto simp: markTaskAbandoned_def tasks_repo Let_def status_events_def isTerminalStatus_def
        publishTaskStatus_def publishTaskComplete_def dispatchPluginTaskEvent_def plugin_event_def)
qed

lemma abandon_refines:
  assumes "world_ok w" and "viewT (w_tasks w) i = Some t" and "DaemonTask_Status t = DaemonTaskStatusWorking"
  shows "\<exists>w'. markTaskAbandoned h now (strip_output t) w = (None, w') \<and> world_ok w' \<and>
    panel_of w' = spec_abandon h now i (panel_of w)"
proof -
  have i: "DaemonTask_ID t = i" using T.view_id [OF _ assms(2)] assms(1) by simp
  have row: "(strip_output t)\<lparr>DaemonTask_Status := DaemonTaskStatusError, DaemonTask_UpdatedAt := Some now,
      DaemonTask_Output := DaemonTask_Output (append_output AbandonedTaskMessage t)\<rparr> =
    (append_output AbandonedTaskMessage t)\<lparr>DaemonTask_Status := DaemonTaskStatusError, DaemonTask_UpdatedAt := Some now\<rparr>"
    by (cases t) (simp add: append_output_def)
  show ?thesis
    using abandon_step [OF assms(1), of "strip_output t" t now] i assms(2)
    unfolding Let_def row by (auto simp: spec_abandon_def Let_def)
qed

text \<open>The loop of the reconciliation over tasks that are stored as working.\<close>

lemma mark_abandoned_refines:
  assumes "world_ok w" and "distinct (map DaemonTask_ID tasks)"
    and "\<forall>task \<in> set tasks. \<exists>t. viewT (w_tasks w) (DaemonTask_ID task) = Some t \<and> task = strip_output t \<and>
      DaemonTask_Status t = DaemonTaskStatusWorking"
  shows "\<exists>w'. mark_abandoned h now inFlight tasks w =
      (length (filter (\<lambda>task. DaemonTask_ID task \<notin> set inFlight) tasks), w') \<and> world_ok w' \<and>
    panel_of w' = fold (spec_abandon h now)
      (filter (\<lambda>i. i \<notin> set inFlight) (map DaemonTask_ID tasks)) (panel_of w)"
  using assms
proof (induction tasks arbitrary: w)
  case (Cons task tasks)
  show ?case
  proof (cases "DaemonTask_ID task \<in> set inFlight")
    case True
    then show ?thesis using Cons by simp
  next
    case False
    obtain t where t: "viewT (w_tasks w) (DaemonTask_ID task) = Some t" "task = strip_output t"
      "DaemonTask_Status t = DaemonTaskStatusWorking" using Cons.prems(3) by auto
    obtain w1 where w1: "markTaskAbandoned h now task w = (None, w1)" "world_ok w1"
      "panel_of w1 = spec_abandon h now (DaemonTask_ID task) (panel_of w)"
      using abandon_refines [OF Cons.prems(1) t(1,3)] t(2) by blast
    have "viewT (w_tasks w1) = p_tasks (spec_abandon h now (DaemonTask_ID task) (panel_of w))"
      by (simp add: w1(3) [symmetric])
    then have "viewT (w_tasks w1) j = viewT (w_tasks w) j" if "j \<noteq> DaemonTask_ID task" for j
      using that t(1) by (simp add: spec_abandon_def Let_def)
    moreover have "DaemonTask_ID x \<noteq> DaemonTask_ID task" if "x \<in> set tasks" for x
      using Cons.prems(2) imageI [OF that, of DaemonTask_ID] by auto
    ultimately have "\<forall>x \<in> set tasks. \<exists>t. viewT (w_tasks w1) (DaemonTask_ID x) = Some t \<and> x = strip_output t \<and>
        DaemonTask_Status t = DaemonTaskStatusWorking"
      using Cons.prems(3) by simp
    from Cons.IH [OF w1(2) _ this] Cons.prems(2) show ?thesis using w1 False by auto
  qed
qed simp

lemma reconcile_refines:
  assumes "world_ok w"
  shows "\<exists>w' ids. ReconcileWorkingTasks h now nodeID inFlightIDs w = (Inr (length ids), w') \<and> world_ok w' \<and>
    distinct ids \<and>
    set ids = {i. \<exists>t. viewT (w_tasks w) i = Some t \<and> DaemonTask_DedicatedServerID t = nodeID \<and>
      DaemonTask_Status t = DaemonTaskStatusWorking \<and> i \<notin> set inFlightIDs} \<and>
    panel_of w' = fold (spec_abandon h now) ids (panel_of w)"
proof -
  let ?f = "Some (tasks_of_node nodeID DaemonTaskStatusWorking)"
  have inv: "invT (w_tasks w)" using assms by simp
  obtain tasks where tasks: "tr_Find T (w_tasks w) ?f [] None = Inr tasks" "distinct (map DaemonTask_ID tasks)"
    "set tasks = strip_output ` {t. \<exists>i. viewT (w_tasks w) i = Some t \<and> task_matches ?f t}"
    using T.find_all_matching [OF inv] by blast
  have m: "task_matches ?f t \<longleftrightarrow> DaemonTask_DedicatedServerID t = nodeID \<and> DaemonTask_Status t = DaemonTaskStatusWorking" for t
    by (auto simp: task_matches_def tasks_of_node_def no_task_filter_def)
  have rows: "\<forall>task \<in> set tasks. \<exists>t. viewT (w_tasks w) (DaemonTask_ID task) = Some t \<and> task = strip_output t \<and>
      DaemonTask_Status t = DaemonTaskStatusWorking"
    unfolding tasks(3) m using T.view_id [OF inv] by auto
  let ?ids = "filter (\<lambda>i. i \<notin> set inFlightIDs) (map DaemonTask_ID tasks)"
  obtain w' where w': "mark_abandoned h now inFlightIDs tasks w = (length ?ids, w')" "world_ok w'"
    "panel_of w' = fold (spec_abandon h now) ?ids (panel_of w)"
    using mark_abandoned_refines [OF assms tasks(2) rows, of now inFlightIDs] by (auto simp: filter_map o_def)
  have "ReconcileWorkingTasks h now nodeID inFlightIDs w = (Inr (length ?ids), w')"
    using tasks(1) w'(1) by (cases "tasks = []") (simp_all add: ReconcileWorkingTasks_def tasks_repo)
  moreover have "set ?ids = {i. \<exists>t. viewT (w_tasks w) i = Some t \<and> DaemonTask_DedicatedServerID t = nodeID \<and>
      DaemonTask_Status t = DaemonTaskStatusWorking \<and> i \<notin> set inFlightIDs}"
    using T.view_id [OF inv] by (auto simp: tasks(3) m image_iff)
  ultimately show ?thesis using w'(2,3) tasks(2) by (intro exI [of _ w'] exI [of _ ?ids]) (simp add: distinct_filter)
qed

end

definition inmemory_handler :: "bool \<Rightarrow> bool \<Rightarrow> (DaemonTaskRepository, ServerRepository) TaskHandler" where
  "inmemory_handler publisher pluginEvents =
     \<lparr>th_daemonTaskRepo = inmemory_tasks, th_serverRepo = Some inmemory_servers,
      th_publisher = publisher, th_pluginEvents = pluginEvents\<rparr>"

interpretation inmem_handler:
  task_handler inmemory_tasks dt_wf dt_room tasks_in inmemory_servers sv_wf servers_in
    "inmemory_handler publisher pluginEvents" for publisher pluginEvents
  by unfold_locales (simp_all add: inmemory_handler_def)

type_synonym panel_world = "(DaemonTaskRepository, ServerRepository) world"

abbreviation world_wf :: "panel_world \<Rightarrow> bool" where
  "world_wf w \<equiv> dt_wf (w_tasks w) \<and> sv_wf (w_servers w)"

abbreviation panel_view :: "panel_world \<Rightarrow> panel" where
  "panel_view w \<equiv> \<lparr>p_tasks = tasks_in (w_tasks w), p_servers = servers_in (w_servers w), p_events = w_events w\<rparr>"

section \<open>Reconciliation over tables\<close>

definition abandoned :: "time \<Rightarrow> DaemonTask \<Rightarrow> DaemonTask" where
  "abandoned now t = (append_output AbandonedTaskMessage t)
     \<lparr>DaemonTask_Status := DaemonTaskStatusError, DaemonTask_UpdatedAt := Some now\<rparr>"

lemma fold_abandon_tasks:
  "distinct ids \<Longrightarrow> p_tasks (fold (spec_abandon h now) ids p) i =
    (if i \<in> set ids then map_option (abandoned now) (p_tasks p i) else p_tasks p i)"
proof (induction ids arbitrary: p)
  case (Cons j ids)
  have "p_tasks (spec_abandon h now j p) i = (if i = j then map_option (abandoned now) (p_tasks p i) else p_tasks p i)"
    by (auto simp: spec_abandon_def abandoned_def Let_def split: option.split)
  then show ?case using Cons by auto
qed simp

section \<open>Plugin events\<close>

text \<open>The statuses that the plugins were told about task \<open>i\<close>, in order.\<close>

fun told :: "uint \<Rightarrow> task_event list \<Rightarrow> DaemonTaskStatus list" where
  "told i [] = []"
| "told i (PluginTaskEvent ty j ds sv task st # es) = (if j = i then st # told i es else told i es)"
| "told i (_ # es) = told i es"

lemma told_append [simp]: "told i (es @ es') = told i es @ told i es'"
  by (induction i es rule: told.induct) simp_all

lemma told_status_events:
  "told i (status_events h prev msg t) =
    (if th_pluginEvents h \<and> prev \<noteq> DaemonTask_Status t \<and>
        (isTerminalStatus (DaemonTask_Status t) \<or> DaemonTask_Status t = DaemonTaskStatusWorking) \<and> DaemonTask_ID t = i
     then [DaemonTask_Status t] else [])"
  by (simp add: status_events_def plugin_event_def Let_def)

text \<open>
  What the plugins know: the last status they were told of a task is the status of the task, and no
  status was told twice in a row.
\<close>

definition told_ok :: "panel \<Rightarrow> bool" where
  "told_ok p \<longleftrightarrow> (\<forall>i. distinct_adj (told i (p_events p)) \<and>
     (told i (p_events p) \<noteq> [] \<longrightarrow>
        (\<exists>t. p_tasks p i = Some t \<and> DaemonTask_Status t = last (told i (p_events p)))))"

lemma told_ok_change:
  assumes "told_ok p" and "p_tasks p i = Some t" and "DaemonTask_ID t' = i"
    and "isTerminalStatus (DaemonTask_Status t') \<or> DaemonTask_Status t' = DaemonTaskStatusWorking"
    and "th_pluginEvents h"
  shows "told_ok (p\<lparr>p_tasks := (p_tasks p)(i \<mapsto> t'), p_servers := sv,
    p_events := p_events p @ status_events h (DaemonTask_Status t) msg t'\<rparr>)" (is "told_ok ?q")
proof -
  have "distinct_adj (told j (p_events ?q)) \<and> (told j (p_events ?q) \<noteq> [] \<longrightarrow>
      (\<exists>t. p_tasks ?q j = Some t \<and> DaemonTask_Status t = last (told j (p_events ?q))))" for j
  proof -
    have "distinct_adj (told j (p_events p))" "told j (p_events p) \<noteq> [] \<Longrightarrow>
        \<exists>t. p_tasks p j = Some t \<and> DaemonTask_Status t = last (told j (p_events p))"
      using assms(1) by (auto simp: told_ok_def)
    then show ?thesis
      using assms(2-5) by (cases "j = i") (auto simp: told_status_events distinct_adj_append_iff)
  qed
  then show ?thesis by (simp add: told_ok_def)
qed

lemma told_ok_abandon:
  assumes "told_ok p" and "p_tasks p i = Some t" and "DaemonTask_ID t = i"
    and "DaemonTask_Status t = DaemonTaskStatusWorking" and "th_pluginEvents h"
  shows "told_ok (spec_abandon h now i p)"
  using told_ok_change [OF assms(1,2), where t' = "abandoned now t" and h = h and msg = AbandonedTaskMessage
      and sv = "install_effect now (abandoned now t) (p_servers p)"] assms
  by (simp add: spec_abandon_def abandoned_def append_output_def isTerminalStatus_def Let_def)

lemma told_ok_abandon_all:
  assumes "told_ok p" and "distinct ids" and "th_pluginEvents h"
    and "\<forall>i \<in> set ids. \<exists>t. p_tasks p i = Some t \<and> DaemonTask_ID t = i \<and> DaemonTask_Status t = DaemonTaskStatusWorking"
  shows "told_ok (fold (spec_abandon h now) ids p)"
  using assms
proof (induction ids arbitrary: p)
  case (Cons i ids)
  have "p_tasks (spec_abandon h now i p) j = p_tasks p j" if "j \<in> set ids" for j
    using fold_abandon_tasks [of "[i]" h now p j] that Cons.prems(2) by auto
  then have "\<forall>j \<in> set ids. \<exists>t. p_tasks (spec_abandon h now i p) j = Some t \<and> DaemonTask_ID t = j \<and>
      DaemonTask_Status t = DaemonTaskStatusWorking" using Cons.prems(4) by simp
  moreover have "told_ok (spec_abandon h now i p)"
    using Cons.prems told_ok_abandon [of p i _ h now] by auto
  ultimately show ?case using Cons.IH Cons.prems(2,3) by simp
qed simp

text \<open>
  Runs of the handler.  A daemon reports one of the four statuses other than waiting; the handler
  also gets output and reconciles.
\<close>

inductive handler_step ::
    "(DaemonTaskRepository, ServerRepository) TaskHandler \<Rightarrow> panel_world \<Rightarrow> panel_world \<Rightarrow> bool" for h where
  status: "ProtoTaskStatusToDomain (tsu_Status u) \<noteq> DaemonTaskStatusWaiting \<Longrightarrow>
    HandleTaskStatusUpdate h now nodeID u w = (e, w') \<Longrightarrow> handler_step h w w'"
| chunk: "HandleTaskOutput h nodeID out w = (e, w') \<Longrightarrow> handler_step h w w'"
| reconcile: "ReconcileWorkingTasks h now nodeID inFlightIDs w = (r, w') \<Longrightarrow> handler_step h w w'"

inductive handler_run ::
    "(DaemonTaskRepository, ServerRepository) TaskHandler \<Rightarrow> panel_world \<Rightarrow> panel_world \<Rightarrow> bool" for h where
  start: "handler_run h w w"
| more: "handler_run h w w1 \<Longrightarrow> handler_step h w1 w2 \<Longrightarrow> handler_run h w w2"

lemma not_waiting:
  "ProtoTaskStatusToDomain st \<noteq> DaemonTaskStatusWaiting \<Longrightarrow>
    isTerminalStatus (ProtoTaskStatusToDomain st) \<or> ProtoTaskStatusToDomain st = DaemonTaskStatusWorking"
  by (cases st) (simp_all add: ProtoTaskStatusToDomain_def isTerminalStatus_def)

lemma dt_wf_id: "dt_wf r \<Longrightarrow> tasks_in r i = Some t \<Longrightarrow> DaemonTask_ID t = i"
  by (simp add: dt_wf_def)

lemma handler_step_told:
  assumes "handler_step (inmemory_handler publisher True) w w'" and "world_wf w" and "told_ok (panel_view w)"
  shows "world_wf w' \<and> told_ok (panel_view w')"
  using assms(1)
proof cases
  case (status u now nodeID e)
  let ?h = "inmemory_handler publisher True" and ?st = "ProtoTaskStatusToDomain (tsu_Status u)"
  have w': "world_wf w'" "panel_view w' = spec_status ?h now (tsu_TaskId u) ?st (tsu_Message u) (panel_view w)"
    using inmem_handler.status_update_refines [OF assms(2), of publisher True now nodeID u] status(2) by auto
  have "told_ok (spec_status ?h now (tsu_TaskId u) ?st (tsu_Message u) (panel_view w))"
  proof (cases "tasks_in (w_tasks w) (tsu_TaskId u)")
    case None
    then show ?thesis using assms(3) by (simp add: spec_status_def)
  next
    case (Some t)
    then show ?thesis
      using told_ok_change [OF assms(3), where i = "tsu_TaskId u" and t = t and h = ?h and msg = "tsu_Message u"
            and t' = "t\<lparr>DaemonTask_Status := ?st, DaemonTask_UpdatedAt := Some now\<rparr>"
            and sv = "install_effect now (t\<lparr>DaemonTask_Status := ?st, DaemonTask_UpdatedAt := Some now\<rparr>)
              (servers_in (w_servers w))"] not_waiting [OF status(1)] dt_wf_id [OF _ Some] assms(2)
      by (simp add: spec_status_def Let_def inmemory_handler_def)
  qed
  then show ?thesis using w' by simp
next
  case (chunk nodeID out e)
  have w': "world_wf w'" "panel_view w' = spec_output (inmemory_handler publisher True) out (panel_view w)"
    using inmem_handler.output_refines [OF assms(2), of publisher True nodeID out] chunk by auto
  have "told_ok (spec_output (inmemory_handler publisher True) out (panel_view w))"
    using assms(3) by (auto simp: told_ok_def spec_output_def append_output_def split: option.split)
  then show ?thesis using w' by simp
next
  case (reconcile now nodeID inFlightIDs r)
  obtain ids where ids: "world_wf w'" "distinct ids"
    "set ids = {i. \<exists>t. tasks_in (w_tasks w) i = Some t \<and> DaemonTask_DedicatedServerID t = nodeID \<and>
      DaemonTask_Status t = DaemonTaskStatusWorking \<and> i \<notin> set inFlightIDs}"
    "panel_view w' = fold (spec_abandon (inmemory_handler publisher True) now) ids (panel_view w)"
    using inmem_handler.reconcile_refines [OF assms(2), of publisher True now nodeID inFlightIDs] reconcile by auto
  have "told_ok (fold (spec_abandon (inmemory_handler publisher True) now) ids (panel_view w))"
    by (rule told_ok_abandon_all [OF assms(3) ids(2)])
      (use ids(3) dt_wf_id assms(2) in \<open>auto simp: inmemory_handler_def\<close>)
  then show ?thesis using ids by simp
qed

lemma handler_run_told:
  assumes "handler_run (inmemory_handler publisher True) w w'" and "world_wf w" and "told_ok (panel_view w)"
  shows "world_wf w' \<and> told_ok (panel_view w')"
  using assms by (induction rule: handler_run.induct) (use handler_step_told in blast)+

lemma working_of_node:
  "task_matches (Some (tasks_of_node nodeID st)) t \<longleftrightarrow> DaemonTask_DedicatedServerID t = nodeID \<and> DaemonTask_Status t = st"
  by (auto simp: task_matches_def tasks_of_node_def no_task_filter_def)

lemma singleton_list: "set xs = {a} \<Longrightarrow> distinct (map f xs) \<Longrightarrow> xs = [a]"
  by (metis distinct_map distinct_card card_1_singleton_iff length_0_conv length_Suc_conv list.set_intros(1)
      One_nat_def singletonD)

section \<open>Theorems\<close>

lemma reconcile_lost:
  assumes "world_wf w"
    and "lost = {i. \<exists>t. tasks_in (w_tasks w) i = Some t \<and> DaemonTask_DedicatedServerID t = nodeID \<and>
      DaemonTask_Status t = DaemonTaskStatusWorking \<and> i \<notin> set inFlightIDs}"
  shows "\<exists>w'. ReconcileWorkingTasks (inmemory_handler publisher pluginEvents) now nodeID inFlightIDs w = (Inr (card lost), w') \<and>
    world_wf w' \<and> (\<forall>i. tasks_in (w_tasks w') i =
      (if i \<in> lost then map_option (abandoned now) (tasks_in (w_tasks w) i) else tasks_in (w_tasks w) i))"
proof -
  let ?h = "inmemory_handler publisher pluginEvents"
  obtain w' ids where w': "ReconcileWorkingTasks ?h now nodeID inFlightIDs w = (Inr (length ids), w')" "world_wf w'"
    "distinct ids" "set ids = lost" "panel_view w' = fold (spec_abandon ?h now) ids (panel_view w)"
    using inmem_handler.reconcile_refines [OF assms(1), of publisher pluginEvents now nodeID inFlightIDs]
    unfolding assms(2) by blast
  have "tasks_in (w_tasks w') i = p_tasks (fold (spec_abandon ?h now) ids (panel_view w)) i" for i
    by (simp add: w'(5) [symmetric])
  then show ?thesis
    using w' fold_abandon_tasks [OF w'(3), of ?h now "panel_view w"] distinct_card [OF w'(3)] by auto
qed

definition sample_world :: panel_world where
  "sample_world = \<lparr>w_tasks = sample_tasks, w_servers = sample_servers, w_events = []\<rparr>"

lemma sample_world_wf: "world_wf sample_world"
  by (simp add: sample_world_def sample_wf sample_servers_wf)

definition sample_update :: "proto_DaemonTaskStatus \<Rightarrow> TaskStatusUpdate" where
  "sample_update st = \<lparr>tsu_TaskId = 1, tsu_Status = st, tsu_Message = ''done''\<rparr>"

definition working_task :: DaemonTask where
  "working_task = sample_task\<lparr>DaemonTask_Status := DaemonTaskStatusWorking\<rparr>"

definition working_world :: panel_world where
  "working_world = sample_world\<lparr>w_tasks := snd (snd (DaemonTaskRepository_Save 10 working_task NewDaemonTaskRepository))\<rparr>"

lemma working_world_tasks: "tasks_in (w_tasks working_world) = [1 \<mapsto> working_task\<lparr>DaemonTask_ID := 1,
    DaemonTask_CreatedAt := Some 10, DaemonTask_UpdatedAt := Some 10\<rparr>]"
  by (simp add: working_world_def working_task_def sample_task_def DaemonTaskRepository_Save_def
      NewDaemonTaskRepository_def dt_addToIndexes_def id_of_counter_def)

lemma working_world_wf: "world_wf working_world"
proof -
  have "dt_wf (snd (snd (DaemonTaskRepository_Save 10 working_task NewDaemonTaskRepository)))"
    using Save_new [of NewDaemonTaskRepository 0 working_task 10]
    by (auto simp: dt_room_def counter_room_def NewDaemonTaskRepository_def working_task_def sample_task_def
        dt_wf_new [unfolded NewDaemonTaskRepository_def])
  then show ?thesis by (simp add: working_world_def sample_world_def sample_servers_wf)
qed

text \<open>
  C15. A status report does to the stores and to the message stream exactly what the specification over
  plain tables says: only the reported task changes, in its status and update time, its output is
  kept, its server's installation status follows, and the messages are the ones for the transition.
\<close>

theorem status_update_refines_spec:
  assumes "world_wf w"
  shows "\<exists>w'. HandleTaskStatusUpdate (inmemory_handler publisher pluginEvents) now nodeID u w = (None, w') \<and>
    world_wf w' \<and> panel_view w' = spec_status (inmemory_handler publisher pluginEvents) now (tsu_TaskId u)
      (ProtoTaskStatusToDomain (tsu_Status u)) (tsu_Message u) (panel_view w)"
  by (rule inmem_handler.status_update_refines [OF assms])

theorem status_update_refines_spec_witness:
  "\<exists>w' t. HandleTaskStatusUpdate (inmemory_handler True True) 20 3 (sample_update DAEMON_TASK_STATUS_SUCCESS)
      sample_world = (None, w') \<and> tasks_in (w_tasks w') 1 = Some t \<and> DaemonTask_Status t = DaemonTaskStatusSuccess"
proof -
  obtain w' where "HandleTaskStatusUpdate (inmemory_handler True True) 20 3 (sample_update DAEMON_TASK_STATUS_SUCCESS)
      sample_world = (None, w')"
    "panel_view w' = spec_status (inmemory_handler True True) 20 1 DaemonTaskStatusSuccess ''done'' (panel_view sample_world)"
    using status_update_refines_spec [OF sample_world_wf, of True True 20 3 "sample_update DAEMON_TASK_STATUS_SUCCESS"]
    by (auto simp: sample_update_def ProtoTaskStatusToDomain_def)
  moreover from this(2) have "tasks_in (w_tasks w') =
      p_tasks (spec_status (inmemory_handler True True) 20 1 DaemonTaskStatusSuccess ''done'' (panel_view sample_world))"
    by (metis panel.select_convs(1))
  ultimately show ?thesis
    using sample_task_1 by (auto simp: spec_status_def Let_def sample_world_def)
qed



text \<open>
  Reconciliation is exact: afterwards every task of the node that was working and is not in flight
  is failed, with the note appended to its output, every other task is untouched, and the returned
  number is the number of failed tasks.
\<close>

theorem reconcile_exact:
  assumes "world_wf w"
    and "lost = {i. \<exists>t. tasks_in (w_tasks w) i = Some t \<and> DaemonTask_DedicatedServerID t = nodeID \<and>
      DaemonTask_Status t = DaemonTaskStatusWorking \<and> i \<notin> set inFlightIDs}"
  shows "\<exists>w'. ReconcileWorkingTasks (inmemory_handler publisher pluginEvents) now nodeID inFlightIDs w = (Inr (card lost), w') \<and>
    world_wf w' \<and> (\<forall>i. tasks_in (w_tasks w') i =
      (if i \<in> lost then map_option (abandoned now) (tasks_in (w_tasks w) i) else tasks_in (w_tasks w) i))"
  using assms by (rule reconcile_lost)

theorem reconcile_exact_witness:
  "\<exists>w' t. ReconcileWorkingTasks (inmemory_handler True True) 30 3 [] working_world = (Inr 1, w') \<and>
    tasks_in (w_tasks w') 1 = Some t \<and> DaemonTask_Status t = DaemonTaskStatusError"
proof -
  have "{i. \<exists>t. tasks_in (w_tasks working_world) i = Some t \<and> DaemonTask_DedicatedServerID t = 3 \<and>
      DaemonTask_Status t = DaemonTaskStatusWorking \<and> i \<notin> set []} = {1}"
    by (auto simp: working_world_tasks working_task_def sample_task_def)
  from reconcile_exact [OF working_world_wf this [symmetric], of True True 30] show ?thesis
    by (auto simp: working_world_tasks abandoned_def)
qed

text \<open>
  The status mutex does not cover the reconciliation: when a daemon's success report is handled
  between the reconciliation's listing and its writes, the task that succeeded ends as failed and the
  plugins are told both outcomes.
\<close>

theorem reconcile_race:
  assumes "world_wf w"
    and "tr_Find inmemory_tasks (w_tasks w) (Some (tasks_of_node nodeID DaemonTaskStatusWorking)) [] None = Inr [task]"
    and "tasks_in (w_tasks w) (DaemonTask_ID task) = Some t"
    and "HandleTaskStatusUpdate (inmemory_handler publisher True) now nodeID
      \<lparr>tsu_TaskId = DaemonTask_ID task, tsu_Status = DAEMON_TASK_STATUS_SUCCESS, tsu_Message = msg\<rparr> w = (e, w1)"
    and "mark_abandoned (inmemory_handler publisher True) later [] [task] w1 = (n, w2)"
  shows "map_option DaemonTask_Status (tasks_in (w_tasks w1) (DaemonTask_ID task)) = Some DaemonTaskStatusSuccess \<and>
    map_option DaemonTask_Status (tasks_in (w_tasks w2) (DaemonTask_ID task)) = Some DaemonTaskStatusError \<and>
    told (DaemonTask_ID task) (w_events w2) =
      told (DaemonTask_ID task) (w_events w) @ [DaemonTaskStatusSuccess, DaemonTaskStatusError]"
proof -
  let ?h = "inmemory_handler publisher True" and ?i = "DaemonTask_ID task"
  let ?t1 = "t\<lparr>DaemonTask_Status := DaemonTaskStatusSuccess, DaemonTask_UpdatedAt := Some now\<rparr>"
  have wfT: "dt_wf (w_tasks w)" using assms(1) by simp
  have i: "DaemonTask_ID t = ?i" by (rule dt_wf_id [OF wfT assms(3)])
  have "set [task] = strip_output ` {t. \<exists>i. tasks_in (w_tasks w) i = Some t \<and>
      task_matches (Some (tasks_of_node nodeID DaemonTaskStatusWorking)) t}"
    using inmem_tasks.find_all_matching [OF wfT, of "Some (tasks_of_node nodeID DaemonTaskStatusWorking)"] assms(2)
    by auto
  then have "task \<in> strip_output ` {t. \<exists>i. tasks_in (w_tasks w) i = Some t \<and>
      task_matches (Some (tasks_of_node nodeID DaemonTaskStatusWorking)) t}"
    by auto
  then obtain u j where u: "tasks_in (w_tasks w) j = Some u" "task = strip_output u" "DaemonTask_Status u = DaemonTaskStatusWorking"
    unfolding working_of_node by blast
  then have "u = t" using assms(3) dt_wf_id [OF wfT u(1)] by simp
  have "panel_view w1 = spec_status ?h now ?i DaemonTaskStatusSuccess msg (panel_view w)" and wf1: "world_wf w1"
    using inmem_handler.status_update_refines [OF assms(1), of publisher True now nodeID
        "\<lparr>tsu_TaskId = ?i, tsu_Status = DAEMON_TASK_STATUS_SUCCESS, tsu_Message = msg\<rparr>"] assms(4)
    by (auto simp: ProtoTaskStatusToDomain_def)
  then have p1: "tasks_in (w_tasks w1) = (tasks_in (w_tasks w))(?i \<mapsto> ?t1)"
    "w_events w1 = w_events w @ status_events ?h DaemonTaskStatusWorking msg ?t1"
    using assms(3) u(3) \<open>u = t\<close> by (simp_all add: spec_status_def Let_def)
  let ?t2 = "task\<lparr>DaemonTask_Status := DaemonTaskStatusError, DaemonTask_UpdatedAt := Some later,
      DaemonTask_Output := DaemonTask_Output (append_output AbandonedTaskMessage ?t1)\<rparr>"
  obtain w' where w': "markTaskAbandoned ?h later task w1 = (None, w')"
    "tasks_in (w_tasks w') = (tasks_in (w_tasks w1))(?i \<mapsto> ?t2)"
    "w_events w' = w_events w1 @ status_events ?h DaemonTaskStatusWorking AbandonedTaskMessage ?t2"
    using inmem_handler.abandon_step [OF wf1, of task ?t1 publisher True later] p1(1) u(2)
    unfolding Let_def by auto
  then have "w' = w2" using assms(5) by simp
  then show ?thesis
    using w'(2,3) p1 i by (simp add: told_status_events isTerminalStatus_def inmemory_handler_def)
qed

theorem reconcile_race_witness:
  "\<exists>w1 w2 task. tr_Find inmemory_tasks (w_tasks working_world) (Some (tasks_of_node 3 DaemonTaskStatusWorking)) [] None =
      Inr [task] \<and>
    HandleTaskStatusUpdate (inmemory_handler True True) 20 3 (sample_update DAEMON_TASK_STATUS_SUCCESS) working_world = (None, w1) \<and>
    mark_abandoned (inmemory_handler True True) 21 [] [task] w1 = (1, w2) \<and>
    told 1 (w_events w2) = [DaemonTaskStatusSuccess, DaemonTaskStatusError]"
proof -
  let ?h = "inmemory_handler True True" and ?f = "Some (tasks_of_node 3 DaemonTaskStatusWorking)"
  let ?t = "working_task\<lparr>DaemonTask_ID := 1, DaemonTask_CreatedAt := Some 10, DaemonTask_UpdatedAt := Some 10\<rparr>"
  have "{t. \<exists>i. tasks_in (w_tasks working_world) i = Some t \<and> task_matches ?f t} = {?t}"
    unfolding working_of_node by (auto simp: working_world_tasks working_task_def sample_task_def)
  with inmem_tasks.find_all_matching [of "w_tasks working_world" ?f] working_world_wf
  obtain xs where xs: "tr_Find inmemory_tasks (w_tasks working_world) ?f [] None = Inr xs"
    "set xs = {strip_output ?t}" "distinct (map DaemonTask_ID xs)" by auto
  then have l: "tr_Find inmemory_tasks (w_tasks working_world) ?f [] None = Inr [strip_output ?t]"
    using singleton_list [OF xs(2,3)] by simp
  obtain w1 where w1: "HandleTaskStatusUpdate ?h 20 3 (sample_update DAEMON_TASK_STATUS_SUCCESS) working_world = (None, w1)"
    "world_wf w1" "panel_view w1 = spec_status ?h 20 1 DaemonTaskStatusSuccess ''done'' (panel_view working_world)"
    using inmem_handler.status_update_refines [OF working_world_wf, of True True 20 3 "sample_update DAEMON_TASK_STATUS_SUCCESS"]
    by (auto simp: sample_update_def ProtoTaskStatusToDomain_def)
  then have "\<exists>t1. tasks_in (w_tasks w1) 1 = Some t1"
    by (simp add: spec_status_def Let_def working_world_tasks)
  then obtain w2 where w2: "markTaskAbandoned ?h 21 (strip_output ?t) w1 = (None, w2)"
    using inmem_handler.abandon_step [OF w1(2), of "strip_output ?t" _ True True 21] by auto
  then have run: "mark_abandoned ?h 21 [] [strip_output ?t] w1 = (1, w2)" by simp
  have "told 1 (w_events w2) = told 1 (w_events working_world) @ [DaemonTaskStatusSuccess, DaemonTaskStatusError]"
    using reconcile_race [OF working_world_wf l _ _ run, of ?t 20 "''done''" None] w1(1)
    by (simp add: working_world_tasks sample_update_def)
  then show ?thesis using l w1(1) run by (auto simp: working_world_def sample_world_def)
qed

end
