(* ===== verification/Daemon_Session.thy ===== *)
theory Daemon_Session
  imports Go_Base
begin

text \<open>
  One daemon connection: \<open>internal/grpc/session/session.go\<close>, its bounded outbound queue and its waiters
  for responses.

  \<^item> A message of the wire protocol is an element of a type parameter.
  \<^item> A Go channel of capacity one is a buffer and a closed flag.  Closing a closed channel and sending
    on one are panics and appear as such.
  \<^item> Whether the gRPC stream accepts a message is an argument.
\<close>

section \<open>Response channels\<close>

record 'r chan =
  ch_buf :: "'r option"
  ch_closed :: bool

definition new_chan :: "'r chan" where
  "new_chan = \<lparr>ch_buf = None, ch_closed = False\<rparr>"

definition close_chan :: "'r chan \<Rightarrow> 'r chan result" where
  "close_chan c = (if ch_closed c then Inl (Panic ''close of closed channel'') else Inr (c\<lparr>ch_closed := True\<rparr>))"

text \<open>\<open>select { case ch <- msg: default: }\<close>\<close>

definition try_send :: "'r \<Rightarrow> 'r chan \<Rightarrow> 'r chan result" where
  "try_send m c =
     (if ch_closed c then Inl (Panic ''send on closed channel'')
      else if ch_buf c = None then Inr (c\<lparr>ch_buf := Some m\<rparr>) else Inr c)"

section \<open>Sessions\<close>

definition outboundBufferSize :: nat where "outboundBufferSize = 256"

definition ErrSessionClosed :: error where "ErrSessionClosed = Errorf ''session is closed''"
definition ErrOutboundFull :: error where "ErrOutboundFull = Errorf ''session outbound queue is full''"

text \<open>
  \<open>Session_chans\<close> holds every response channel the session has made; \<open>pendingReqs\<close> refers to them by
  position.  \<open>Session_sent\<close> is what the stream has accepted.
\<close>

record ('m, 'r) Session =
  Session_NodeID :: uint64
  Session_Version :: string
  Session_Capabilities :: "string list"
  Session_ConnectedAt :: time
  Session_cancelled :: bool
  Session_outbound :: "'m list"
  Session_closed :: bool
  Session_lastPing :: time
  Session_pendingReqs :: "(string \<times> nat) list"
  Session_chans :: "'r chan list"
  Session_sent :: "'m list"

definition NewSession :: "uint64 \<Rightarrow> string \<Rightarrow> string list \<Rightarrow> time \<Rightarrow> ('m, 'r) Session" where
  "NewSession nodeID version capabilities now =
     \<lparr>Session_NodeID = nodeID, Session_Version = version, Session_Capabilities = capabilities,
      Session_ConnectedAt = now, Session_cancelled = False, Session_outbound = [], Session_closed = False,
      Session_lastPing = now, Session_pendingReqs = [], Session_chans = [], Session_sent = []\<rparr>"

definition Session_Send :: "error option \<Rightarrow> 'm \<Rightarrow> ('m, 'r) Session \<Rightarrow> error option \<times> ('m, 'r) Session" where
  "Session_Send stream_error msg s =
     (case stream_error of
        None \<Rightarrow> (None, s\<lparr>Session_sent := Session_sent s @ [msg]\<rparr>)
      | Some e \<Rightarrow> (Some e, s))"

definition Session_Enqueue :: "'m \<Rightarrow> ('m, 'r) Session \<Rightarrow> error option \<times> ('m, 'r) Session" where
  "Session_Enqueue msg s =
     (if Session_closed s then (Some ErrSessionClosed, s)
      else if length (Session_outbound s) < outboundBufferSize
      then (None, s\<lparr>Session_outbound := Session_outbound s @ [msg]\<rparr>)
      else (Some ErrOutboundFull, s))"

text \<open>One round of the worker; a failed send loses the message.\<close>

definition dispatchLoop_round :: "error option \<Rightarrow> ('m, 'r) Session \<Rightarrow> ('m, 'r) Session" where
  "dispatchLoop_round stream_error s =
     (if Session_closed s then s
      else case Session_outbound s of
             [] \<Rightarrow> s
           | msg # rest \<Rightarrow> snd (Session_Send stream_error msg (s\<lparr>Session_outbound := rest\<rparr>)))"

definition close_at :: "nat \<Rightarrow> ('m, 'r) Session \<Rightarrow> ('m, 'r) Session result" where
  "close_at c s =
     (if c < length (Session_chans s) then
        (case close_chan (Session_chans s ! c) of
           Inl e \<Rightarrow> Inl e
         | Inr ch \<Rightarrow> Inr (s\<lparr>Session_chans := (Session_chans s)[c := ch]\<rparr>))
      else Inl (Panic ''close of nil channel''))"

fun fail_all :: "(string \<times> nat) list \<Rightarrow> ('m, 'r) Session \<Rightarrow> ('m, 'r) Session result" where
  "fail_all [] s = Inr s"
| "fail_all ((requestID, c) # reqs) s =
     (case close_at c (s\<lparr>Session_pendingReqs := AList.delete requestID (Session_pendingReqs s)\<rparr>) of
        Inl e \<Rightarrow> Inl e
      | Inr s' \<Rightarrow> fail_all reqs s')"

definition failPendingRequests :: "('m, 'r) Session \<Rightarrow> ('m, 'r) Session result" where
  "failPendingRequests s = fail_all (Session_pendingReqs s) s"

text \<open>\<open>closeOnce\<close>: the body runs on the first call only.\<close>

definition Session_Close :: "('m, 'r) Session \<Rightarrow> ('m, 'r) Session result" where
  "Session_Close s =
     (if Session_closed s then Inr s else failPendingRequests (s\<lparr>Session_closed := True\<rparr>))"

definition UpdateLastPing :: "time \<Rightarrow> ('m, 'r) Session \<Rightarrow> ('m, 'r) Session" where
  "UpdateLastPing now s = s\<lparr>Session_lastPing := now\<rparr>"

definition Session_Cancel :: "('m, 'r) Session \<Rightarrow> ('m, 'r) Session" where
  "Session_Cancel s = s\<lparr>Session_cancelled := True\<rparr>"

definition RegisterPendingRequest :: "string \<Rightarrow> ('m, 'r) Session \<Rightarrow> nat \<times> ('m, 'r) Session" where
  "RegisterPendingRequest requestID s =
     (let c = length (Session_chans s)
      in (c, s\<lparr>Session_chans := Session_chans s @ [new_chan],
               Session_pendingReqs := AList.update requestID c (Session_pendingReqs s)\<rparr>))"

definition ResolvePendingRequest :: "string \<Rightarrow> 'r \<Rightarrow> ('m, 'r) Session \<Rightarrow> bool result \<times> ('m, 'r) Session" where
  "ResolvePendingRequest requestID msg s =
     (case map_of (Session_pendingReqs s) requestID of
        None \<Rightarrow> (Inr False, s)
      | Some c \<Rightarrow>
          let s1 = s\<lparr>Session_pendingReqs := AList.delete requestID (Session_pendingReqs s)\<rparr>
          in if c < length (Session_chans s) then
               (case try_send msg (Session_chans s ! c) of
                  Inl e \<Rightarrow> (Inl e, s1)
                | Inr ch \<Rightarrow>
                    (case close_at c (s1\<lparr>Session_chans := (Session_chans s)[c := ch]\<rparr>) of
                       Inl e \<Rightarrow> (Inl e, s1)
                     | Inr s2 \<Rightarrow> (Inr True, s2)))
             else (Inl (Panic ''send on nil channel''), s1))"

definition Session_HasCapability :: "string \<Rightarrow> ('m, 'r) Session \<Rightarrow> bool" where
  "Session_HasCapability capability s \<longleftrightarrow> capability \<in> set (Session_Capabilities s)"

definition CancelPendingRequest :: "string \<Rightarrow> ('m, 'r) Session \<Rightarrow> ('m, 'r) Session result" where
  "CancelPendingRequest requestID s =
     (case map_of (Session_pendingReqs s) requestID of
        None \<Rightarrow> Inr s
      | Some c \<Rightarrow> close_at c (s\<lparr>Session_pendingReqs := AList.delete requestID (Session_pendingReqs s)\<rparr>))"

section \<open>The waiters of a session\<close>

text \<open>
  Every pending request has a channel of its own that is open and empty, and every other channel has
  been closed.
\<close>

definition waiters_ok :: "('m, 'r) Session \<Rightarrow> bool" where
  "waiters_ok s \<longleftrightarrow> wf_map (Session_pendingReqs s) \<and> distinct (map snd (Session_pendingReqs s)) \<and>
     (\<forall>c \<in> snd ` set (Session_pendingReqs s). c < length (Session_chans s) \<and> Session_chans s ! c = new_chan) \<and>
     (\<forall>c < length (Session_chans s). c \<in> snd ` set (Session_pendingReqs s) \<or> ch_closed (Session_chans s ! c))"

lemma waiters_new [simp]: "waiters_ok (NewSession nodeID version capabilities now)"
  by (simp add: waiters_ok_def NewSession_def)

lemma waiters_register:
  assumes "waiters_ok s" and "requestID \<notin> set (keys (Session_pendingReqs s))"
  shows "waiters_ok (snd (RegisterPendingRequest requestID s))"
  using assms
  by (fastforce simp: waiters_ok_def RegisterPendingRequest_def Let_def update_fresh wf_map_def nth_append
      less_Suc_eq)

text \<open>Taking a request out and closing its channel, with or without a response in it.\<close>

lemma waiters_close:
  assumes "waiters_ok s" and "map_of (Session_pendingReqs s) requestID = Some c"
    and "ch = new_chan \<or> ch = new_chan\<lparr>ch_buf := Some m\<rparr>"
  shows "\<exists>s'. close_at c (s\<lparr>Session_pendingReqs := AList.delete requestID (Session_pendingReqs s),
      Session_chans := (Session_chans s)[c := ch]\<rparr>) = Inr s' \<and> waiters_ok s' \<and>
    Session_pendingReqs s' = AList.delete requestID (Session_pendingReqs s) \<and>
    Session_chans s' = (Session_chans s)[c := ch\<lparr>ch_closed := True\<rparr>] \<and> Session_closed s' = Session_closed s"
proof -
  have wf: "wf_map (Session_pendingReqs s)" and inj: "distinct (map snd (Session_pendingReqs s))"
    using assms(1) by (simp_all add: waiters_ok_def)
  have mem: "(requestID, c) \<in> set (Session_pendingReqs s)" by (rule map_of_SomeD [OF assms(2)])
  then have c: "c < length (Session_chans s)" using assms(1) by (force simp: waiters_ok_def)
  have snds: "snd ` set (AList.delete requestID (Session_pendingReqs s)) = snd ` set (Session_pendingReqs s) - {c}"
  proof -
    have "d = c \<longleftrightarrow> k = requestID" if "(k, d) \<in> set (Session_pendingReqs s)" for k d
    proof
      assume "d = c"
      then show "k = requestID"
        using inj_onD [of snd "set (Session_pendingReqs s)" "(k, d)" "(requestID, c)"] inj that mem
        by (simp add: distinct_map)
    next
      assume "k = requestID"
      then have "map_of (Session_pendingReqs s) requestID = Some d" using that map_of_eq_Some [OF wf] by simp
      then show "d = c" using assms(2) by simp
    qed
    then show ?thesis by (force simp: image_iff)
  qed
  let ?s = "s\<lparr>Session_pendingReqs := AList.delete requestID (Session_pendingReqs s),
      Session_chans := (Session_chans s)[c := ch\<lparr>ch_closed := True\<rparr>]\<rparr>"
  have "close_at c (s\<lparr>Session_pendingReqs := AList.delete requestID (Session_pendingReqs s),
      Session_chans := (Session_chans s)[c := ch]\<rparr>) = Inr ?s"
    using c assms(3) by (auto simp: close_at_def close_chan_def new_chan_def)
  moreover have "distinct (map snd (AList.delete requestID (Session_pendingReqs s)))"
    unfolding AList.delete_eq by (rule distinct_map_filter [OF inj])
  then have "waiters_ok ?s"
    using assms(1) c snds by (auto simp: waiters_ok_def nth_list_update simp del: set_alist_delete)
  ultimately show ?thesis by simp
qed

lemma new_chan_update: "c < length xs \<Longrightarrow> xs ! c = new_chan \<Longrightarrow> xs[c := new_chan] = xs"
  by (metis list_update_id)

lemma waiters_pending:
  "waiters_ok s \<Longrightarrow> map_of (Session_pendingReqs s) requestID = Some c \<Longrightarrow>
    c < length (Session_chans s) \<and> Session_chans s ! c = new_chan"
  by (force simp: waiters_ok_def dest: map_of_SomeD)

lemma waiters_cancel:
  assumes "waiters_ok s"
  shows "\<exists>s'. CancelPendingRequest requestID s = Inr s' \<and> waiters_ok s' \<and> Session_closed s' = Session_closed s \<and>
    map_of (Session_pendingReqs s') requestID = None"
proof (cases "map_of (Session_pendingReqs s) requestID")
  case None
  then show ?thesis using assms by (simp add: CancelPendingRequest_def)
next
  case (Some c)
  have "(Session_chans s)[c := new_chan] = Session_chans s"
    using waiters_pending [OF assms Some] by (simp add: new_chan_update)
  then have eq: "s\<lparr>Session_pendingReqs := AList.delete requestID (Session_pendingReqs s),
      Session_chans := (Session_chans s)[c := new_chan]\<rparr> =
    s\<lparr>Session_pendingReqs := AList.delete requestID (Session_pendingReqs s)\<rparr>"
    by simp
  obtain s' where "close_at c (s\<lparr>Session_pendingReqs := AList.delete requestID (Session_pendingReqs s)\<rparr>) = Inr s'"
    "waiters_ok s'" "Session_pendingReqs s' = AList.delete requestID (Session_pendingReqs s)" "Session_closed s' = Session_closed s"
    using waiters_close [OF assms Some, of new_chan] unfolding eq by auto
  then show ?thesis using Some by (simp add: CancelPendingRequest_def)
qed

lemma waiters_resolve:
  assumes "waiters_ok s"
  shows "\<exists>s'. ResolvePendingRequest requestID msg s =
      (Inr (map_of (Session_pendingReqs s) requestID \<noteq> None), s') \<and> waiters_ok s' \<and> Session_closed s' = Session_closed s \<and>
    (\<forall>c. map_of (Session_pendingReqs s) requestID = Some c \<longrightarrow> Session_chans s' ! c = \<lparr>ch_buf = Some msg, ch_closed = True\<rparr>)"
proof (cases "map_of (Session_pendingReqs s) requestID")
  case None
  then show ?thesis using assms by (simp add: ResolvePendingRequest_def)
next
  case (Some c)
  have c: "c < length (Session_chans s)" "Session_chans s ! c = new_chan"
    using waiters_pending [OF assms Some] by blast+
  obtain s' where s': "close_at c (s\<lparr>Session_pendingReqs := AList.delete requestID (Session_pendingReqs s),
      Session_chans := (Session_chans s)[c := new_chan\<lparr>ch_buf := Some msg\<rparr>]\<rparr>) = Inr s'" "waiters_ok s'"
    "Session_chans s' = (Session_chans s)[c := new_chan\<lparr>ch_buf := Some msg, ch_closed := True\<rparr>]"
    "Session_closed s' = Session_closed s"
    using waiters_close [OF assms Some, of "new_chan\<lparr>ch_buf := Some msg\<rparr>" msg] by auto
  have "try_send msg (Session_chans s ! c) = Inr (new_chan\<lparr>ch_buf := Some msg\<rparr>)"
    unfolding c(2) by (simp add: try_send_def new_chan_def)
  then show ?thesis using Some s' c by (simp add: ResolvePendingRequest_def Let_def new_chan_def)
qed

lemma waiters_fail_all:
  assumes "waiters_ok s" and "Session_pendingReqs s = reqs"
  shows "\<exists>s'. fail_all reqs s = Inr s' \<and> waiters_ok s' \<and> Session_pendingReqs s' = [] \<and>
    length (Session_chans s') = length (Session_chans s) \<and> Session_closed s' = Session_closed s"
  using assms
proof (induction reqs arbitrary: s)
  case (Cons req reqs)
  obtain requestID c where req: "req = (requestID, c)" by (cases req)
  have key: "map_of (Session_pendingReqs s) requestID = Some c" using Cons.prems(2) req by simp
  have "(Session_chans s)[c := new_chan] = Session_chans s"
    using waiters_pending [OF Cons.prems(1) key] by (simp add: new_chan_update)
  then have eq: "s\<lparr>Session_pendingReqs := AList.delete requestID (Session_pendingReqs s),
      Session_chans := (Session_chans s)[c := new_chan]\<rparr> =
    s\<lparr>Session_pendingReqs := AList.delete requestID (Session_pendingReqs s)\<rparr>"
    by simp
  obtain s' where s': "close_at c (s\<lparr>Session_pendingReqs := AList.delete requestID (Session_pendingReqs s)\<rparr>) = Inr s'"
    "waiters_ok s'" "Session_pendingReqs s' = AList.delete requestID (Session_pendingReqs s)"
    "length (Session_chans s') = length (Session_chans s)" "Session_closed s' = Session_closed s"
    using waiters_close [OF Cons.prems(1) key, of new_chan] unfolding eq by auto
  have "AList.delete requestID (Session_pendingReqs s) = reqs"
    using Cons.prems req by (force simp: waiters_ok_def wf_map_def AList.delete_eq intro!: filter_True)
  then show ?case using Cons.IH [OF s'(2)] s' req by auto
qed simp

lemma waiters_Close:
  assumes "waiters_ok s" and "\<not> Session_closed s"
  shows "\<exists>s'. Session_Close s = Inr s' \<and> waiters_ok s' \<and> Session_closed s' \<and>
    length (Session_chans s') = length (Session_chans s) \<and>
    (\<forall>c < length (Session_chans s). ch_closed (Session_chans s' ! c))"
proof -
  have "waiters_ok (s\<lparr>Session_closed := True\<rparr>)" using assms(1) by (simp add: waiters_ok_def)
  from waiters_fail_all [OF this, of "Session_pendingReqs s"] show ?thesis
    using assms(2) by (auto simp: Session_Close_def failPendingRequests_def waiters_ok_def)
qed

text \<open>The life of a session; request identifiers are not reused while they are pending.\<close>

inductive session_step :: "('m, 'r) Session \<Rightarrow> ('m, 'r) Session \<Rightarrow> bool" where
  send: "Session_Send stream_error msg s = (e, s') \<Longrightarrow> session_step s s'"
| enqueue: "Session_Enqueue msg s = (e, s') \<Longrightarrow> session_step s s'"
| work: "session_step s (dispatchLoop_round stream_error s)"
| ping: "session_step s (UpdateLastPing now s)"
| register: "requestID \<notin> set (keys (Session_pendingReqs s)) \<Longrightarrow> RegisterPendingRequest requestID s = (c, s') \<Longrightarrow>
    session_step s s'"
| resolve: "ResolvePendingRequest requestID msg s = (b, s') \<Longrightarrow> session_step s s'"
| cancel: "CancelPendingRequest requestID s = Inr s' \<Longrightarrow> session_step s s'"
| close: "Session_Close s = Inr s' \<Longrightarrow> session_step s s'"

abbreviation session_run :: "('m, 'r) Session \<Rightarrow> ('m, 'r) Session \<Rightarrow> bool" where
  "session_run \<equiv> session_step\<^sup>*\<^sup>*"

lemma waiters_frame [simp]:
  "waiters_ok (s\<lparr>Session_sent := x\<rparr>) = waiters_ok s" "waiters_ok (s\<lparr>Session_outbound := y\<rparr>) = waiters_ok s"
  "waiters_ok (s\<lparr>Session_lastPing := z\<rparr>) = waiters_ok s" "waiters_ok (s\<lparr>Session_closed := b\<rparr>) = waiters_ok s"
  by (simp_all add: waiters_ok_def)

lemma close_at_outbound: "close_at c s = Inr s' \<Longrightarrow> Session_outbound s' = Session_outbound s"
  by (auto simp: close_at_def split: if_splits sum.splits)

lemma fail_all_outbound: "fail_all reqs s = Inr s' \<Longrightarrow> Session_outbound s' = Session_outbound s"
  by (induction reqs s rule: fail_all.induct) (auto dest: close_at_outbound split: sum.splits)

lemma session_step_waiters: "session_step s s' \<Longrightarrow> waiters_ok s \<Longrightarrow> waiters_ok s'"
proof (induction rule: session_step.induct)
  case (register requestID s c s')
  then show ?case using waiters_register [of s requestID] by simp
next
  case (resolve requestID msg s b s')
  then show ?case using waiters_resolve [of s requestID msg] by auto
next
  case (cancel requestID s s')
  then show ?case using waiters_cancel [of s requestID] by auto
next
  case (close s s')
  then show ?case using waiters_Close [of s] by (cases "Session_closed s") (auto simp: Session_Close_def)
qed (auto simp: Session_Send_def Session_Enqueue_def dispatchLoop_round_def UpdateLastPing_def
    split: option.splits list.splits if_splits)

lemma session_step_outbound:
  "session_step s s' \<Longrightarrow> length (Session_outbound s) \<le> outboundBufferSize \<Longrightarrow>
    length (Session_outbound s') \<le> outboundBufferSize"
proof (induction rule: session_step.induct)
  case (resolve requestID msg s b s')
  then show ?case
    by (auto simp: ResolvePendingRequest_def Let_def dest!: close_at_outbound split: option.splits if_splits sum.splits)
next
  case (cancel requestID s s')
  then show ?case by (auto simp: CancelPendingRequest_def dest: close_at_outbound split: option.splits)
next
  case (close s s')
  then show ?case
    by (auto simp: Session_Close_def failPendingRequests_def dest: fail_all_outbound split: if_splits)
qed (auto simp: Session_Send_def Session_Enqueue_def dispatchLoop_round_def UpdateLastPing_def
    RegisterPendingRequest_def Let_def split: option.splits list.splits if_splits)

lemma session_run_ok:
  "session_run s s' \<Longrightarrow> waiters_ok s \<Longrightarrow> length (Session_outbound s) \<le> outboundBufferSize \<Longrightarrow>
    waiters_ok s' \<and> length (Session_outbound s') \<le> outboundBufferSize"
  by (induction rule: rtranclp_induct) (auto dest: session_step_waiters session_step_outbound)

section \<open>Theorems\<close>

definition sample_session :: "(string, string) Session" where
  "sample_session = NewSession 7 ''1.0'' [''tasks''] 100"

text \<open>
  C29. Nobody waits on a dead connection and nothing panics: on every run of a session, closing it
  closes every response channel it has handed out, each exactly once, and resolving or cancelling a
  request never touches a closed channel.  The outbound queue stays within its bound.
\<close>

theorem session_close_releases_waiters:
  assumes "session_run (NewSession nodeID version capabilities now) s" and "\<not> Session_closed s"
  shows "(\<exists>s'. Session_Close s = Inr s' \<and> (\<forall>c < length (Session_chans s). ch_closed (Session_chans s' ! c))) \<and>
    (\<forall>requestID msg. \<exists>s'. ResolvePendingRequest requestID msg s =
      (Inr (map_of (Session_pendingReqs s) requestID \<noteq> None), s')) \<and>
    (\<forall>requestID. \<exists>s'. CancelPendingRequest requestID s = Inr s') \<and>
    length (Session_outbound s) \<le> outboundBufferSize"
proof -
  have ok: "waiters_ok s" "length (Session_outbound s) \<le> outboundBufferSize"
    using session_run_ok [OF assms(1) waiters_new] by (simp_all add: NewSession_def)
  show ?thesis
    using waiters_Close [OF ok(1) assms(2)] waiters_resolve [OF ok(1)] waiters_cancel [OF ok(1)] ok(2) by blast
qed

theorem session_close_releases_waiters_witness:
  "\<exists>c s s'. RegisterPendingRequest ''r1'' sample_session = (c, s) \<and> Session_Close s = Inr s' \<and>
    ch_closed (Session_chans s' ! c)"
proof -
  obtain c s where reg: "RegisterPendingRequest ''r1'' sample_session = (c, s)"
    by (cases "RegisterPendingRequest ''r1'' sample_session")
  have "session_step sample_session s"
    using session_step.register [OF _ reg] by (simp add: sample_session_def NewSession_def)
  then have "session_run (NewSession 7 ''1.0'' [''tasks''] 100) s" unfolding sample_session_def by simp
  moreover have "\<not> Session_closed s" "c < length (Session_chans s)"
    using reg by (auto simp: RegisterPendingRequest_def Let_def sample_session_def NewSession_def)
  ultimately show ?thesis using session_close_releases_waiters [of 7 "''1.0''" "[''tasks'']" 100 s] reg by blast
qed

end
