(* ===== verification/Daemon_Registry.thy ===== *)
theory Daemon_Registry
  imports Daemon_Session
begin

text \<open>
  The registry of daemon connections, \<open>internal/grpc/session/registry.go\<close>: the connections of one panel
  instance and what it has heard of the other instances over the bus.

  A \<open>*Session\<close> is an address, a position in \<open>rg_sessions\<close>; two sessions are the same exactly when their
  addresses are.  The wire encoding is not modelled, the bus carries the message itself.  Whether a
  stream or the bus accepts a message is an argument.  \<open>rg_published\<close> is what the bus has accepted from
  this instance and \<open>rg_observed\<close> what the observer and the metrics registrar were told.
\<close>

section \<open>State\<close>

record DaemonSessionPayload =
  dsp_NodeID :: uint64
  dsp_InstanceID :: string
  dsp_Version :: string
  dsp_ConnectedAt :: time

datatype 'm bus_message =
    DaemonConnected DaemonSessionPayload
  | DaemonClosed DaemonSessionPayload
  | DaemonTaskMessage uint64 'm
  | DaemonCommandMessage uint64 'm
  | DaemonAttachMessage uint64 'm
  | DaemonMetricsRequestMessage uint64 string string 'm

datatype observation =
    SessionRegistered uint64 string bool
  | SessionUnregistered uint64 string time
  | RemoteWaiterRegistered string uint64 string
  | WaiterCancelled string

record ('m, 'r) Registry =
  rg_instanceID :: string
  rg_observer :: bool
  rg_metricsWaiters :: bool
  rg_sessions :: "('m, 'r) Session list"
  rg_localSessions :: "(uint64 \<times> nat) list"
  rg_globalNodes :: "(uint64 \<times> string) list"
  rg_published :: "'m bus_message list"
  rg_observed :: "observation list"

definition NewRegistry :: "string \<Rightarrow> bool \<Rightarrow> bool \<Rightarrow> ('m, 'r) Registry" where
  "NewRegistry instanceID observer metricsWaiters =
     \<lparr>rg_instanceID = instanceID, rg_observer = observer, rg_metricsWaiters = metricsWaiters, rg_sessions = [],
      rg_localSessions = [], rg_globalNodes = [], rg_published = [], rg_observed = []\<rparr>"

definition observe :: "bool \<Rightarrow> observation \<Rightarrow> ('m, 'r) Registry \<Rightarrow> ('m, 'r) Registry" where
  "observe on o' r = (if on then r\<lparr>rg_observed := rg_observed r @ [o']\<rparr> else r)"

definition Publish :: "error option \<Rightarrow> 'm bus_message \<Rightarrow> ('m, 'r) Registry \<Rightarrow> error option \<times> ('m, 'r) Registry" where
  "Publish bus_error m r =
     (case bus_error of None \<Rightarrow> (None, r\<lparr>rg_published := rg_published r @ [m]\<rparr>) | Some e \<Rightarrow> (Some e, r))"

definition on_session :: "nat \<Rightarrow> (('m, 'r) Session \<Rightarrow> ('m, 'r) Session) \<Rightarrow> ('m, 'r) Registry \<Rightarrow> ('m, 'r) Registry" where
  "on_session a f r = r\<lparr>rg_sessions := (rg_sessions r)[a := f (rg_sessions r ! a)]\<rparr>"

section \<open>Connecting and disconnecting\<close>

definition Registry_Register ::
    "error option \<Rightarrow> time \<Rightarrow> nat \<Rightarrow> ('m, 'r) Registry \<Rightarrow> error option \<times> ('m, 'r) Registry" where
  "Registry_Register bus_error now a r0 =
     (let session = rg_sessions r0 ! a;
          node = Session_NodeID session;
          (reconnect, r1) =
            (case map_of (rg_localSessions r0) node of
               None \<Rightarrow> (False, r0)
             | Some old \<Rightarrow> (True, on_session old Session_Cancel r0));
          r2 = r1\<lparr>rg_localSessions := AList.update node a (rg_localSessions r1)\<rparr>;
          r3 = observe (rg_observer r2) (SessionRegistered node (Session_Version session) reconnect) r2;
          (_, r4) = Publish bus_error
            (DaemonConnected \<lparr>dsp_NodeID = node, dsp_InstanceID = rg_instanceID r3,
               dsp_Version = Session_Version session, dsp_ConnectedAt = now\<rparr>) r3
      in (None, r4))"

definition publishSessionClosed ::
    "error option \<Rightarrow> nat \<Rightarrow> ('m, 'r) Registry \<Rightarrow> error option \<times> ('m, 'r) Registry" where
  "publishSessionClosed bus_error a r =
     (let session = rg_sessions r ! a;
          r1 = observe (rg_observer r) (SessionUnregistered (Session_NodeID session) (Session_Version session)
                 (Session_ConnectedAt session)) r;
          (_, r2) = Publish bus_error
            (DaemonClosed \<lparr>dsp_NodeID = Session_NodeID session, dsp_InstanceID = rg_instanceID r1,
               dsp_Version = Session_Version session, dsp_ConnectedAt = Session_ConnectedAt session\<rparr>) r1
      in (None, r2))"

definition Registry_Unregister ::
    "error option \<Rightarrow> uint64 \<Rightarrow> ('m, 'r) Registry \<Rightarrow> error option \<times> ('m, 'r) Registry" where
  "Registry_Unregister bus_error nodeID r =
     (case map_of (rg_localSessions r) nodeID of
        None \<Rightarrow> (None, r)
      | Some a \<Rightarrow>
          publishSessionClosed bus_error a (r\<lparr>rg_localSessions := AList.delete nodeID (rg_localSessions r)\<rparr>))"

definition UnregisterSession ::
    "error option \<Rightarrow> nat \<Rightarrow> ('m, 'r) Registry \<Rightarrow> error option \<times> ('m, 'r) Registry" where
  "UnregisterSession bus_error a r =
     (let node = Session_NodeID (rg_sessions r ! a)
      in if map_of (rg_localSessions r) node \<noteq> Some a then (None, r)
         else publishSessionClosed bus_error a (r\<lparr>rg_localSessions := AList.delete node (rg_localSessions r)\<rparr>))"

definition GetSession :: "uint64 \<Rightarrow> ('m, 'r) Registry \<Rightarrow> nat option" where
  "GetSession nodeID r = map_of (rg_localSessions r) nodeID"

definition IsConnected :: "uint64 \<Rightarrow> ('m, 'r) Registry \<Rightarrow> bool" where
  "IsConnected nodeID r \<longleftrightarrow> GetSession nodeID r \<noteq> None"

definition IsConnectedAnywhere :: "uint64 \<Rightarrow> ('m, 'r) Registry \<Rightarrow> bool" where
  "IsConnectedAnywhere nodeID r \<longleftrightarrow> IsConnected nodeID r \<or> map_of (rg_globalNodes r) nodeID \<noteq> None"

definition Registry_HasCapability :: "uint64 \<Rightarrow> string \<Rightarrow> ('m, 'r) Registry \<Rightarrow> bool" where
  "Registry_HasCapability nodeID capability r =
     (case map_of (rg_localSessions r) nodeID of
        None \<Rightarrow> False | Some a \<Rightarrow> Session_HasCapability capability (rg_sessions r ! a))"

definition handleSessionEvent :: "'m bus_message \<Rightarrow> ('m, 'r) Registry \<Rightarrow> ('m, 'r) Registry" where
  "handleSessionEvent msg r =
     (case msg of
        DaemonConnected p \<Rightarrow>
          if dsp_InstanceID p = rg_instanceID r then r
          else r\<lparr>rg_globalNodes := AList.update (dsp_NodeID p) (dsp_InstanceID p) (rg_globalNodes r)\<rparr>
      | DaemonClosed p \<Rightarrow> r\<lparr>rg_globalNodes := AList.delete (dsp_NodeID p) (rg_globalNodes r)\<rparr>
      | _ \<Rightarrow> r)"

section \<open>Sending\<close>

text \<open>To the local stream of a node, or to whichever instance holds it.\<close>

definition send_local ::
    "error option \<Rightarrow> nat \<Rightarrow> 'm \<Rightarrow> ('m, 'r) Registry \<Rightarrow> error option \<times> ('m, 'r) Registry" where
  "send_local stream_error a m r =
     (case Session_Send stream_error m (rg_sessions r ! a) of
        (e, s') \<Rightarrow> (e, r\<lparr>rg_sessions := (rg_sessions r)[a := s']\<rparr>))"

definition SendTask ::
    "error option \<Rightarrow> error option \<Rightarrow> uint64 \<Rightarrow> 'm \<Rightarrow> ('m, 'r) Registry \<Rightarrow> error option \<times> ('m, 'r) Registry" where
  "SendTask stream_error bus_error nodeID task r =
     (case map_of (rg_localSessions r) nodeID of
        Some a \<Rightarrow>
          (case send_local stream_error a task r of
             (Some e, r') \<Rightarrow> (Some (WithMessage e ''send task to local session''), r')
           | (None, r') \<Rightarrow> (None, r'))
      | None \<Rightarrow> Publish bus_error (DaemonTaskMessage nodeID task) r)"

definition SendCommand ::
    "error option \<Rightarrow> error option \<Rightarrow> uint64 \<Rightarrow> 'm \<Rightarrow> ('m, 'r) Registry \<Rightarrow> error option \<times> ('m, 'r) Registry" where
  "SendCommand stream_error bus_error nodeID cmd r =
     (case map_of (rg_localSessions r) nodeID of
        Some a \<Rightarrow> send_local stream_error a cmd r
      | None \<Rightarrow> Publish bus_error (DaemonCommandMessage nodeID cmd) r)"

definition sendOrDispatchAttach ::
    "error option \<Rightarrow> error option \<Rightarrow> uint64 \<Rightarrow> 'm \<Rightarrow> ('m, 'r) Registry \<Rightarrow> error option \<times> ('m, 'r) Registry" where
  "sendOrDispatchAttach stream_error bus_error nodeID msg r =
     (case map_of (rg_localSessions r) nodeID of
        Some a \<Rightarrow> send_local stream_error a msg r
      | None \<Rightarrow> Publish bus_error (DaemonAttachMessage nodeID msg) r)"

definition SendMetricsRequest ::
    "error option \<Rightarrow> error option \<Rightarrow> uint64 \<Rightarrow> string \<Rightarrow> 'm \<Rightarrow> ('m, 'r) Registry \<Rightarrow>
     error option \<times> ('m, 'r) Registry" where
  "SendMetricsRequest stream_error bus_error nodeID requestID msg r =
     (case map_of (rg_localSessions r) nodeID of
        Some a \<Rightarrow>
          (case send_local stream_error a msg r of
             (Some e, r') \<Rightarrow> (Some (WithMessage e ''send metrics request to local session''), r')
           | (None, r') \<Rightarrow> (None, r'))
      | None \<Rightarrow> Publish bus_error (DaemonMetricsRequestMessage nodeID requestID (rg_instanceID r) msg) r)"

definition enqueue_local :: "nat \<Rightarrow> 'm \<Rightarrow> ('m, 'r) Registry \<Rightarrow> error option \<times> ('m, 'r) Registry" where
  "enqueue_local a m r =
     (case Session_Enqueue m (rg_sessions r ! a) of
        (e, s') \<Rightarrow> (e, r\<lparr>rg_sessions := (rg_sessions r)[a := s']\<rparr>))"

definition handleTaskDispatch :: "uint64 \<Rightarrow> 'm \<Rightarrow> ('m, 'r) Registry \<Rightarrow> error option \<times> ('m, 'r) Registry" where
  "handleTaskDispatch nodeID task r =
     (case map_of (rg_localSessions r) nodeID of
        None \<Rightarrow> (None, r)
      | Some a \<Rightarrow>
          (case enqueue_local a task r of
             (Some e, r') \<Rightarrow> (Some (WithMessage e ''enqueue task to session''), r')
           | (None, r') \<Rightarrow> (None, r')))"

definition handleAttachDispatch :: "uint64 \<Rightarrow> 'm \<Rightarrow> ('m, 'r) Registry \<Rightarrow> error option \<times> ('m, 'r) Registry" where
  "handleAttachDispatch nodeID msg r =
     (case map_of (rg_localSessions r) nodeID of
        None \<Rightarrow> (None, r)
      | Some a \<Rightarrow>
          (case enqueue_local a msg r of
             (Some e, r') \<Rightarrow> (Some (WithMessage e ''enqueue attach message to session''), r')
           | (None, r') \<Rightarrow> (None, r')))"

definition handleMetricsRequest ::
    "uint64 \<Rightarrow> string \<Rightarrow> string \<Rightarrow> 'm \<Rightarrow> ('m, 'r) Registry \<Rightarrow> error option \<times> ('m, 'r) Registry" where
  "handleMetricsRequest nodeID requestID instanceID msg r =
     (case map_of (rg_localSessions r) nodeID of
        None \<Rightarrow> (None, r)
      | Some a \<Rightarrow>
          let r1 = observe (rg_metricsWaiters r \<and> instanceID \<noteq> '''' \<and> instanceID \<noteq> rg_instanceID r)
                     (RemoteWaiterRegistered requestID nodeID instanceID) r
          in case enqueue_local a msg r1 of
               (Some e, r2) \<Rightarrow>
                 (Some (WithMessage e ''enqueue metrics request to session''),
                  observe (rg_metricsWaiters r2) (WaiterCancelled requestID) r2)
             | (None, r2) \<Rightarrow> (None, r2))"

definition ConnectedNodeIDs :: "('m, 'r) Registry \<Rightarrow> uint64 list" where
  "ConnectedNodeIDs r = keys (rg_localSessions r)"

definition SessionCount :: "('m, 'r) Registry \<Rightarrow> nat" where
  "SessionCount r = length (rg_localSessions r)"

definition BroadcastToAll :: "(nat \<Rightarrow> error option) \<Rightarrow> 'm \<Rightarrow> ('m, 'r) Registry \<Rightarrow> ('m, 'r) Registry" where
  "BroadcastToAll stream_error m r =
     fold (\<lambda>(_, a) r. snd (send_local (stream_error a) a m r)) (rg_localSessions r) r"

definition CloseAllSessions :: "('m, 'r) Registry \<Rightarrow> ('m, 'r) Registry" where
  "CloseAllSessions r = fold (\<lambda>(_, a). on_session a Session_Cancel) (rg_localSessions r) r"

section \<open>The life of a connection\<close>

text \<open>
  A registered address is the address of a session of that node.
\<close>

definition registry_ok :: "('m, 'r) Registry \<Rightarrow> bool" where
  "registry_ok r \<longleftrightarrow> wf_map (rg_localSessions r) \<and>
     (\<forall>(n, a) \<in> set (rg_localSessions r). a < length (rg_sessions r) \<and> Session_NodeID (rg_sessions r ! a) = n)"

text \<open>
  What an instance does that does not concern the connection of node \<open>n\<close> at address \<open>b\<close>: registering
  sessions of other nodes, cleaning up after other streams, of the same node too, dropping other
  nodes, bus events and traffic.
\<close>

inductive other_step :: "uint64 \<Rightarrow> nat \<Rightarrow> ('m, 'r) Registry \<Rightarrow> ('m, 'r) Registry \<Rightarrow> bool" for n b where
  connect: "node \<noteq> n \<Longrightarrow>
    Registry_Register bus_error now (length (rg_sessions r))
      (r\<lparr>rg_sessions := rg_sessions r @ [NewSession node version capabilities now]\<rparr>) = (e, r') \<Longrightarrow> other_step n b r r'"
| cleanup: "a \<noteq> b \<Longrightarrow> a < length (rg_sessions r) \<Longrightarrow> UnregisterSession bus_error a r = (e, r') \<Longrightarrow> other_step n b r r'"
| drop_node: "node \<noteq> n \<Longrightarrow> Registry_Unregister bus_error node r = (e, r') \<Longrightarrow> other_step n b r r'"
| event: "other_step n b r (handleSessionEvent m r)"
| task: "SendTask stream_error bus_error node m r = (e, r') \<Longrightarrow> other_step n b r r'"
| dispatched: "handleTaskDispatch node m r = (e, r') \<Longrightarrow> other_step n b r r'"

text \<open>The messages about closed connections of a node that an instance has published.\<close>

definition closed_published :: "uint64 \<Rightarrow> ('m, 'r) Registry \<Rightarrow> nat" where
  "closed_published n r = length (filter (\<lambda>m. case m of DaemonClosed p \<Rightarrow> dsp_NodeID p = n | _ \<Rightarrow> False) (rg_published r))"

lemma observe_simps [simp]:
  "rg_sessions (observe on o' r) = rg_sessions r" "rg_localSessions (observe on o' r) = rg_localSessions r"
  "rg_globalNodes (observe on o' r) = rg_globalNodes r" "rg_published (observe on o' r) = rg_published r"
  "rg_instanceID (observe on o' r) = rg_instanceID r" "rg_observer (observe on o' r) = rg_observer r"
  by (simp_all add: observe_def)

lemma Publish_simps [simp]:
  "rg_sessions (snd (Publish bus_error m r)) = rg_sessions r"
  "rg_localSessions (snd (Publish bus_error m r)) = rg_localSessions r"
  "rg_globalNodes (snd (Publish bus_error m r)) = rg_globalNodes r"
  "rg_instanceID (snd (Publish bus_error m r)) = rg_instanceID r"
  "rg_published (snd (Publish bus_error m r)) = rg_published r @ (if bus_error = None then [m] else [])"
  by (auto simp: Publish_def split: option.splits)

lemma node_update:
  "Session_NodeID s' = Session_NodeID (xs ! a) \<Longrightarrow> Session_NodeID (xs[a := s'] ! i) = Session_NodeID (xs ! i)"
  by (cases "a < length xs"; cases "a = i") (simp_all add: list_update_beyond)

lemma publishSessionClosed_frame:
  assumes "publishSessionClosed bus_error a r = (e, r')"
  shows "rg_sessions r' = rg_sessions r" "rg_localSessions r' = rg_localSessions r" "rg_globalNodes r' = rg_globalNodes r"
    "rg_instanceID r' = rg_instanceID r"
    "rg_published r' = rg_published r @ (if bus_error = None then
      [DaemonClosed \<lparr>dsp_NodeID = Session_NodeID (rg_sessions r ! a), dsp_InstanceID = rg_instanceID r,
        dsp_Version = Session_Version (rg_sessions r ! a), dsp_ConnectedAt = Session_ConnectedAt (rg_sessions r ! a)\<rparr>] else [])"
  using assms unfolding publishSessionClosed_def Let_def case_prod_beta by auto

lemma Register_frame:
  assumes "Registry_Register bus_error now a r = (e, r')"
  shows "rg_localSessions r' = AList.update (Session_NodeID (rg_sessions r ! a)) a (rg_localSessions r)"
    "length (rg_sessions r') = length (rg_sessions r)"
    "\<forall>i < length (rg_sessions r). Session_NodeID (rg_sessions r' ! i) = Session_NodeID (rg_sessions r ! i)"
    "rg_instanceID r' = rg_instanceID r" "rg_globalNodes r' = rg_globalNodes r"
    "rg_published r' = rg_published r @ (if bus_error = None then
      [DaemonConnected \<lparr>dsp_NodeID = Session_NodeID (rg_sessions r ! a), dsp_InstanceID = rg_instanceID r,
        dsp_Version = Session_Version (rg_sessions r ! a), dsp_ConnectedAt = now\<rparr>] else [])"
  using assms unfolding Registry_Register_def Let_def on_session_def case_prod_beta
  by (auto simp: node_update Session_Cancel_def split: option.splits)

lemma send_local_frame:
  assumes "send_local stream_error a m r = (e, r')"
  shows "rg_localSessions r' = rg_localSessions r" "length (rg_sessions r') = length (rg_sessions r)"
    "\<forall>i < length (rg_sessions r). Session_NodeID (rg_sessions r' ! i) = Session_NodeID (rg_sessions r ! i)"
    "rg_published r' = rg_published r"
  using assms
  by (auto simp: send_local_def Session_Send_def node_update split: option.splits)

lemma enqueue_local_frame:
  assumes "enqueue_local a m r = (e, r')"
  shows "rg_localSessions r' = rg_localSessions r" "length (rg_sessions r') = length (rg_sessions r)"
    "\<forall>i < length (rg_sessions r). Session_NodeID (rg_sessions r' ! i) = Session_NodeID (rg_sessions r ! i)"
    "rg_published r' = rg_published r"
  using assms
  by (auto simp: enqueue_local_def Session_Enqueue_def node_update split: if_splits)

lemma registry_ok_same:
  assumes "registry_ok r" and "rg_localSessions r' = rg_localSessions r" "length (rg_sessions r') = length (rg_sessions r)"
    "\<forall>i < length (rg_sessions r). Session_NodeID (rg_sessions r' ! i) = Session_NodeID (rg_sessions r ! i)"
  shows "registry_ok r'"
  using assms by (auto simp: registry_ok_def)

text \<open>Such a step keeps the connection and publishes nothing about its end.\<close>

lemma other_step_keeps:
  assumes "other_step n b r r'" and "registry_ok r" and "GetSession n r = Some b"
  shows "registry_ok r' \<and> GetSession n r' = Some b \<and> closed_published n r' = closed_published n r"
  using assms
proof (induction rule: other_step.induct)
  case (connect node bus_error now r version capabilities e r')
  note f = Register_frame [OF connect(2)]
  show ?case
    using connect(1,3,4) f(1,6) f(2) f(3)
    by (auto simp: registry_ok_def GetSession_def closed_published_def nth_append NewSession_def
        dest!: set_alist_update split: if_splits)
next
  case (cleanup a r bus_error e r')
  let ?m = "Session_NodeID (rg_sessions r ! a)"
  show ?case
  proof (cases "map_of (rg_localSessions r) ?m = Some a")
    case False
    then show ?thesis using cleanup by (simp add: UnregisterSession_def)
  next
    case True
    then have "?m \<noteq> n" using cleanup by (auto simp: GetSession_def)
    moreover have "publishSessionClosed bus_error a (r\<lparr>rg_localSessions := AList.delete ?m (rg_localSessions r)\<rparr>) = (e, r')"
      using cleanup(3) True by (simp add: UnregisterSession_def)
    note f = publishSessionClosed_frame [OF this]
    ultimately show ?thesis
      using cleanup(4,5) f by (auto simp: registry_ok_def GetSession_def closed_published_def)
  qed
next
  case (drop_node node bus_error r e r')
  show ?case
  proof (cases "map_of (rg_localSessions r) node")
    case None
    then show ?thesis using drop_node by (simp add: Registry_Unregister_def)
  next
    case (Some a)
    then have "Session_NodeID (rg_sessions r ! a) = node"
      using drop_node(3) by (auto simp: registry_ok_def dest!: map_of_SomeD)
    moreover have "publishSessionClosed bus_error a (r\<lparr>rg_localSessions := AList.delete node (rg_localSessions r)\<rparr>) = (e, r')"
      using drop_node(2) Some by (simp add: Registry_Unregister_def)
    note f = publishSessionClosed_frame [OF this]
    ultimately show ?thesis
      using drop_node(1,3,4) f by (auto simp: registry_ok_def GetSession_def closed_published_def)
  qed
next
  case (event r m)
  then show ?case
    by (cases m) (auto simp: handleSessionEvent_def registry_ok_def GetSession_def closed_published_def)
next
  case (task stream_error bus_error node m r e r')
  show ?case
  proof (cases "map_of (rg_localSessions r) node")
    case None
    then have r': "r' = snd (Publish bus_error (DaemonTaskMessage node m) r)" using task(1) by (simp add: SendTask_def)
    then show ?thesis using task(2,3) by (simp add: registry_ok_def GetSession_def closed_published_def)
  next
    case (Some a)
    then obtain e' where "send_local stream_error a m r = (e', r')"
      using task(1) by (auto simp: SendTask_def split: prod.splits option.splits)
    note f = send_local_frame [OF this]
    then show ?thesis
      using task(2,3) registry_ok_same [OF task(2) f(1-3)] by (simp add: GetSession_def closed_published_def)
  qed
next
  case (dispatched node m r e r')
  show ?case
  proof (cases "map_of (rg_localSessions r) node")
    case None
    then show ?thesis using dispatched by (simp add: handleTaskDispatch_def)
  next
    case (Some a)
    then obtain e' where "enqueue_local a m r = (e', r')"
      using dispatched(1) by (auto simp: handleTaskDispatch_def split: prod.splits option.splits)
    note f = enqueue_local_frame [OF this]
    then show ?thesis
      using dispatched(2,3) registry_ok_same [OF dispatched(2) f(1-3)] by (simp add: GetSession_def closed_published_def)
  qed
qed

lemma stale_close_forgets:
  assumes "a < length (rg_sessions rA)" "Session_NodeID (rg_sessions rA ! a) = n"
    and "b < length (rg_sessions rB)" "Session_NodeID (rg_sessions rB ! b) = n"
    and "Registry_Register None t1 a rA = (e1, rA1)" and "Registry_Register None t2 b rB = (e2, rB1)"
    and "UnregisterSession None a rA1 = (e3, rA2)" and "GetSession n rC = None"
  shows "IsConnected n rB1 \<and>
    \<not> IsConnectedAnywhere n (fold handleSessionEvent
        (drop (length (rg_published rA)) (rg_published rA1) @ drop (length (rg_published rB)) (rg_published rB1) @
         drop (length (rg_published rA1)) (rg_published rA2)) rC)"
proof -
  note fA = Register_frame [OF assms(5)] and fB = Register_frame [OF assms(6)]
  have "map_of (rg_localSessions rA1) n = Some a" "Session_NodeID (rg_sessions rA1 ! a) = n"
    using fA(1,3) assms(1,2) by simp_all
  then have "publishSessionClosed None a (rA1\<lparr>rg_localSessions := AList.delete n (rg_localSessions rA1)\<rparr>) = (e3, rA2)"
    using assms(7) by (simp add: UnregisterSession_def)
  note fC = publishSessionClosed_frame [OF this]
  have ev: "rg_localSessions (handleSessionEvent m r) = rg_localSessions r" for m and r :: "('m, 'r) Registry"
    by (cases m) (simp_all add: handleSessionEvent_def)
  have "rg_localSessions (fold handleSessionEvent ms r) = rg_localSessions r" for ms and r :: "('m, 'r) Registry"
    by (induction ms arbitrary: r) (simp_all add: ev)
  then show ?thesis
    using fA(6) fB(1,6) fC(5) assms(4,8) \<open>Session_NodeID (rg_sessions rA1 ! a) = n\<close>
    by (simp add: IsConnectedAnywhere_def IsConnected_def GetSession_def handleSessionEvent_def)
qed

section \<open>Theorems\<close>

definition sample_registry :: "string \<Rightarrow> (string, string) Registry" where
  "sample_registry inst = (NewRegistry inst True True)\<lparr>rg_sessions := [NewSession 7 ''1.0'' [] 50]\<rparr>"



text \<open>
  A stale close hides a live connection from the other instances: a daemon that was connected to
  instance \<open>A\<close> connects to \<open>B\<close>, and \<open>A\<close> then cleans up its old stream.  Once these three messages have
  reached a third instance \<open>C\<close>, \<open>C\<close> reports the node as connected nowhere, although \<open>B\<close> holds it: the
  close message is applied without looking at the instance it came from.
\<close>

theorem stale_close_hides_session:
  assumes "a < length (rg_sessions rA)" "Session_NodeID (rg_sessions rA ! a) = n"
    and "b < length (rg_sessions rB)" "Session_NodeID (rg_sessions rB ! b) = n"
    and "Registry_Register None t1 a rA = (e1, rA1)" and "Registry_Register None t2 b rB = (e2, rB1)"
    and "UnregisterSession None a rA1 = (e3, rA2)" and "GetSession n rC = None"
  shows "IsConnected n rB1 \<and>
    \<not> IsConnectedAnywhere n (fold handleSessionEvent
        (drop (length (rg_published rA)) (rg_published rA1) @ drop (length (rg_published rB)) (rg_published rB1) @
         drop (length (rg_published rA1)) (rg_published rA2)) rC)"
  using assms by (rule stale_close_forgets)

theorem stale_close_hides_session_witness:
  "\<exists>rA1 rB1 rA2. Registry_Register None 60 0 (sample_registry ''A'') = (None, rA1) \<and>
    Registry_Register None 61 0 (sample_registry ''B'') = (None, rB1) \<and> UnregisterSession None 0 rA1 = (None, rA2) \<and>
    IsConnected 7 rB1 \<and>
    \<not> IsConnectedAnywhere 7 (fold handleSessionEvent (rg_published rA1 @ rg_published rB1 @
        drop (length (rg_published rA1)) (rg_published rA2)) (NewRegistry ''C'' True True))"
proof -
  let ?A = "sample_registry ''A''" and ?B = "sample_registry ''B''"
  let ?A1 = "snd (Registry_Register None 60 0 ?A)" and ?B1 = "snd (Registry_Register None 61 0 ?B)"
  let ?A2 = "snd (UnregisterSession None 0 ?A1)"
  have run: "Registry_Register None 60 0 ?A = (None, ?A1)" "Registry_Register None 61 0 ?B = (None, ?B1)"
    "UnregisterSession None 0 ?A1 = (None, ?A2)"
    by (simp_all add: Registry_Register_def UnregisterSession_def publishSessionClosed_def Let_def case_prod_beta)
  have pre: "0 < length (rg_sessions ?A)" "Session_NodeID (rg_sessions ?A ! 0) = 7" "0 < length (rg_sessions ?B)"
    "Session_NodeID (rg_sessions ?B ! 0) = 7" "GetSession 7 (NewRegistry ''C'' True True) = None"
    by (simp_all add: sample_registry_def NewRegistry_def NewSession_def GetSession_def)
  have none: "rg_published ?A = []" "rg_published ?B = []" by (simp_all add: sample_registry_def NewRegistry_def)
  from stale_close_hides_session [OF pre(1-4) run pre(5)] run show ?thesis
    unfolding none list.size drop_0 by blast
qed

end
