(* ===== verification/Task_Dispatcher.thy ===== *)
theory Task_Dispatcher
  imports Task_Handler Daemon_Registry
begin

text \<open>
  How tasks reach the daemons: the dispatcher \<open>internal/services/taskdispatcher/dispatcher.go\<close> and the
  sweep for abandoned tasks, \<open>internal/services/taskreaper/reaper.go\<close>.

  The dispatcher works on a world with the panel's stores and messages and the registry of its
  instance.  The repositories of games, game mods, nodes and server settings, of which it only reads a
  configuration to send along, are functions of an environment record, which also says whether a
  stream or the bus accepts a message and which request identifiers are drawn.  The configuration
  message carries the loaded values; their wire encoding is not modelled.
\<close>

section \<open>Messages and environment\<close>

record ('gm, 'os, 'st, 'g) ServerConfigUpdate =
  scu_Server :: Server
  scu_ServerGameMod :: "'gm option"
  scu_NodeOS :: "'os option"
  scu_Settings :: "'st list"
  scu_Game :: "'g option"
  scu_GameMod :: "'gm option"

datatype ('gm, 'os, 'st, 'g) GatewayMessage =
    GatewayMessage_Task string proto_DaemonTask
  | GatewayMessage_TaskCancel string uint64 string
  | GatewayMessage_ServerConfigUpdate string "('gm, 'os, 'st, 'g) ServerConfigUpdate"

record ('gm, 'os, 'st, 'g) dispatch_env =
  env_newID :: "uint \<Rightarrow> string"
  env_stream :: "('gm, 'os, 'st, 'g) GatewayMessage \<Rightarrow> error option"
  env_bus :: "('gm, 'os, 'st, 'g) GatewayMessage \<Rightarrow> error option"
  env_gameMods :: "uint list \<Rightarrow> 'gm list result"
  env_nodeOSs :: "uint list \<Rightarrow> 'os list result"
  env_settings :: "uint list \<Rightarrow> 'st list result"
  env_games :: "(string list \<Rightarrow> 'g list result) option"

record ('t, 's) Dispatcher =
  dp_daemonTaskRepo :: "'t TaskRepo"
  dp_serverRepo :: "'s ServerRepo"
  dp_publisher :: bool
  dp_pluginEvents :: bool

record ('t, 's, 'gm, 'os, 'st, 'g, 'r) dispatch_world =
  d_world :: "('t, 's) world"
  d_registry :: "(('gm, 'os, 'st, 'g) GatewayMessage, 'r) Registry"

abbreviation d_tasks :: "('t, 's, 'gm, 'os, 'st, 'g, 'r) dispatch_world \<Rightarrow> 't" where
  "d_tasks d \<equiv> w_tasks (d_world d)"

definition set_tasks ::
    "'t \<Rightarrow> ('t, 's, 'gm, 'os, 'st, 'g, 'r) dispatch_world \<Rightarrow> ('t, 's, 'gm, 'os, 'st, 'g, 'r) dispatch_world" where
  "set_tasks t d = d\<lparr>d_world := (d_world d)\<lparr>w_tasks := t\<rparr>\<rparr>"

section \<open>The dispatcher\<close>

definition first_of :: "'a list result \<Rightarrow> 'a option" where
  "first_of r = (case r of Inr (x # _) \<Rightarrow> Some x | _ \<Rightarrow> None)"

definition send_task ::
    "('gm, 'os, 'st, 'g) dispatch_env \<Rightarrow> uint64 \<Rightarrow> ('gm, 'os, 'st, 'g) GatewayMessage \<Rightarrow>
     ('t, 's, 'gm, 'os, 'st, 'g, 'r) dispatch_world \<Rightarrow>
     error option \<times> ('t, 's, 'gm, 'os, 'st, 'g, 'r) dispatch_world" where
  "send_task env nodeID msg d =
     (case SendTask (env_stream env msg) (env_bus env msg) nodeID msg (d_registry d) of
        (e, r') \<Rightarrow> (e, d\<lparr>d_registry := r'\<rparr>))"

definition sendServerConfigUpdate ::
    "('gm, 'os, 'st, 'g) dispatch_env \<Rightarrow> ('t, 's) Dispatcher \<Rightarrow> DaemonTask \<Rightarrow>
     ('t, 's, 'gm, 'os, 'st, 'g, 'r) dispatch_world \<Rightarrow> ('t, 's, 'gm, 'os, 'st, 'g, 'r) dispatch_world" where
  "sendServerConfigUpdate env p task d =
     (case DaemonTask_ServerID task of
        None \<Rightarrow> d
      | Some serverID \<Rightarrow>
          (case sr_Find (dp_serverRepo p) (w_servers (d_world d)) (Some (FindServerByIDs [serverID])) [] None of
             Inr (server # _) \<Rightarrow>
               let gameMod = first_of (env_gameMods env [Server_GameModID server]);
                   nodeOS = first_of (env_nodeOSs env [Server_DSID server]);
                   settings = (case env_settings env [serverID] of Inl _ \<Rightarrow> [] | Inr st \<Rightarrow> st);
                   game = (case env_games env of None \<Rightarrow> None | Some findGames \<Rightarrow> first_of (findGames [Server_GameID server]));
                   update = \<lparr>scu_Server = server, scu_ServerGameMod = gameMod, scu_NodeOS = nodeOS,
                             scu_Settings = settings, scu_Game = game, scu_GameMod = gameMod\<rparr>
               in snd (send_task env (DaemonTask_DedicatedServerID task)
                     (GatewayMessage_ServerConfigUpdate (env_newID env (DaemonTask_ID task)) update) d)
           | _ \<Rightarrow> d))"

definition dispatchTaskCreatedEvent :: "('t, 's) Dispatcher \<Rightarrow> DaemonTask \<Rightarrow> ('t, 's) world \<Rightarrow> ('t, 's) world" where
  "dispatchTaskCreatedEvent p task =
     emit (dp_pluginEvents p)
       (PluginTaskEvent EVENT_TYPE_DAEMON_TASK_CREATED (DaemonTask_ID task) (DaemonTask_DedicatedServerID task)
          (DaemonTask_ServerID task) (DaemonTask_Task task) (DaemonTask_Status task))"

definition task_message ::
    "('gm, 'os, 'st, 'g) dispatch_env \<Rightarrow> DaemonTask \<Rightarrow> ('gm, 'os, 'st, 'g) GatewayMessage" where
  "task_message env task =
     GatewayMessage_Task (env_newID env (DaemonTask_ID task)) (DomainDaemonTaskToProto task)"

text \<open>
  \<open>Dispatch\<close> in two parts, because the daemon can answer between them: up to the send, with the saved
  task and the outcome of the send, and the second save, at a later time.
\<close>

definition dispatch_send ::
    "('gm, 'os, 'st, 'g) dispatch_env \<Rightarrow> ('t, 's) Dispatcher \<Rightarrow> time \<Rightarrow> DaemonTask \<Rightarrow>
     ('t, 's, 'gm, 'os, 'st, 'g, 'r) dispatch_world \<Rightarrow>
     (DaemonTask \<times> error option) result \<times> ('t, 's, 'gm, 'os, 'st, 'g, 'r) dispatch_world" where
  "dispatch_send env p now task0 d =
     (case tr_Save (dp_daemonTaskRepo p) now task0 (d_tasks d) of
        (Some e, _, t') \<Rightarrow> (Inl (WithMessage e ''persist task''), set_tasks t' d)
      | (None, task, t') \<Rightarrow>
          let d1 = set_tasks t' d;
              d2 = d1\<lparr>d_world := dispatchTaskCreatedEvent p task (d_world d1)\<rparr>;
              d3 = sendServerConfigUpdate env p task d2
          in case send_task env (DaemonTask_DedicatedServerID task) (task_message env task) d3 of
               (e, d4) \<Rightarrow> (Inr (task, e), d4))"

definition dispatch_finish ::
    "('t, 's) Dispatcher \<Rightarrow> time \<Rightarrow> DaemonTask \<Rightarrow> error option \<Rightarrow>
     ('t, 's, 'gm, 'os, 'st, 'g, 'r) dispatch_world \<Rightarrow>
     error option \<times> ('t, 's, 'gm, 'os, 'st, 'g, 'r) dispatch_world" where
  "dispatch_finish p now task send_error d =
     (case send_error of
        None \<Rightarrow> (case tr_Save (dp_daemonTaskRepo p) now task (d_tasks d) of (_, _, t') \<Rightarrow> (None, set_tasks t' d))
      | Some _ \<Rightarrow> (None, d))"

definition Dispatch ::
    "('gm, 'os, 'st, 'g) dispatch_env \<Rightarrow> ('t, 's) Dispatcher \<Rightarrow> time \<Rightarrow> time \<Rightarrow> DaemonTask \<Rightarrow>
     ('t, 's, 'gm, 'os, 'st, 'g, 'r) dispatch_world \<Rightarrow>
     error option \<times> ('t, 's, 'gm, 'os, 'st, 'g, 'r) dispatch_world" where
  "Dispatch env p now later task d =
     (case dispatch_send env p now task d of
        (Inl e, d') \<Rightarrow> (Some e, d')
      | (Inr (task', send_error), d') \<Rightarrow> dispatch_finish p later task' send_error d')"

text \<open>\<open>sess.Send\<close> on the session that the registry returned.\<close>

definition session_send ::
    "('gm, 'os, 'st, 'g) dispatch_env \<Rightarrow> nat \<Rightarrow> ('gm, 'os, 'st, 'g) GatewayMessage \<Rightarrow>
     ('t, 's, 'gm, 'os, 'st, 'g, 'r) dispatch_world \<Rightarrow>
     error option \<times> ('t, 's, 'gm, 'os, 'st, 'g, 'r) dispatch_world" where
  "session_send env a msg d =
     (case send_local (env_stream env msg) a msg (d_registry d) of (e, r') \<Rightarrow> (e, d\<lparr>d_registry := r'\<rparr>))"

fun flush_tasks ::
    "('gm, 'os, 'st, 'g) dispatch_env \<Rightarrow> ('t, 's) Dispatcher \<Rightarrow> time \<Rightarrow> nat \<Rightarrow> DaemonTask list \<Rightarrow>
     ('t, 's, 'gm, 'os, 'st, 'g, 'r) dispatch_world \<Rightarrow>
     error option \<times> ('t, 's, 'gm, 'os, 'st, 'g, 'r) dispatch_world" where
  "flush_tasks env p now a [] d = (None, d)"
| "flush_tasks env p now a (task # tasks) d =
     (let d1 = sendServerConfigUpdate env p task d
      in case session_send env a (task_message env task) d1 of
           (Some e, d2) \<Rightarrow> (Some (WithMessage e ''send pending task''), d2)
         | (None, d2) \<Rightarrow>
             (case tr_Save (dp_daemonTaskRepo p) now (task\<lparr>DaemonTask_Status := DaemonTaskStatusWorking\<rparr>) (d_tasks d2) of
                (_, _, t') \<Rightarrow> flush_tasks env p now a tasks (set_tasks t' d2)))"

definition FlushPending ::
    "('gm, 'os, 'st, 'g) dispatch_env \<Rightarrow> ('t, 's) Dispatcher \<Rightarrow> time \<Rightarrow> uint64 \<Rightarrow>
     ('t, 's, 'gm, 'os, 'st, 'g, 'r) dispatch_world \<Rightarrow>
     error option \<times> ('t, 's, 'gm, 'os, 'st, 'g, 'r) dispatch_world" where
  "FlushPending env p now nodeID d =
     (case GetSession nodeID (d_registry d) of
        None \<Rightarrow> (Some (Errorf ''session not found''), d)
      | Some a \<Rightarrow>
          (case tr_Find (dp_daemonTaskRepo p) (d_tasks d)
                  (Some (tasks_of_node nodeID DaemonTaskStatusWaiting)) [] None of
             Inl e \<Rightarrow> (Some (WithMessage e ''find pending tasks''), d)
           | Inr tasks \<Rightarrow> flush_tasks env p now a tasks d))"

definition Dispatcher_GetPendingTasks ::
    "('t, 's) Dispatcher \<Rightarrow> uint64 \<Rightarrow> ('t, 's, 'gm, 'os, 'st, 'g, 'r) dispatch_world \<Rightarrow> proto_DaemonTask list result" where
  "Dispatcher_GetPendingTasks p nodeID d =
     (case tr_Find (dp_daemonTaskRepo p) (d_tasks d) (Some (tasks_of_node nodeID DaemonTaskStatusWaiting)) [] None of
        Inl e \<Rightarrow> Inl (WithMessage e ''find pending tasks'')
      | Inr tasks \<Rightarrow> Inr (map DomainDaemonTaskToProto tasks))"

definition Dispatcher_HandleTaskStatusUpdate ::
    "('t, 's) Dispatcher \<Rightarrow> time \<Rightarrow> uint64 \<Rightarrow> TaskStatusUpdate \<Rightarrow>
     ('t, 's, 'gm, 'os, 'st, 'g, 'r) dispatch_world \<Rightarrow>
     error option \<times> ('t, 's, 'gm, 'os, 'st, 'g, 'r) dispatch_world" where
  "Dispatcher_HandleTaskStatusUpdate p now nodeID update d =
     (case tr_Find (dp_daemonTaskRepo p) (d_tasks d) (Some (FindDaemonTaskByIDs [tsu_TaskId update])) [] None of
        Inl e \<Rightarrow> (Some (WithMessage e ''find task''), d)
      | Inr [] \<Rightarrow> (None, d)
      | Inr (task0 # _) \<Rightarrow>
          if nodeID \<noteq> DaemonTask_DedicatedServerID task0 then (None, d)
          else case tr_Save (dp_daemonTaskRepo p) now
                      (task0\<lparr>DaemonTask_Status := ProtoTaskStatusToDomain (tsu_Status update)\<rparr>) (d_tasks d) of
                 (Some e, _, t') \<Rightarrow> (Some (WithMessage e ''update task status''), set_tasks t' d)
               | (None, task, t') \<Rightarrow>
                   let d1 = set_tasks t' d
                   in (None, d1\<lparr>d_world := emit (dp_publisher p)
                         (TaskStatusMessage (tsu_TaskId update) (DaemonTask_Status task)
                            (DaemonTask_DedicatedServerID task) (tsu_Message update)) (d_world d1)\<rparr>))"

definition Dispatcher_HandleTaskOutput ::
    "('t, 's) Dispatcher \<Rightarrow> uint64 \<Rightarrow> TaskOutput \<Rightarrow> ('t, 's, 'gm, 'os, 'st, 'g, 'r) dispatch_world \<Rightarrow>
     error option \<times> ('t, 's, 'gm, 'os, 'st, 'g, 'r) dispatch_world" where
  "Dispatcher_HandleTaskOutput p nodeID output d =
     (if to_OutputChunk output = [] then (None, d)
      else case tr_AppendOutput (dp_daemonTaskRepo p) (to_TaskId output) (to_OutputChunk output) (d_tasks d) of
             (Some e, t') \<Rightarrow> (Some (WithMessage e ''append task output''), set_tasks t' d)
           | (None, t') \<Rightarrow>
               let d1 = set_tasks t' d
               in (None, d1\<lparr>d_world := emit (dp_publisher p)
                     (TaskOutputMessage (to_TaskId output) (to_OutputChunk output) (to_IsFinal output)) (d_world d1)\<rparr>))"

definition CancelTask ::
    "('gm, 'os, 'st, 'g) dispatch_env \<Rightarrow> ('t, 's) Dispatcher \<Rightarrow> time \<Rightarrow> uint64 \<Rightarrow> string \<Rightarrow>
     ('t, 's, 'gm, 'os, 'st, 'g, 'r) dispatch_world \<Rightarrow>
     error option \<times> ('t, 's, 'gm, 'os, 'st, 'g, 'r) dispatch_world" where
  "CancelTask env p now taskID reason d =
     (case tr_Find (dp_daemonTaskRepo p) (d_tasks d) (Some (FindDaemonTaskByIDs [taskID])) [] None of
        Inl e \<Rightarrow> (Some (WithMessage e ''find task''), d)
      | Inr [] \<Rightarrow> (Some (Errorf ''task not found''), d)
      | Inr (task # _) \<Rightarrow>
          let d1 = snd (send_task env (DaemonTask_DedicatedServerID task)
                     (GatewayMessage_TaskCancel (env_newID env taskID) taskID reason) d)
          in case tr_Save (dp_daemonTaskRepo p) now (task\<lparr>DaemonTask_Status := DaemonTaskStatusCanceled\<rparr>) (d_tasks d1) of
               (Some e, _, t') \<Rightarrow> (Some (WithMessage e ''update task status''), set_tasks t' d1)
             | (None, _, t') \<Rightarrow> (None, set_tasks t' d1))"

section \<open>The reaper\<close>

definition defaultInterval :: duration where "defaultInterval = 60 * 1000000000"
definition defaultStaleThreshold :: duration where "defaultStaleThreshold = 10 * 60 * 1000000000"

record Options =
  Options_Interval :: duration
  Options_StaleThreshold :: duration

definition applyDefaults :: "Options \<Rightarrow> Options" where
  "applyDefaults o' =
     (let o1 = (if Options_Interval o' \<le> 0 then o'\<lparr>Options_Interval := defaultInterval\<rparr> else o')
      in if Options_StaleThreshold o1 \<le> 0 then o1\<lparr>Options_StaleThreshold := defaultStaleThreshold\<rparr> else o1)"

text \<open>
  The nodes that the sweep gives up, in the order in which the loop meets them; Go ranges over them
  in an arbitrary order.
\<close>

definition abandonedNodes :: "time \<Rightarrow> (uint64 \<Rightarrow> bool) \<Rightarrow> DaemonTask list \<Rightarrow> uint64 list" where
  "abandonedNodes cutoff connected tasks =
     remdups (map DaemonTask_DedicatedServerID
       (filter (\<lambda>task. \<not> connected (DaemonTask_DedicatedServerID task) \<and>
           (case DaemonTask_UpdatedAt task of None \<Rightarrow> True | Some u \<Rightarrow> \<not> u > cutoff)) tasks))"

definition Sweep ::
    "('t, 's) TaskHandler \<Rightarrow> Options \<Rightarrow> time \<Rightarrow> (uint64 \<Rightarrow> bool) \<Rightarrow> ('t, 's) world \<Rightarrow>
     error option \<times> ('t, 's) world" where
  "Sweep h opts now connected w =
     (case tr_Find (th_daemonTaskRepo h) (w_tasks w)
             (Some (no_task_filter\<lparr>fdt_Statuses := [DaemonTaskStatusWorking]\<rparr>)) [] None of
        Inl e \<Rightarrow> (Some (WithMessage e ''find working tasks''), w)
      | Inr tasks \<Rightarrow>
          if tasks = [] then (None, w)
          else (None, fold (\<lambda>nodeID w. snd (ReconcileWorkingTasks h now nodeID [] w))
                  (abandonedNodes (now - Options_StaleThreshold opts) connected tasks) w))"

section \<open>What leaves the panel\<close>

text \<open>The tasks among the messages, and those that the session at an address has accepted.\<close>

fun tasks_among :: "('gm, 'os, 'st, 'g) GatewayMessage list \<Rightarrow> proto_DaemonTask list" where
  "tasks_among [] = []"
| "tasks_among (GatewayMessage_Task _ t # ms) = t # tasks_among ms"
| "tasks_among (_ # ms) = tasks_among ms"

definition task_log :: "nat \<Rightarrow> ('t, 's, 'gm, 'os, 'st, 'g, 'r) dispatch_world \<Rightarrow> proto_DaemonTask list" where
  "task_log a d = tasks_among (Session_sent (rg_sessions (d_registry d) ! a))"

text \<open>The tasks that were put on the bus for a node that has no session here.\<close>

fun bus_tasks :: "uint64 \<Rightarrow> ('gm, 'os, 'st, 'g) GatewayMessage bus_message list \<Rightarrow> proto_DaemonTask list" where
  "bus_tasks n [] = []"
| "bus_tasks n (DaemonTaskMessage m msg # ms) = (if m = n then tasks_among [msg] else []) @ bus_tasks n ms"
| "bus_tasks n (_ # ms) = bus_tasks n ms"

definition delivered :: "uint64 \<Rightarrow> ('t, 's, 'gm, 'os, 'st, 'g, 'r) dispatch_world \<Rightarrow> proto_DaemonTask list" where
  "delivered n d = (case GetSession n (d_registry d) of
     Some a \<Rightarrow> task_log a d | None \<Rightarrow> bus_tasks n (rg_published (d_registry d)))"

definition accepted ::
    "('gm, 'os, 'st, 'g) dispatch_env \<Rightarrow> uint64 \<Rightarrow> ('gm, 'os, 'st, 'g) GatewayMessage \<Rightarrow>
     ('t, 's, 'gm, 'os, 'st, 'g, 'r) dispatch_world \<Rightarrow> bool" where
  "accepted env n msg d \<longleftrightarrow> (case GetSession n (d_registry d) of
     Some _ \<Rightarrow> env_stream env msg = None | None \<Rightarrow> env_bus env msg = None)"

definition started :: "time \<Rightarrow> DaemonTask \<Rightarrow> DaemonTask" where
  "started now t = t\<lparr>DaemonTask_Status := DaemonTaskStatusWorking, DaemonTask_UpdatedAt := Some now\<rparr>"

lemma tasks_among_append [simp]: "tasks_among (ms @ ms') = tasks_among ms @ tasks_among ms'"
  by (induction ms rule: tasks_among.induct) simp_all

lemma bus_tasks_append [simp]: "bus_tasks n (ms @ ms') = bus_tasks n ms @ bus_tasks n ms'"
  by (induction n ms rule: bus_tasks.induct) simp_all

lemma set_tasks_simps [simp]:
  "d_tasks (set_tasks t d) = t" "d_registry (set_tasks t d) = d_registry d"
  "w_events (d_world (set_tasks t d)) = w_events (d_world d)" "w_servers (d_world (set_tasks t d)) = w_servers (d_world d)"
  "task_log a (set_tasks t d) = task_log a d" "delivered n (set_tasks t d) = delivered n d"
  by (simp_all add: set_tasks_def task_log_def delivered_def split: option.split)

text \<open>A send leaves the stores and the shape of the registry as they are.\<close>

definition same_shape ::
    "('t, 's, 'gm, 'os, 'st, 'g, 'r) dispatch_world \<Rightarrow> ('t, 's, 'gm, 'os, 'st, 'g, 'r) dispatch_world \<Rightarrow> bool" where
  "same_shape d d' \<longleftrightarrow> d_world d' = d_world d \<and>
     rg_localSessions (d_registry d') = rg_localSessions (d_registry d) \<and>
     map Session_NodeID (rg_sessions (d_registry d')) = map Session_NodeID (rg_sessions (d_registry d))"

lemma same_shape_refl [simp]: "same_shape d d" by (simp add: same_shape_def)

lemma same_shape_trans: "same_shape d d' \<Longrightarrow> same_shape d' d'' \<Longrightarrow> same_shape d d''" by (simp add: same_shape_def)

lemma same_shapeD:
  assumes "same_shape d d'"
  shows "d_world d' = d_world d" "length (rg_sessions (d_registry d')) = length (rg_sessions (d_registry d))"
    "GetSession n (d_registry d') = GetSession n (d_registry d)" "accepted env n m d' = accepted env n m d"
    "registry_ok (d_registry d') = registry_ok (d_registry d)"
proof -
  have ids: "map Session_NodeID (rg_sessions (d_registry d')) = map Session_NodeID (rg_sessions (d_registry d))"
    using assms by (simp add: same_shape_def)
  show len: "length (rg_sessions (d_registry d')) = length (rg_sessions (d_registry d))"
    by (rule map_eq_imp_length_eq [OF ids])
  have "Session_NodeID (rg_sessions (d_registry d') ! i) = Session_NodeID (rg_sessions (d_registry d) ! i)"
    if "i < length (rg_sessions (d_registry d))" for i
    using arg_cong [OF ids, of "\<lambda>xs. xs ! i"] that len by simp
  then show "registry_ok (d_registry d') = registry_ok (d_registry d)"
    using assms len by (auto simp: registry_ok_def same_shape_def)
qed (use assms in \<open>simp_all add: same_shape_def GetSession_def accepted_def\<close>)

lemma node_ids_update [simp]:
  "map Session_NodeID (xs[a := (xs ! a)\<lparr>Session_sent := l\<rparr>]) = map Session_NodeID xs"
  by (cases "a < length xs") (simp_all add: map_update list_update_same_conv list_update_beyond)

lemma session_send_effect:
  assumes "session_send env a m d = (e, d')"
  shows "same_shape d d'" and "e = env_stream env m"
    and "a < length (rg_sessions (d_registry d)) \<Longrightarrow>
      task_log a d' = task_log a d @ (if e = None then tasks_among [m] else [])"
    and "b \<noteq> a \<or> tasks_among [m] = [] \<Longrightarrow> task_log b d' = task_log b d"
    and "rg_published (d_registry d') = rg_published (d_registry d)"
  using assms
  by (cases "a < length (rg_sessions (d_registry d))"; cases "b = a";
      auto simp: session_send_def send_local_def Session_Send_def same_shape_def task_log_def list_update_beyond
      split: option.splits)+

lemma send_task_effect:
  assumes "send_task env n m d = (e, d')" and "registry_ok (d_registry d)"
  shows "same_shape d d'" and "(e = None) = accepted env n m d"
    and "delivered n d' = delivered n d @ (if e = None then tasks_among [m] else [])"
    and "tasks_among [m] = [] \<Longrightarrow> task_log b d' = task_log b d"
proof -
  have "same_shape d d' \<and> (e = None) = accepted env n m d \<and>
    delivered n d' = delivered n d @ (if e = None then tasks_among [m] else []) \<and>
    (tasks_among [m] = [] \<longrightarrow> task_log b d' = task_log b d)"
  proof (cases "GetSession n (d_registry d)")
    case None
    then show ?thesis
      using assms(1)
      by (cases "env_bus env m")
        (auto simp: send_task_def SendTask_def GetSession_def accepted_def delivered_def same_shape_def task_log_def Publish_def)
  next
    case (Some a)
    then have a: "a < length (rg_sessions (d_registry d))"
      using assms(2) by (auto simp: registry_ok_def GetSession_def dest!: map_of_SomeD)
    obtain e1 d1 where s: "session_send env a m d = (e1, d1)" by (cases "session_send env a m d")
    have "d' = d1 \<and> (e = None) = (e1 = None)"
      using assms(1) s Some
      by (auto simp: send_task_def SendTask_def session_send_def GetSession_def split: prod.splits option.splits)
    then show ?thesis
      using session_send_effect(1-4) [OF s] a Some same_shapeD(3) [OF session_send_effect(1) [OF s]]
      by (simp add: accepted_def delivered_def)
  qed
  then show "same_shape d d'" "(e = None) = accepted env n m d"
    "delivered n d' = delivered n d @ (if e = None then tasks_among [m] else [])"
    "tasks_among [m] = [] \<Longrightarrow> task_log b d' = task_log b d" by blast+
qed

text \<open>A configuration update is not a task.\<close>

lemma config_update_effect:
  assumes "registry_ok (d_registry d)"
  shows "same_shape d (sendServerConfigUpdate env p task d)"
    "task_log b (sendServerConfigUpdate env p task d) = task_log b d"
    "delivered (DaemonTask_DedicatedServerID task) (sendServerConfigUpdate env p task d) =
      delivered (DaemonTask_DedicatedServerID task) d"
proof -
  have send: "same_shape d (snd (send_task env n (GatewayMessage_ServerConfigUpdate i u) d)) \<and>
      task_log b (snd (send_task env n (GatewayMessage_ServerConfigUpdate i u) d)) = task_log b d \<and>
      delivered n (snd (send_task env n (GatewayMessage_ServerConfigUpdate i u) d)) = delivered n d" for n i u
    using send_task_effect [OF prod.collapse [symmetric] assms, where env = env and n = n and
        m = "GatewayMessage_ServerConfigUpdate i u"]
    by simp
  then show "same_shape d (sendServerConfigUpdate env p task d)"
    "task_log b (sendServerConfigUpdate env p task d) = task_log b d"
    "delivered (DaemonTask_DedicatedServerID task) (sendServerConfigUpdate env p task d) =
      delivered (DaemonTask_DedicatedServerID task) d"
    by (simp_all add: sendServerConfigUpdate_def Let_def split: option.split sum.split list.split)
qed

section \<open>The dispatcher over tables\<close>

lemma disjoint_part: "P = A \<union> B \<Longrightarrow> B \<inter> A = {} \<Longrightarrow> (B = {}) = (A = P) \<and> A \<subseteq> P"
  by auto

locale task_dispatcher = T: daemon_task_repository T invT room viewT
  for T :: "'t TaskRepo" and invT :: "'t \<Rightarrow> bool" and room :: "'t \<Rightarrow> nat \<Rightarrow> bool"
    and viewT :: "'t \<Rightarrow> uint \<rightharpoonup> DaemonTask" +
  fixes p :: "('t, 's) Dispatcher"
  assumes tasks_repo: "dp_daemonTaskRepo p = T"
begin

lemma save_started:
  assumes "invT s" and "viewT s (DaemonTask_ID task) = Some t" and "task = strip_output t"
  shows "\<exists>x s'. tr_Save T now (task\<lparr>DaemonTask_Status := DaemonTaskStatusWorking\<rparr>) s = (None, x, s') \<and> invT s' \<and>
    viewT s' = (viewT s)(DaemonTask_ID task \<mapsto> started now t)"
proof -
  have "viewT s (DaemonTask_ID (task\<lparr>DaemonTask_Status := DaemonTaskStatusWorking\<rparr>)) = Some t" using assms(2) by simp
  from T.save_old [OF assms(1) this, of now] show ?thesis using assms(3) by (cases t) (auto simp: started_def)
qed

lemma flush_effect:
  assumes "invT (d_tasks d)" and "registry_ok (d_registry d)" and "a < length (rg_sessions (d_registry d))"
    and "distinct (map DaemonTask_ID tasks)"
    and "\<forall>task \<in> set tasks. \<exists>t. viewT (d_tasks d) (DaemonTask_ID task) = Some t \<and> task = strip_output t"
    and "flush_tasks env p now a tasks d = (e, d')"
  shows "\<exists>sent rest. tasks = sent @ rest \<and> (e = None \<longleftrightarrow> rest = []) \<and> invT (d_tasks d') \<and>
    task_log a d' = task_log a d @ map DomainDaemonTaskToProto sent \<and>
    (\<forall>i. viewT (d_tasks d') i =
      (if i \<in> DaemonTask_ID ` set sent then map_option (started now) (viewT (d_tasks d) i) else viewT (d_tasks d) i))"
  using assms
proof (induction tasks arbitrary: d)
  case (Cons task tasks)
  let ?d1 = "sendServerConfigUpdate env p task d"
  note c = config_update_effect [OF Cons.prems(2), where env = env and p = p and task = task]
  obtain e2 d2 where s: "session_send env a (task_message env task) ?d1 = (e2, d2)"
    by (cases "session_send env a (task_message env task) ?d1")
  note f = session_send_effect [OF s]
  have shape: "same_shape d d2" by (rule same_shape_trans [OF c(1) f(1)])
  have log: "task_log a d2 = task_log a d @ (if e2 = None then [DomainDaemonTaskToProto task] else [])"
    using f(3) Cons.prems(3) same_shapeD(2) [OF c(1)] c(2) by (simp add: task_message_def)
  show ?case
  proof (cases e2)
    case (Some err)
    then have "d' = d2 \<and> e \<noteq> None" using Cons.prems(6) s by auto
    then show ?thesis
      using Some log Cons.prems(1) same_shapeD(1) [OF shape] by - (rule exI [of _ "[]"], rule exI [of _ "task # tasks"], simp)
  next
    case None
    obtain t where t: "viewT (d_tasks d) (DaemonTask_ID task) = Some t" "task = strip_output t"
      using Cons.prems(5) by auto
    obtain x s' where s': "tr_Save T now (task\<lparr>DaemonTask_Status := DaemonTaskStatusWorking\<rparr>) (d_tasks d2) = (None, x, s')"
      "invT s'" "viewT s' = (viewT (d_tasks d))(DaemonTask_ID task \<mapsto> started now t)"
      using save_started [OF Cons.prems(1) t, of now] same_shapeD(1) [OF shape] by auto
    let ?d3 = "set_tasks s' d2"
    have run: "flush_tasks env p now a tasks ?d3 = (e, d')"
      using Cons.prems(6) s None s'(1) by (simp add: tasks_repo)
    have other: "DaemonTask_ID x \<noteq> DaemonTask_ID task" if "x \<in> set tasks" for x
      using Cons.prems(4) imageI [OF that, of DaemonTask_ID] by auto
    have rows: "\<forall>x \<in> set tasks. \<exists>t. viewT (d_tasks ?d3) (DaemonTask_ID x) = Some t \<and> x = strip_output t"
      using Cons.prems(5) other by (simp add: s'(3))
    have pre: "invT (d_tasks ?d3)" "registry_ok (d_registry ?d3)" "a < length (rg_sessions (d_registry ?d3))"
      "distinct (map DaemonTask_ID tasks)"
      using s'(2) same_shapeD(2,5) [OF shape] Cons.prems(2-4) by simp_all
    obtain sent rest where ih: "tasks = sent @ rest" "e = None \<longleftrightarrow> rest = []" "invT (d_tasks d')"
      "task_log a d' = task_log a ?d3 @ map DomainDaemonTaskToProto sent"
      "\<forall>i. viewT (d_tasks d') i = (if i \<in> DaemonTask_ID ` set sent
        then map_option (started now) (viewT (d_tasks ?d3) i) else viewT (d_tasks ?d3) i)"
      using Cons.IH [OF pre rows run] by blast
    have "DaemonTask_ID task \<notin> DaemonTask_ID ` set sent" using other ih(1) by fastforce
    then show ?thesis
      using ih None log t(1) by - (rule exI [of _ "task # sent"], rule exI [of _ rest], auto simp: s'(3))
  qed
qed simp

text \<open>
  A flush, whatever the stream does: the tasks that leave the waiting state are exactly those that the
  stream accepted, each once, and all of them when no error is returned.
\<close>

lemma flush_sends:
  assumes "invT (d_tasks d)" and "registry_ok (d_registry d)" and "GetSession nodeID (d_registry d) = Some a"
    and "FlushPending env p now nodeID d = (e, d')"
    and "pending = {i. \<exists>t. viewT (d_tasks d) i = Some t \<and> DaemonTask_DedicatedServerID t = nodeID \<and>
      DaemonTask_Status t = DaemonTaskStatusWaiting}"
  shows "\<exists>ids. distinct ids \<and> set ids \<subseteq> pending \<and> (e = None \<longleftrightarrow> set ids = pending) \<and>
    map proto_Id (task_log a d') = map proto_Id (task_log a d) @ ids \<and>
    (\<forall>i. viewT (d_tasks d') i =
      (if i \<in> set ids then map_option (started now) (viewT (d_tasks d) i) else viewT (d_tasks d) i))"
proof -
  let ?f = "Some (tasks_of_node nodeID DaemonTaskStatusWaiting)"
  obtain tasks where tasks: "tr_Find T (d_tasks d) ?f [] None = Inr tasks" "distinct (map DaemonTask_ID tasks)"
    "set tasks = strip_output ` {t. \<exists>i. viewT (d_tasks d) i = Some t \<and> task_matches ?f t}"
    using T.find_all_matching [OF assms(1)] by blast
  have m: "task_matches ?f t \<longleftrightarrow> DaemonTask_DedicatedServerID t = nodeID \<and> DaemonTask_Status t = DaemonTaskStatusWaiting" for t
    by (auto simp: task_matches_def tasks_of_node_def no_task_filter_def)
  have a: "a < length (rg_sessions (d_registry d))"
    using assms(2,3) by (auto simp: registry_ok_def GetSession_def dest!: map_of_SomeD)
  have rows: "\<forall>task \<in> set tasks. \<exists>t. viewT (d_tasks d) (DaemonTask_ID task) = Some t \<and> task = strip_output t"
    unfolding tasks(3) using T.view_id [OF assms(1)] by auto
  have "flush_tasks env p now a tasks d = (e, d')"
    using assms(3,4) tasks(1) by (simp add: FlushPending_def tasks_repo)
  from flush_effect [OF assms(1,2) a tasks(2) rows this] obtain sent rest where
    r: "tasks = sent @ rest" "e = None \<longleftrightarrow> rest = []"
    "task_log a d' = task_log a d @ map DomainDaemonTaskToProto sent"
    "\<forall>i. viewT (d_tasks d') i =
      (if i \<in> DaemonTask_ID ` set sent then map_option (started now) (viewT (d_tasks d) i) else viewT (d_tasks d) i)"
    by blast
  have all: "DaemonTask_ID ` set tasks = pending"
    unfolding assms(5) tasks(3) m using T.view_id [OF assms(1)] by (auto simp: image_iff) metis
  let ?ids = "map DaemonTask_ID sent"
  have d: "distinct ?ids" "DaemonTask_ID ` set rest \<inter> set ?ids = {}" using tasks(2) r(1) by auto
  have "pending = set ?ids \<union> DaemonTask_ID ` set rest" using all r(1) by auto
  from disjoint_part [OF this d(2)] have "(rest = []) = (set ?ids = pending)" "set ?ids \<subseteq> pending" by simp_all
  moreover have "proto_Id (DomainDaemonTaskToProto t) = DaemonTask_ID t" for t
    by (simp add: DomainDaemonTaskToProto_def)
  ultimately show ?thesis
    using d(1) r(2-4) by (intro exI [of _ ?ids]) (simp add: o_def)
qed


text \<open>
  Up to the send: the task is stored and announced before anything leaves, and what leaves for the
  node is that task, if the stream or the bus takes it.
\<close>

lemma dispatch_send_effect:
  assumes "invT (d_tasks d)" and "room (d_tasks d) (Suc n)" and "registry_ok (d_registry d)"
    and "DaemonTask_ID task0 = 0"
  shows "\<exists>i created e d'. let task = task0\<lparr>DaemonTask_ID := i, DaemonTask_CreatedAt := Some created,
        DaemonTask_UpdatedAt := Some now\<rparr>; node = DaemonTask_DedicatedServerID task0
    in dispatch_send env p now task0 d = (Inr (task, e), d') \<and> i \<noteq> 0 \<and> viewT (d_tasks d) i = None \<and>
      invT (d_tasks d') \<and> viewT (d_tasks d') = (viewT (d_tasks d))(i \<mapsto> task) \<and>
      w_servers (d_world d') = w_servers (d_world d) \<and>
      w_events (d_world d') = w_events (d_world d) @ (if dp_pluginEvents p then
        [PluginTaskEvent EVENT_TYPE_DAEMON_TASK_CREATED i node (DaemonTask_ServerID task0) (DaemonTask_Task task0)
          (DaemonTask_Status task0)] else []) \<and>
      (e = None \<longleftrightarrow> accepted env node (task_message env task) d) \<and>
      delivered node d' = delivered node d @ (if e = None then [DomainDaemonTaskToProto task] else [])"
proof -
  obtain i created s' where s': "tr_Save T now task0 (d_tasks d) =
      (None, task0\<lparr>DaemonTask_ID := i, DaemonTask_CreatedAt := Some created, DaemonTask_UpdatedAt := Some now\<rparr>, s')"
    "i \<noteq> 0" "viewT (d_tasks d) i = None" "invT s'"
    "viewT s' = (viewT (d_tasks d))(i \<mapsto>
      task0\<lparr>DaemonTask_ID := i, DaemonTask_CreatedAt := Some created, DaemonTask_UpdatedAt := Some now\<rparr>)"
    using T.save_new [OF assms(1,2,4), of now] by blast
  define task where "task = task0\<lparr>DaemonTask_ID := i, DaemonTask_CreatedAt := Some created, DaemonTask_UpdatedAt := Some now\<rparr>"
  define d2 where "d2 = (set_tasks s' d)\<lparr>d_world := dispatchTaskCreatedEvent p task (d_world (set_tasks s' d))\<rparr>"
  have d2: "d_registry d2 = d_registry d" by (simp add: d2_def)
  then have ok: "registry_ok (d_registry d2)" using assms(3) by simp
  note c = config_update_effect [OF ok, where env = env and p = p and task = task]
  obtain e d4 where s: "send_task env (DaemonTask_DedicatedServerID task) (task_message env task)
      (sendServerConfigUpdate env p task d2) = (e, d4)" by (cases "send_task env (DaemonTask_DedicatedServerID task)
      (task_message env task) (sendServerConfigUpdate env p task d2)")
  note f = send_task_effect [OF s]
  have ok': "registry_ok (d_registry (sendServerConfigUpdate env p task d2))" using ok same_shapeD(5) [OF c(1)] by simp
  have world: "d_world d4 = d_world d2" using same_shapeD(1) [OF c(1)] same_shapeD(1) [OF f(1) [OF ok']] by simp
  have run: "dispatch_send env p now task0 d = (Inr (task, e), d4)"
    using s'(1) s by (simp add: dispatch_send_def tasks_repo Let_def d2_def task_def)
  have "delivered n d2 = delivered n d" "accepted env n m d2 = accepted env n m d" for n m
    using d2 by (simp_all add: delivered_def accepted_def task_log_def split: option.split)
  then have "delivered (DaemonTask_DedicatedServerID task) d4 =
      delivered (DaemonTask_DedicatedServerID task) d @ (if e = None then [DomainDaemonTaskToProto task] else [])"
    "(e = None) = accepted env (DaemonTask_DedicatedServerID task) (task_message env task) d"
    using f(2,3) [OF ok'] c(3) same_shapeD(4) [OF c(1)] by (simp_all add: task_message_def)
  moreover have "DaemonTask_DedicatedServerID task = DaemonTask_DedicatedServerID task0" by (simp add: task_def)
  moreover have "w_tasks (d_world d4) = s'" "w_servers (d_world d4) = w_servers (d_world d)"
    "w_events (d_world d4) = w_events (d_world d) @ (if dp_pluginEvents p then
        [PluginTaskEvent EVENT_TYPE_DAEMON_TASK_CREATED i (DaemonTask_DedicatedServerID task0) (DaemonTask_ServerID task0)
          (DaemonTask_Task task0) (DaemonTask_Status task0)] else [])"
    unfolding world by (simp_all add: d2_def dispatchTaskCreatedEvent_def task_def)
  ultimately show ?thesis
    using run s'(2-5) unfolding Let_def task_def
    by (intro exI [of _ i] exI [of _ created] exI [of _ e] exI [of _ d4]) simp
qed

text \<open>The save that follows an accepted send stores the task as it was before the send.\<close>

lemma dispatch_finish_effect:
  assumes "invT (d_tasks d)" and "viewT (d_tasks d) (DaemonTask_ID task) = Some old"
  shows "\<exists>d'. dispatch_finish p now task send_error d = (None, d') \<and> invT (d_tasks d') \<and>
    d_registry d' = d_registry d \<and> w_events (d_world d') = w_events (d_world d) \<and>
    viewT (d_tasks d') = (viewT (d_tasks d))(DaemonTask_ID task \<mapsto>
      (if send_error = None then task\<lparr>DaemonTask_UpdatedAt := Some now, DaemonTask_Output :=
          (if DaemonTask_Output task = None then DaemonTask_Output old else DaemonTask_Output task)\<rparr> else old))"
proof (cases send_error)
  case None
  obtain s' where "tr_Save T now task (d_tasks d) = (None, task\<lparr>DaemonTask_UpdatedAt := Some now\<rparr>, s')" "invT s'"
    "viewT s' = (viewT (d_tasks d))(DaemonTask_ID task \<mapsto> task\<lparr>DaemonTask_UpdatedAt := Some now, DaemonTask_Output :=
      (if DaemonTask_Output task = None then DaemonTask_Output old else DaemonTask_Output task)\<rparr>)"
    using T.save_old [OF assms, of now] by blast
  then show ?thesis using None by (simp add: dispatch_finish_def tasks_repo)
next
  case Some
  then show ?thesis using assms by (auto simp: dispatch_finish_def map_upd_triv)
qed

end

definition inmemory_dispatcher :: "bool \<Rightarrow> bool \<Rightarrow> (DaemonTaskRepository, ServerRepository) Dispatcher" where
  "inmemory_dispatcher publisher pluginEvents =
     \<lparr>dp_daemonTaskRepo = inmemory_tasks, dp_serverRepo = inmemory_servers, dp_publisher = publisher,
      dp_pluginEvents = pluginEvents\<rparr>"

interpretation inmem_dispatcher:
  task_dispatcher inmemory_tasks dt_wf dt_room tasks_in "inmemory_dispatcher publisher pluginEvents"
  for publisher pluginEvents
  by unfold_locales (simp add: inmemory_dispatcher_def)

section \<open>The sweep over tables\<close>

lemma reconcile_nodes:
  assumes "world_wf w" and "distinct nodes"
  shows "world_wf (fold (\<lambda>n w. snd (ReconcileWorkingTasks (inmemory_handler publisher pluginEvents) now n [] w)) nodes w) \<and>
    (\<forall>i. tasks_in (w_tasks (fold (\<lambda>n w. snd (ReconcileWorkingTasks (inmemory_handler publisher pluginEvents) now n [] w)) nodes w)) i =
      map_option (\<lambda>t. if DaemonTask_Status t = DaemonTaskStatusWorking \<and> DaemonTask_DedicatedServerID t \<in> set nodes
        then abandoned now t else t) (tasks_in (w_tasks w) i))"
  using assms
proof (induction nodes arbitrary: w)
  case Nil
  then show ?case by (simp add: option.map_ident)
next
  case (Cons n nodes)
  obtain w1 where w1: "snd (ReconcileWorkingTasks (inmemory_handler publisher pluginEvents) now n [] w) = w1" "world_wf w1"
    "\<And>i. tasks_in (w_tasks w1) i =
      (if \<exists>t. tasks_in (w_tasks w) i = Some t \<and> DaemonTask_DedicatedServerID t = n \<and> DaemonTask_Status t = DaemonTaskStatusWorking
       then map_option (abandoned now) (tasks_in (w_tasks w) i) else tasks_in (w_tasks w) i)"
    using reconcile_lost [OF Cons.prems(1) refl, of publisher pluginEvents now n "[]"] by auto
  have "DaemonTask_Status (abandoned now t) \<noteq> DaemonTaskStatusWorking" for t by (simp add: abandoned_def)
  then show ?case
    using Cons.IH [OF w1(2)] Cons.prems(2) w1(1,3)
    by (auto simp: option.map_comp o_def intro!: option.map_cong split: option.split)
qed

text \<open>The nodes that the sweep gives up: disconnected, with a working task that nobody touched since the cutoff.\<close>

definition given_up :: "Options \<Rightarrow> time \<Rightarrow> (uint64 \<Rightarrow> bool) \<Rightarrow> (uint \<rightharpoonup> DaemonTask) \<Rightarrow> uint64 \<Rightarrow> bool" where
  "given_up opts now connected tbl node \<longleftrightarrow> \<not> connected node \<and>
     (\<exists>i t. tbl i = Some t \<and> DaemonTask_Status t = DaemonTaskStatusWorking \<and> DaemonTask_DedicatedServerID t = node \<and>
       (\<forall>u. DaemonTask_UpdatedAt t = Some u \<longrightarrow> u \<le> now - Options_StaleThreshold opts))"

lemma sweep_tables:
  assumes "world_wf w"
  shows "\<exists>w'. Sweep (inmemory_handler publisher pluginEvents) opts now connected w = (None, w') \<and> world_wf w' \<and>
    (\<forall>i. tasks_in (w_tasks w') i =
      map_option (\<lambda>t. if DaemonTask_Status t = DaemonTaskStatusWorking \<and>
          given_up opts now connected (tasks_in (w_tasks w)) (DaemonTask_DedicatedServerID t)
        then abandoned now t else t) (tasks_in (w_tasks w) i))"
proof -
  let ?f = "Some (no_task_filter\<lparr>fdt_Statuses := [DaemonTaskStatusWorking]\<rparr>)"
  have inv: "dt_wf (w_tasks w)" using assms by simp
  obtain tasks where tasks: "tr_Find inmemory_tasks (w_tasks w) ?f [] None = Inr tasks"
    "set tasks = strip_output ` {t. \<exists>i. tasks_in (w_tasks w) i = Some t \<and> task_matches ?f t}"
    using inmem_tasks.find_all_matching [OF inv] by blast
  have m: "task_matches ?f t \<longleftrightarrow> DaemonTask_Status t = DaemonTaskStatusWorking" for t
    by (auto simp: task_matches_def no_task_filter_def)
  let ?nodes = "abandonedNodes (now - Options_StaleThreshold opts) connected tasks"
  have nodes: "n \<in> set ?nodes \<longleftrightarrow> given_up opts now connected (tasks_in (w_tasks w)) n" for n
  proof -
    have stale: "(case DaemonTask_UpdatedAt t of None \<Rightarrow> True | Some u \<Rightarrow> \<not> u > c) \<longleftrightarrow>
        (\<forall>u. DaemonTask_UpdatedAt t = Some u \<longrightarrow> u \<le> c)" for t c
      by (auto split: option.split)
    have "n \<in> set ?nodes \<longleftrightarrow> (\<exists>t. ((\<exists>i. tasks_in (w_tasks w) i = Some t) \<and> DaemonTask_Status t = DaemonTaskStatusWorking) \<and>
        \<not> connected (DaemonTask_DedicatedServerID (strip_output t)) \<and>
        (\<forall>u. DaemonTask_UpdatedAt (strip_output t) = Some u \<longrightarrow> u \<le> now - Options_StaleThreshold opts) \<and>
        n = DaemonTask_DedicatedServerID (strip_output t))"
      unfolding abandonedNodes_def stale set_remdups set_map set_filter tasks(2) m by blast
    also have "\<dots> \<longleftrightarrow> given_up opts now connected (tasks_in (w_tasks w)) n"
      unfolding given_up_def by (simp del: not_ex) blast
    finally show ?thesis .
  qed
  have "Sweep (inmemory_handler publisher pluginEvents) opts now connected w =
      (None, fold (\<lambda>n w. snd (ReconcileWorkingTasks (inmemory_handler publisher pluginEvents) now n [] w)) ?nodes w)"
    using tasks(1) by (cases tasks) (simp_all add: Sweep_def inmemory_handler_def abandonedNodes_def)
  then show ?thesis
    using reconcile_nodes [OF assms, of ?nodes publisher pluginEvents now] nodes
    by (simp add: abandonedNodes_def)
qed

section \<open>Theorems\<close>

text \<open>A world with one waiting task for node 3, which is connected, and streams that accept everything.\<close>

definition quiet_env :: "(unit, unit, unit, unit) dispatch_env" where
  "quiet_env = \<lparr>env_newID = (\<lambda>_. ''id''), env_stream = (\<lambda>_. None), env_bus = (\<lambda>_. None),
     env_gameMods = (\<lambda>_. Inr []), env_nodeOSs = (\<lambda>_. Inr []), env_settings = (\<lambda>_. Inr []), env_games = None\<rparr>"

type_synonym sample_dispatch_world =
  "(DaemonTaskRepository, ServerRepository, unit, unit, unit, unit, unit) dispatch_world"

definition connected_world :: "panel_world \<Rightarrow> sample_dispatch_world" where
  "connected_world w = \<lparr>d_world = w, d_registry = (NewRegistry ''A'' True True)
     \<lparr>rg_sessions := [NewSession 3 ''1.0'' [] 50], rg_localSessions := [(3, 0)]\<rparr>\<rparr>"

lemma connected_world_simps [simp]:
  "d_world (connected_world w) = w" "registry_ok (d_registry (connected_world w))"
  "GetSession 3 (d_registry (connected_world w)) = Some 0"
  by (simp_all add: connected_world_def registry_ok_def wf_map_def NewSession_def GetSession_def)

lemma sample_world_tasks: "tasks_in (w_tasks sample_world) = [1 \<mapsto> sample_task\<lparr>DaemonTask_ID := 1,
    DaemonTask_CreatedAt := Some 10, DaemonTask_UpdatedAt := Some 10\<rparr>]"
  by (simp add: sample_world_def sample_tasks_def sample_task_def DaemonTaskRepository_Save_def
      NewDaemonTaskRepository_def dt_addToIndexes_def id_of_counter_def)

lemma sample_world_room: "dt_room (w_tasks sample_world) 10"
  by (simp add: sample_world_def sample_tasks_def sample_task_def DaemonTaskRepository_Save_def
      NewDaemonTaskRepository_def dt_addToIndexes_def id_of_counter_def dt_room_def counter_room_def)

text \<open>
  C10. A flush after a reconnect hands each waiting task of the node to the stream at most once, and the
  tasks that become working are exactly those that the stream accepted; it returns no error exactly
  when that is all of them.  A task that was not accepted stays waiting for the next reconnect.
\<close>

theorem flush_sends_once:
  assumes "dt_wf (d_tasks d)" and "registry_ok (d_registry d)" and "GetSession nodeID (d_registry d) = Some a"
    and "FlushPending env (inmemory_dispatcher publisher pluginEvents) now nodeID d = (e, d')"
    and "pending = {i. \<exists>t. tasks_in (d_tasks d) i = Some t \<and> DaemonTask_DedicatedServerID t = nodeID \<and>
      DaemonTask_Status t = DaemonTaskStatusWaiting}"
  shows "\<exists>ids. distinct ids \<and> set ids \<subseteq> pending \<and> (e = None \<longleftrightarrow> set ids = pending) \<and>
    map proto_Id (task_log a d') = map proto_Id (task_log a d) @ ids \<and>
    (\<forall>i. tasks_in (d_tasks d') i =
      (if i \<in> set ids then map_option (started now) (tasks_in (d_tasks d) i) else tasks_in (d_tasks d) i))"
  by (rule inmem_dispatcher.flush_sends [OF assms])

theorem flush_sends_once_witness:
  "\<exists>e d' ids. FlushPending quiet_env (inmemory_dispatcher True True) 20 3 (connected_world sample_world) = (e, d') \<and>
    distinct ids \<and> set ids \<subseteq> {1} \<and> (e = None \<longleftrightarrow> set ids = {1}) \<and> map proto_Id (task_log 0 d') = ids"
proof -
  let ?d = "connected_world sample_world"
  obtain e d' where run: "FlushPending quiet_env (inmemory_dispatcher True True) 20 3 ?d = (e, d')"
    by (cases "FlushPending quiet_env (inmemory_dispatcher True True) 20 3 ?d")
  have "{i. \<exists>t. tasks_in (d_tasks ?d) i = Some t \<and> DaemonTask_DedicatedServerID t = 3 \<and>
      DaemonTask_Status t = DaemonTaskStatusWaiting} = {1}"
    by (auto simp: sample_world_tasks sample_task_def)
  moreover have "task_log 0 ?d = []" by (simp add: task_log_def connected_world_def NewSession_def)
  ultimately show ?thesis
    using flush_sends_once [of ?d 3 0 quiet_env True True 20 e d' "{1}"] run sample_world_wf by auto
qed

text \<open>
  Dispatching a new task stores it under a fresh identifier, changes no other task and succeeds
  whatever becomes of the message; the node is handed exactly that task when its stream, or the bus
  for a node of another instance, accepts the message, and otherwise nothing.
\<close>

theorem dispatch_stores_and_sends:
  assumes "dt_wf (d_tasks d)" and "dt_room (d_tasks d) (Suc n)" and "registry_ok (d_registry d)"
    and "DaemonTask_ID task0 = 0"
  shows "\<exists>i created d'. let node = DaemonTask_DedicatedServerID task0;
      task = task0\<lparr>DaemonTask_ID := i, DaemonTask_CreatedAt := Some created, DaemonTask_UpdatedAt := Some now\<rparr>;
      taken = accepted env node (task_message env task) d
    in Dispatch env (inmemory_dispatcher publisher pluginEvents) now later task0 d = (None, d') \<and>
      i \<noteq> 0 \<and> tasks_in (d_tasks d) i = None \<and> dt_wf (d_tasks d') \<and>
      tasks_in (d_tasks d') = (tasks_in (d_tasks d))(i \<mapsto>
        task\<lparr>DaemonTask_UpdatedAt := Some (if taken then later else now)\<rparr>) \<and>
      delivered node d' = delivered node d @ (if taken then [DomainDaemonTaskToProto task] else [])"
proof -
  let ?p = "inmemory_dispatcher publisher pluginEvents" and ?node = "DaemonTask_DedicatedServerID task0"
  obtain i created e d1 task where s: "dispatch_send env ?p now task0 d = (Inr (task, e), d1)" "i \<noteq> 0"
    "tasks_in (d_tasks d) i = None" "dt_wf (d_tasks d1)" "tasks_in (d_tasks d1) = (tasks_in (d_tasks d))(i \<mapsto> task)"
    "e = None \<longleftrightarrow> accepted env ?node (task_message env task) d"
    "delivered ?node d1 = delivered ?node d @ (if e = None then [DomainDaemonTaskToProto task] else [])"
    and task: "task = task0\<lparr>DaemonTask_ID := i, DaemonTask_CreatedAt := Some created, DaemonTask_UpdatedAt := Some now\<rparr>"
    using inmem_dispatcher.dispatch_send_effect [OF assms, where env = env and publisher = publisher and
        pluginEvents = pluginEvents and now = now] unfolding Let_def by blast
  have "tasks_in (d_tasks d1) (DaemonTask_ID task) = Some task" using s(5) task by simp
  from inmem_dispatcher.dispatch_finish_effect [OF s(4) this, of publisher pluginEvents later e] obtain d' where
    f: "dispatch_finish ?p later task e d1 = (None, d')" "dt_wf (d_tasks d')" "d_registry d' = d_registry d1"
    "tasks_in (d_tasks d') = (tasks_in (d_tasks d1))(DaemonTask_ID task \<mapsto>
      (if e = None then task\<lparr>DaemonTask_UpdatedAt := Some later, DaemonTask_Output :=
        (if DaemonTask_Output task = None then DaemonTask_Output task else DaemonTask_Output task)\<rparr> else task))"
    by blast
  have "delivered ?node d' = delivered ?node d1"
    using f(3) by (simp add: delivered_def task_log_def split: option.split)
  moreover have "Dispatch env ?p now later task0 d = (None, d')" using s(1) f(1) by (simp add: Dispatch_def)
  moreover have "tasks_in (d_tasks d') = (tasks_in (d_tasks d))(i \<mapsto> task\<lparr>DaemonTask_UpdatedAt :=
      Some (if accepted env ?node (task_message env task) d then later else now)\<rparr>)"
    using f(4) s(5,6) task by simp
  ultimately show ?thesis
    using s(2,3,6,7) f(2) unfolding Let_def task [symmetric]
    by (intro exI [of _ i] exI [of _ created] exI [of _ d']) (simp add: task)
qed

theorem dispatch_stores_and_sends_witness:
  "\<exists>i d' m. Dispatch quiet_env (inmemory_dispatcher True True) 20 21 sample_task (connected_world sample_world) = (None, d') \<and>
    i \<noteq> 1 \<and> i \<noteq> 0 \<and> map_option DaemonTask_Status (tasks_in (d_tasks d') i) = Some DaemonTaskStatusWaiting \<and>
    delivered 3 d' = [m] \<and> proto_Id m = i"
proof -
  let ?d = "connected_world sample_world"
  have pre: "dt_wf (d_tasks ?d)" "dt_room (d_tasks ?d) (Suc 9)" "registry_ok (d_registry ?d)" "DaemonTask_ID sample_task = 0"
    using sample_world_wf sample_world_room by (simp_all add: sample_task_def)
  have "delivered 3 ?d = []" "accepted quiet_env 3 m ?d" for m
    by (simp_all add: delivered_def accepted_def task_log_def quiet_env_def) (simp add: connected_world_def NewSession_def)
  moreover have "DaemonTask_DedicatedServerID sample_task = 3" "DaemonTask_Status sample_task = DaemonTaskStatusWaiting"
    by (simp_all add: sample_task_def)
  moreover have "tasks_in (d_tasks ?d) 1 \<noteq> None" by (simp add: sample_world_tasks)
  ultimately show ?thesis
    using dispatch_stores_and_sends [OF pre, where env = quiet_env and publisher = True and pluginEvents = True
        and now = 20 and later = 21]
    unfolding Let_def by (fastforce simp: DomainDaemonTaskToProto_def)
qed

text \<open>
  C33. The save after the send undoes what the daemon reported in between: when the daemon's success
  report is handled before that save, the stored status goes back to waiting and the finished task is
  among those that the next reconnect sends again.
\<close>

theorem dispatch_lost_update:
  assumes "world_wf (d_world d)" and "dt_room (d_tasks d) (Suc n)" and "registry_ok (d_registry d)"
    and "DaemonTask_ID task0 = 0" and "DaemonTask_Status task0 = DaemonTaskStatusWaiting"
    and "dispatch_send env (inmemory_dispatcher publisher pluginEvents) now task0 d = (Inr (task, None), d1)"
    and "HandleTaskStatusUpdate (inmemory_handler publisher pluginEvents) t1 node
      \<lparr>tsu_TaskId = DaemonTask_ID task, tsu_Status = DAEMON_TASK_STATUS_SUCCESS, tsu_Message = msg\<rparr> (d_world d1) = (e1, w2)"
    and "dispatch_finish (inmemory_dispatcher publisher pluginEvents) t2 task None (d1\<lparr>d_world := w2\<rparr>) = (e2, d3)"
  shows "map_option DaemonTask_Status (tasks_in (w_tasks w2) (DaemonTask_ID task)) = Some DaemonTaskStatusSuccess \<and>
    map_option DaemonTask_Status (tasks_in (d_tasks d3) (DaemonTask_ID task)) = Some DaemonTaskStatusWaiting \<and>
    (\<exists>ms. Dispatcher_GetPendingTasks (inmemory_dispatcher publisher pluginEvents) (DaemonTask_DedicatedServerID task0) d3 = Inr ms \<and>
      DaemonTask_ID task \<in> proto_Id ` set ms)"
proof -
  let ?p = "inmemory_dispatcher publisher pluginEvents" and ?h = "inmemory_handler publisher pluginEvents"
  let ?i = "DaemonTask_ID task"
  let ?u = "\<lparr>tsu_TaskId = ?i, tsu_Status = DAEMON_TASK_STATUS_SUCCESS, tsu_Message = msg\<rparr>"
  have wfT: "dt_wf (d_tasks d)" using assms(1) by simp
  obtain i created where task: "task = task0\<lparr>DaemonTask_ID := i, DaemonTask_CreatedAt := Some created,
      DaemonTask_UpdatedAt := Some now\<rparr>" and s: "dt_wf (d_tasks d1)"
    "tasks_in (d_tasks d1) = (tasks_in (d_tasks d))(i \<mapsto> task)" "w_servers (d_world d1) = w_servers (d_world d)"
    using inmem_dispatcher.dispatch_send_effect [OF wfT assms(2-4), where env = env and publisher = publisher and
        pluginEvents = pluginEvents and now = now] assms(6) unfolding Let_def by auto
  have wf1: "world_wf (d_world d1)" using s(1,3) assms(1) by simp
  have "panel_view w2 = spec_status ?h t1 ?i DaemonTaskStatusSuccess msg (panel_view (d_world d1))" and wf2: "world_wf w2"
    using inmem_handler.status_update_refines [OF wf1, of publisher pluginEvents t1 node ?u] assms(7)
    by (auto simp: ProtoTaskStatusToDomain_def)
  then have "tasks_in (w_tasks w2) ?i =
      Some (task\<lparr>DaemonTask_Status := DaemonTaskStatusSuccess, DaemonTask_UpdatedAt := Some t1\<rparr>)"
    using s(2) task by (simp add: spec_status_def Let_def)
  note w2 = this
  have "tasks_in (d_tasks (d1\<lparr>d_world := w2\<rparr>)) ?i =
      Some (task\<lparr>DaemonTask_Status := DaemonTaskStatusSuccess, DaemonTask_UpdatedAt := Some t1\<rparr>)" using w2 by simp
  from inmem_dispatcher.dispatch_finish_effect [OF _ this, of publisher pluginEvents t2 None] assms(8) wf2
  have d3: "dt_wf (d_tasks d3)" "\<exists>t. tasks_in (d_tasks d3) ?i = Some t \<and> DaemonTask_Status t = DaemonTaskStatusWaiting \<and>
      DaemonTask_DedicatedServerID t = DaemonTask_DedicatedServerID task0"
    using task assms(5) by auto
  let ?f = "Some (tasks_of_node (DaemonTask_DedicatedServerID task0) DaemonTaskStatusWaiting)"
  obtain tasks where tasks: "tr_Find inmemory_tasks (d_tasks d3) ?f [] None = Inr tasks"
    "set tasks = strip_output ` {t. \<exists>i. tasks_in (d_tasks d3) i = Some t \<and> task_matches ?f t}"
    using inmem_tasks.find_all_matching [OF d3(1)] by blast
  obtain t where t: "tasks_in (d_tasks d3) ?i = Some t" "DaemonTask_Status t = DaemonTaskStatusWaiting"
    "DaemonTask_DedicatedServerID t = DaemonTask_DedicatedServerID task0" using d3(2) by blast
  have "strip_output t \<in> set tasks" unfolding tasks(2)
    using t by (intro imageI) (auto simp: task_matches_def tasks_of_node_def no_task_filter_def)
  moreover have "proto_Id (DomainDaemonTaskToProto (strip_output t)) = ?i"
    using dt_wf_id [OF d3(1) t(1)] by (simp add: DomainDaemonTaskToProto_def)
  ultimately have "?i \<in> proto_Id ` set (map DomainDaemonTaskToProto tasks)" by force
  then show ?thesis
    using w2 t tasks(1) by (simp add: Dispatcher_GetPendingTasks_def inmemory_dispatcher_def)
qed

theorem dispatch_lost_update_witness:
  "\<exists>task d1 w2 d3. dispatch_send quiet_env (inmemory_dispatcher True True) 20 sample_task (connected_world sample_world) =
      (Inr (task, None), d1) \<and>
    HandleTaskStatusUpdate (inmemory_handler True True) 21 3
      \<lparr>tsu_TaskId = DaemonTask_ID task, tsu_Status = DAEMON_TASK_STATUS_SUCCESS, tsu_Message = ''ok''\<rparr> (d_world d1) = (None, w2) \<and>
    dispatch_finish (inmemory_dispatcher True True) 22 task None (d1\<lparr>d_world := w2\<rparr>) = (None, d3) \<and>
    map_option DaemonTask_Status (tasks_in (d_tasks d3) (DaemonTask_ID task)) = Some DaemonTaskStatusWaiting"
proof -
  let ?d = "connected_world sample_world" and ?p = "inmemory_dispatcher True True"
  have pre: "dt_wf (d_tasks ?d)" "dt_room (d_tasks ?d) (Suc 9)" "registry_ok (d_registry ?d)" "DaemonTask_ID sample_task = 0"
    "DaemonTask_Status sample_task = DaemonTaskStatusWaiting"
    using sample_world_wf sample_world_room by (simp_all add: sample_task_def)
  have acc: "accepted quiet_env n m ?d" for n m by (simp add: accepted_def quiet_env_def split: option.split)
  obtain i task d1 where s: "dispatch_send quiet_env ?p 20 sample_task ?d = (Inr (task, None), d1)" "dt_wf (d_tasks d1)"
    "tasks_in (d_tasks d1) = (tasks_in (d_tasks ?d))(i \<mapsto> task)" "w_servers (d_world d1) = w_servers sample_world"
    "DaemonTask_ID task = i"
    using inmem_dispatcher.dispatch_send_effect [OF pre(1-4), where env = quiet_env and publisher = True and
        pluginEvents = True and now = 20] acc unfolding Let_def by auto
  have wf1: "world_wf (d_world d1)" using s(2,4) sample_world_wf by simp
  let ?u = "\<lparr>tsu_TaskId = DaemonTask_ID task, tsu_Status = DAEMON_TASK_STATUS_SUCCESS, tsu_Message = ''ok''\<rparr>"
  obtain w2 where w2: "HandleTaskStatusUpdate (inmemory_handler True True) 21 3 ?u (d_world d1) = (None, w2)"
    using inmem_handler.status_update_refines [OF wf1, of True True 21 3 ?u] by blast
  obtain e d3 where d3: "dispatch_finish ?p 22 task None (d1\<lparr>d_world := w2\<rparr>) = (e, d3)"
    by (cases "dispatch_finish ?p 22 task None (d1\<lparr>d_world := w2\<rparr>)")
  then have "e = None" by (simp add: dispatch_finish_def split: prod.splits)
  then show ?thesis
    using s(1) w2 d3 dispatch_lost_update [OF _ pre(2-5) s(1) w2 d3] sample_world_wf by auto
qed

text \<open>
  C30. One sweep of the reaper is exact: it fails every working task of a node that is connected nowhere
  and has at least one working task that was not touched within the threshold, tasks that were touched
  included, and it changes nothing else.  So no stale working task of a disconnected node survives a
  sweep, and the tasks of connected nodes are never touched.
\<close>

theorem sweep_exact:
  assumes "world_wf w"
  shows "\<exists>w'. Sweep (inmemory_handler publisher pluginEvents) opts now connected w = (None, w') \<and> world_wf w' \<and>
    (\<forall>i. tasks_in (w_tasks w') i =
      map_option (\<lambda>t. if DaemonTask_Status t = DaemonTaskStatusWorking \<and>
          given_up opts now connected (tasks_in (w_tasks w)) (DaemonTask_DedicatedServerID t)
        then abandoned now t else t) (tasks_in (w_tasks w) i))"
  by (rule sweep_tables [OF assms])

lemma working_given_up:
  "\<not> connected 3 \<Longrightarrow> 10 \<le> now - Options_StaleThreshold opts \<Longrightarrow> given_up opts now connected (tasks_in (w_tasks working_world)) 3"
  unfolding given_up_def by (simp add: working_world_tasks working_task_def sample_task_def)

theorem sweep_exact_witness:
  "\<exists>w' t. Sweep (inmemory_handler True True) (applyDefaults \<lparr>Options_Interval = 0, Options_StaleThreshold = 0\<rparr>)
      (20 * 60 * 1000000000) (\<lambda>n. n \<noteq> 3) working_world = (None, w') \<and>
    tasks_in (w_tasks w') 1 = Some t \<and> DaemonTask_Status t = DaemonTaskStatusError"
proof -
  let ?o = "applyDefaults \<lparr>Options_Interval = 0, Options_StaleThreshold = 0\<rparr>"
  have "given_up ?o (20 * 60 * 1000000000) (\<lambda>n. n \<noteq> 3) (tasks_in (w_tasks working_world)) 3"
    by (rule working_given_up) (simp_all add: applyDefaults_def defaultStaleThreshold_def)
  then show ?thesis
    using sweep_exact [OF working_world_wf, of True True ?o "20 * 60 * 1000000000" "\<lambda>n. n \<noteq> 3"]
    by (auto simp: working_world_tasks working_task_def sample_task_def abandoned_def)
qed

text \<open>
  The stale close message of the registry reaches the tasks: a node that moved from instance \<open>A\<close> to
  instance \<open>B\<close>, where it stays connected, is connected nowhere for a third instance, whose reaper then
  fails the node's working tasks as soon as one of them was not touched within the threshold.
\<close>

theorem live_node_reaped:
  assumes "a < length (rg_sessions rA)" "Session_NodeID (rg_sessions rA ! a) = n"
    and "b < length (rg_sessions rB)" "Session_NodeID (rg_sessions rB ! b) = n"
    and "Registry_Register None t1 a rA = (e1, rA1)" and "Registry_Register None t2 b rB = (e2, rB1)"
    and "UnregisterSession None a rA1 = (e3, rA2)" and "GetSession n rC = None"
    and "rC' = fold handleSessionEvent
        (drop (length (rg_published rA)) (rg_published rA1) @ drop (length (rg_published rB)) (rg_published rB1) @
         drop (length (rg_published rA1)) (rg_published rA2)) rC"
    and "world_wf w" and "tasks_in (w_tasks w) i = Some t" and "DaemonTask_DedicatedServerID t = n"
    and "DaemonTask_Status t = DaemonTaskStatusWorking"
    and "DaemonTask_UpdatedAt t = Some u" and "u \<le> now - Options_StaleThreshold opts"
    and "Sweep (inmemory_handler publisher pluginEvents) opts now (\<lambda>k. IsConnectedAnywhere k rC') w = (e, w')"
  shows "IsConnected n rB1 \<and> map_option DaemonTask_Status (tasks_in (w_tasks w') i) = Some DaemonTaskStatusError"
proof -
  have conn: "IsConnected n rB1" "\<not> IsConnectedAnywhere n rC'"
    using stale_close_forgets [OF assms(1-8)] unfolding assms(9) by blast+
  then have "given_up opts now (\<lambda>k. IsConnectedAnywhere k rC') (tasks_in (w_tasks w)) n"
    using assms(11-15) unfolding given_up_def by (metis option.inject)
  then show ?thesis
    using sweep_tables [OF assms(10), of publisher pluginEvents opts now "\<lambda>k. IsConnectedAnywhere k rC'"] conn(1)
      assms(11-13,16) by (auto simp: abandoned_def)
qed

theorem live_node_reaped_witness:
  "\<exists>rA1 rB1 rA2 (rC' :: (string, string) Registry) w e w'. Registry_Register None 60 0 (sample_registry ''A'') = (None, rA1) \<and>
    Registry_Register None 61 0 (sample_registry ''B'') = (None, rB1) \<and> UnregisterSession None 0 rA1 = (None, rA2) \<and>
    rC' = fold handleSessionEvent (rg_published rA1 @ rg_published rB1 @ drop (length (rg_published rA1)) (rg_published rA2))
      (NewRegistry ''C'' True True) \<and>
    Sweep (inmemory_handler True True) \<lparr>Options_Interval = 60, Options_StaleThreshold = 600\<rparr> 1000
      (\<lambda>k. IsConnectedAnywhere k rC') w = (e, w') \<and>
    IsConnected 7 rB1 \<and> map_option DaemonTask_Status (tasks_in (w_tasks w') 1) = Some DaemonTaskStatusError"
proof -
  define w where "w = working_world\<lparr>w_tasks := snd (snd (DaemonTaskRepository_Save 10
    (working_task\<lparr>DaemonTask_DedicatedServerID := 7\<rparr>) NewDaemonTaskRepository))\<rparr>"
  have wf: "world_wf w"
    using Save_new [of NewDaemonTaskRepository 0 "working_task\<lparr>DaemonTask_DedicatedServerID := 7\<rparr>" 10] working_world_wf
    by (auto simp: w_def dt_room_def counter_room_def NewDaemonTaskRepository_def working_task_def sample_task_def
        dt_wf_new [unfolded NewDaemonTaskRepository_def])
  have t: "tasks_in (w_tasks w) 1 = Some (working_task\<lparr>DaemonTask_ID := 1, DaemonTask_DedicatedServerID := 7,
      DaemonTask_CreatedAt := Some 10, DaemonTask_UpdatedAt := Some 10\<rparr>)"
    by (simp add: w_def working_task_def sample_task_def DaemonTaskRepository_Save_def NewDaemonTaskRepository_def
        dt_addToIndexes_def id_of_counter_def)
  let ?A = "sample_registry ''A''" and ?B = "sample_registry ''B''"
  let ?A1 = "snd (Registry_Register None 60 0 ?A)" and ?B1 = "snd (Registry_Register None 61 0 ?B)"
  let ?A2 = "snd (UnregisterSession None 0 ?A1)"
  have run: "Registry_Register None 60 0 ?A = (None, ?A1)" "Registry_Register None 61 0 ?B = (None, ?B1)"
    "UnregisterSession None 0 ?A1 = (None, ?A2)"
    by (simp_all add: Registry_Register_def UnregisterSession_def publishSessionClosed_def Let_def case_prod_beta)
  have pre: "0 < length (rg_sessions ?A)" "Session_NodeID (rg_sessions ?A ! 0) = 7" "0 < length (rg_sessions ?B)"
    "Session_NodeID (rg_sessions ?B ! 0) = 7" "GetSession 7 (NewRegistry ''C'' True True) = None"
    by (simp_all add: sample_registry_def NewRegistry_def NewSession_def GetSession_def)
  let ?o = "\<lparr>Options_Interval = 60, Options_StaleThreshold = 600\<rparr>"
  obtain rC' :: "(string, string) Registry" where rC: "rC' = fold handleSessionEvent
      (drop (length (rg_published ?A)) (rg_published ?A1) @ drop (length (rg_published ?B)) (rg_published ?B1) @
       drop (length (rg_published ?A1)) (rg_published ?A2)) (NewRegistry ''C'' True True)" by blast
  obtain e w' where sw: "Sweep (inmemory_handler True True) ?o 1000 (\<lambda>k. IsConnectedAnywhere k rC') w = (e, w')"
    by (cases "Sweep (inmemory_handler True True) ?o 1000 (\<lambda>k. IsConnectedAnywhere k rC') w")
  have "IsConnected 7 ?B1 \<and> map_option DaemonTask_Status (tasks_in (w_tasks w') 1) = Some DaemonTaskStatusError"
    by (rule live_node_reaped [OF pre(1-4) run pre(5) rC wf t _ _ _ _ sw, where u = 10])
      (simp_all add: working_task_def)
  moreover have "rg_published ?A = []" "rg_published ?B = []" by (simp_all add: sample_registry_def NewRegistry_def)
  ultimately show ?thesis
    using run sw rC
    by - (rule exI [of _ ?A1], rule exI [of _ ?B1], rule exI [of _ ?A2], rule exI [of _ rC'], rule exI [of _ w],
      rule exI [of _ e], rule exI [of _ w'], simp)
qed

end
