(* ===== verification/Egress_Policy.thy ===== *)
theory Egress_Policy
  imports Go_Bytes
begin

text \<open>
  The egress policy for the connections that the panel opens on behalf of plugins,
  \<open>pkg/netutil/ssrf.go\<close>: which resolved addresses are refused, whatever spelling of the address is
  dialled.

  \<open>Addr\<close> is \<open>netip.Addr\<close> of the standard library: the invalid zero value, an IPv4 address as a 32-bit
  word, or an IPv6 address as a 128-bit word with its zone, and the predicates used of it follow the
  library.  Equality of addresses is equality of these values.
\<close>

type_synonym ipv4 = "32 word"
type_synonym ipv6 = "128 word"
type_synonym octet = byte

section \<open>Addresses of the standard library\<close>

datatype Addr = InvalidAddr | Addr4 ipv4 | Addr6 ipv6 string

definition IsValid :: "Addr \<Rightarrow> bool" where "IsValid ip \<longleftrightarrow> ip \<noteq> InvalidAddr"

definition Is4 :: "Addr \<Rightarrow> bool" where
  "Is4 ip = (case ip of Addr4 _ \<Rightarrow> True | _ \<Rightarrow> False)"

definition Is6 :: "Addr \<Rightarrow> bool" where
  "Is6 ip = (case ip of Addr6 _ _ \<Rightarrow> True | _ \<Rightarrow> False)"

definition WithZone :: "string \<Rightarrow> Addr \<Rightarrow> Addr" where
  "WithZone zone ip = (case ip of Addr6 w _ \<Rightarrow> Addr6 w zone | _ \<Rightarrow> ip)"

definition Unmap :: "Addr \<Rightarrow> Addr" where
  "Unmap ip = (case ip of Addr6 w _ \<Rightarrow> if drop_bit 32 w = 0xFFFF then Addr4 (ucast w) else ip | _ \<Rightarrow> ip)"

text \<open>The bytes of an address, the most significant first.\<close>

definition As16 :: "ipv6 \<Rightarrow> nat \<Rightarrow> octet" where
  "As16 w i = ucast (drop_bit (8 * (15 - i)) w)"

definition As4 :: "ipv4 \<Rightarrow> nat \<Rightarrow> octet" where
  "As4 v i = ucast (drop_bit (8 * (3 - i)) v)"

definition AddrFrom4 :: "octet \<Rightarrow> octet \<Rightarrow> octet \<Rightarrow> octet \<Rightarrow> Addr" where
  "AddrFrom4 a b c d =
     Addr4 (push_bit 24 (ucast a) OR push_bit 16 (ucast b) OR push_bit 8 (ucast c) OR ucast d)"

definition IsLoopback :: "Addr \<Rightarrow> bool" where
  "IsLoopback ip = (case Unmap ip of Addr4 v \<Rightarrow> As4 v 0 = 127 | Addr6 w _ \<Rightarrow> w = 1 | InvalidAddr \<Rightarrow> False)"

definition IsUnspecified :: "Addr \<Rightarrow> bool" where
  "IsUnspecified ip \<longleftrightarrow> ip = Addr4 0 \<or> ip = Addr6 0 ''''"

definition IsLinkLocalUnicast :: "Addr \<Rightarrow> bool" where
  "IsLinkLocalUnicast ip =
     (case Unmap ip of
        Addr4 v \<Rightarrow> As4 v 0 = 169 \<and> As4 v 1 = 254
      | Addr6 w _ \<Rightarrow> drop_bit 112 w AND 0xFFC0 = 0xFE80
      | InvalidAddr \<Rightarrow> False)"

definition IsLinkLocalMulticast :: "Addr \<Rightarrow> bool" where
  "IsLinkLocalMulticast ip =
     (case Unmap ip of
        Addr4 v \<Rightarrow> As4 v 0 = 224 \<and> As4 v 1 = 0 \<and> As4 v 2 = 0
      | Addr6 w _ \<Rightarrow> drop_bit 112 w AND 0xFF0F = 0xFF02
      | InvalidAddr \<Rightarrow> False)"

definition IsMulticast :: "Addr \<Rightarrow> bool" where
  "IsMulticast ip =
     (case Unmap ip of
        Addr4 v \<Rightarrow> As4 v 0 AND 0xF0 = 0xE0
      | Addr6 w _ \<Rightarrow> drop_bit 120 w = 0xFF
      | InvalidAddr \<Rightarrow> False)"

definition IsPrivate :: "Addr \<Rightarrow> bool" where
  "IsPrivate ip =
     (case Unmap ip of
        Addr4 v \<Rightarrow> As4 v 0 = 10 \<or> As4 v 0 = 172 \<and> As4 v 1 AND 0xF0 = 16 \<or> As4 v 0 = 192 \<and> As4 v 1 = 168
      | Addr6 w _ \<Rightarrow> As16 w 0 AND 0xFE = 0xFC
      | InvalidAddr \<Rightarrow> False)"

datatype Prefix = Prefix ipv6 nat

definition Prefix_Contains :: "Prefix \<Rightarrow> Addr \<Rightarrow> bool" where
  "Prefix_Contains p ip =
     (case p of Prefix a bits \<Rightarrow>
        (case ip of Addr6 w zone \<Rightarrow> zone = '''' \<and> drop_bit (128 - bits) w = drop_bit (128 - bits) a | _ \<Rightarrow> False))"

section \<open>The policy\<close>

definition BlockReasonLoopback :: string where "BlockReasonLoopback = ''loopback''"
definition BlockReasonUnspecified :: string where "BlockReasonUnspecified = ''unspecified''"
definition BlockReasonLinkLocal :: string where "BlockReasonLinkLocal = ''link_local''"
definition BlockReasonPrivate :: string where "BlockReasonPrivate = ''private''"
definition BlockReasonMulticast :: string where "BlockReasonMulticast = ''multicast''"
definition BlockReasonCloudMetadata :: string where "BlockReasonCloudMetadata = ''cloud_metadata''"
definition BlockReasonCGNAT :: string where "BlockReasonCGNAT = ''cgnat''"
definition BlockReasonReservedV4 :: string where "BlockReasonReservedV4 = ''reserved_v4''"

lemmas reason_defs = BlockReasonLoopback_def BlockReasonUnspecified_def BlockReasonLinkLocal_def
  BlockReasonPrivate_def BlockReasonMulticast_def BlockReasonCloudMetadata_def BlockReasonCGNAT_def
  BlockReasonReservedV4_def

definition nat64WellKnownPrefix :: Prefix where
  "nat64WellKnownPrefix = Prefix 0x0064FF9B000000000000000000000000 96"
definition sixToFourPrefix :: Prefix where
  "sixToFourPrefix = Prefix 0x20020000000000000000000000000000 16"
definition teredoPrefix :: Prefix where
  "teredoPrefix = Prefix 0x20010000000000000000000000000000 32"
definition ipv4TranslatedPrefix :: Prefix where
  "ipv4TranslatedPrefix = Prefix 0x0000000000000000FFFF000000000000 96"
definition ipv4CompatiblePrefix :: Prefix where
  "ipv4CompatiblePrefix = Prefix 0 96"
definition nat64LocalUsePrefix :: Prefix where
  "nat64LocalUsePrefix = Prefix 0x0064FF9B000100000000000000000000 48"
definition nat64LocalUse96Prefix :: Prefix where
  "nat64LocalUse96Prefix = Prefix 0x0064FF9B000100000000000000000000 96"

definition cloudMetadataAddrs :: "Addr list" where
  "cloudMetadataAddrs =
     [Addr4 0xA9FEA9FE, Addr6 0xFD000EC2000000000000000000000254 '''',
      Addr4 0xA9FEAA02, Addr4 0xA9FEAA17, Addr6 0xFD000EC2000000000000000000000023 '''',
      Addr6 0xFD2000CE000000000000000000000254 '''', Addr6 0xFD0000C10000000000000000A9FEA9FE '''',
      Addr6 0xFE8000000000000000000000A9FEA9FE '''', Addr4 0xA83F8110, Addr4 0x646464C8,
      Addr4 0xA9FE0017, Addr4 0xA9FE2A2A, Addr6 0xFD000042000000000000000000000042 '''']"

definition effectiveAddr :: "Addr \<Rightarrow> Addr" where
  "effectiveAddr ip0 =
     (case Unmap (WithZone '''' ip0) of
        Addr6 w z \<Rightarrow>
          let ip = Addr6 w z; a16 = As16 w
          in if Prefix_Contains nat64WellKnownPrefix ip \<or> Prefix_Contains nat64LocalUse96Prefix ip \<or>
                Prefix_Contains ipv4TranslatedPrefix ip
             then AddrFrom4 (a16 12) (a16 13) (a16 14) (a16 15)
             else if Prefix_Contains sixToFourPrefix ip then AddrFrom4 (a16 2) (a16 3) (a16 4) (a16 5)
             else if Prefix_Contains teredoPrefix ip
             then AddrFrom4 (NOT (a16 12)) (NOT (a16 13)) (NOT (a16 14)) (NOT (a16 15))
             else if Prefix_Contains ipv4CompatiblePrefix ip \<and> \<not> IsLoopback ip \<and> \<not> IsUnspecified ip
             then AddrFrom4 (a16 12) (a16 13) (a16 14) (a16 15)
             else ip
      | ip \<Rightarrow> ip)"

definition isCloudMetadata :: "Addr \<Rightarrow> bool" where
  "isCloudMetadata ip =
     (if ip \<in> set cloudMetadataAddrs then True
      else if \<not> Prefix_Contains nat64LocalUsePrefix ip then False
      else case ip of
        Addr6 w _ \<Rightarrow>
          let a16 = As16 w
          in AddrFrom4 (a16 6) (a16 7) (a16 9) (a16 10) \<in> set cloudMetadataAddrs \<or>
             AddrFrom4 (a16 7) (a16 9) (a16 10) (a16 11) \<in> set cloudMetadataAddrs \<or>
             AddrFrom4 (a16 9) (a16 10) (a16 11) (a16 12) \<in> set cloudMetadataAddrs \<or>
             AddrFrom4 (a16 12) (a16 13) (a16 14) (a16 15) \<in> set cloudMetadataAddrs
      | _ \<Rightarrow> False)"

definition IsCloudMetadataIP :: "Addr \<Rightarrow> bool" where
  "IsCloudMetadataIP ip = (if \<not> IsValid ip then False else isCloudMetadata (effectiveAddr ip))"

definition isCGNAT :: "Addr \<Rightarrow> bool" where
  "isCGNAT ip = (case ip of Addr4 v \<Rightarrow> As4 v 0 = 100 \<and> As4 v 1 \<ge> 64 \<and> As4 v 1 \<le> 127 | _ \<Rightarrow> False)"

definition isReservedV4 :: "Addr \<Rightarrow> bool" where
  "isReservedV4 ip =
     (case ip of Addr4 v \<Rightarrow> if As4 v 0 = 0 then True else if As4 v 0 \<ge> 240 then True else False | _ \<Rightarrow> False)"

definition BlockReason :: "Addr \<Rightarrow> string" where
  "BlockReason ip0 =
     (if \<not> IsValid ip0 then BlockReasonReservedV4
      else
        let ip = effectiveAddr ip0
        in if isCloudMetadata ip then BlockReasonCloudMetadata
           else if IsLoopback ip then BlockReasonLoopback
           else if IsUnspecified ip then BlockReasonUnspecified
           else if IsLinkLocalUnicast ip \<or> IsLinkLocalMulticast ip then BlockReasonLinkLocal
           else if IsMulticast ip then BlockReasonMulticast
           else if IsPrivate ip \<or> Prefix_Contains nat64LocalUsePrefix ip then BlockReasonPrivate
           else if isCGNAT ip then BlockReasonCGNAT
           else if isReservedV4 ip then BlockReasonReservedV4
           else '''')"

definition IsBlockedIP :: "Addr \<Rightarrow> bool" where
  "IsBlockedIP ip \<longleftrightarrow> BlockReason ip \<noteq> ''''"

definition DialBlockReason :: "Addr \<Rightarrow> bool \<Rightarrow> bool \<Rightarrow> string" where
  "DialBlockReason ip blockPrivate allowlisted =
     (if \<not> IsValid ip then BlockReasonReservedV4
      else if IsCloudMetadataIP ip then BlockReasonCloudMetadata
      else if \<not> blockPrivate \<or> allowlisted then ''''
      else BlockReason ip)"

section \<open>Spellings of an IPv4 host\<close>

text \<open>
  The IPv6 addresses that reach an IPv4 host: mapped, through a NAT64 or SIIT translator, through a
  6to4 relay whatever the subnet, through Teredo whatever the server and port, and the deprecated
  compatible form.
\<close>

inductive spelling :: "ipv4 \<Rightarrow> Addr \<Rightarrow> bool" where
  mapped: "spelling v (Addr6 (push_bit 32 0xFFFF OR ucast v) zone)"
| nat64: "spelling v (Addr6 (push_bit 96 0x64FF9B OR ucast v) zone)"
| nat64_local: "spelling v (Addr6 (push_bit 80 0x64FF9B0001 OR ucast v) zone)"
| translated: "spelling v (Addr6 (push_bit 48 0xFFFF OR ucast v) zone)"
| six_to_four: "spelling v (Addr6 (push_bit 112 0x2002 OR push_bit 80 (ucast v) OR take_bit 80 subnet) zone)"
| teredo: "spelling v (Addr6 (push_bit 96 0x20010000 OR push_bit 32 (take_bit 64 server) OR ucast (NOT v)) zone)"
| compatible: "v \<noteq> 0 \<Longrightarrow> v \<noteq> 1 \<Longrightarrow> spelling v (Addr6 (ucast v) zone)"

lemma octets_of_word:
  fixes w :: ipv6
  shows "push_bit 24 (ucast (ucast (drop_bit (k + 24) w) :: octet)) OR
      push_bit 16 (ucast (ucast (drop_bit (k + 16) w) :: octet)) OR
      push_bit 8 (ucast (ucast (drop_bit (k + 8) w) :: octet)) OR ucast (ucast (drop_bit k w) :: octet) =
    (ucast (drop_bit k w) :: ipv4)" (is "?l = ?r")
proof (rule bit_word_eqI)
  fix n
  assume "n < LENGTH(32)"
  then consider "n < 8" | "8 \<le> n" "n < 16" | "16 \<le> n" "n < 24" | "24 \<le> n" "n < 32" by fastforce
  then show "bit ?l n = bit ?r n"
    by cases (auto simp: bit_simps)
qed

lemma low_octets: "AddrFrom4 (As16 w 12) (As16 w 13) (As16 w 14) (As16 w 15) = Addr4 (ucast w)"
  using octets_of_word [of 0 w] by (simp add: AddrFrom4_def As16_def)

lemma middle_octets: "AddrFrom4 (As16 w 2) (As16 w 3) (As16 w 4) (As16 w 5) = Addr4 (ucast (drop_bit 80 w))"
  using octets_of_word [of 80 w] by (simp add: AddrFrom4_def As16_def)

lemma inverted_octets:
  "AddrFrom4 (NOT (As16 w 12)) (NOT (As16 w 13)) (NOT (As16 w 14)) (NOT (As16 w 15)) = Addr4 (NOT (ucast w))"
proof -
  have "NOT (As16 w i) = As16 (NOT w) i" if "i \<le> 15" for i
    using that unfolding As16_def by (intro bit_word_eqI) (auto simp: bit_simps)
  then have "AddrFrom4 (NOT (As16 w 12)) (NOT (As16 w 13)) (NOT (As16 w 14)) (NOT (As16 w 15)) = Addr4 (ucast (NOT w))"
    by (simp add: low_octets)
  moreover have "ucast (NOT w) = (NOT (ucast w) :: ipv4)"
    by (rule bit_word_eqI) (auto simp: bit_simps)
  ultimately show ?thesis by simp
qed

lemma drop_above: "32 \<le> m \<Longrightarrow> drop_bit 32 (push_bit m c OR ucast (v :: ipv4) :: ipv6) = drop_bit 32 (push_bit m c)"
  by (rule bit_word_eqI) (auto simp: bit_simps dest: bit_imp_le_length)

lemma low_part: "32 \<le> m \<Longrightarrow> ucast (push_bit m c OR ucast v :: ipv6) = (v :: ipv4)"
  by (rule bit_word_eqI) (auto simp: bit_simps)

lemma drop_compatible: "drop_bit 32 (ucast (v :: ipv4) :: ipv6) = 0"
  by (rule bit_word_eqI) (auto simp: bit_simps dest: bit_imp_le_length)

lemma prefix_drop:
  fixes w :: ipv6
  shows "drop_bit 32 w = c \<Longrightarrow> drop_bit 112 w = drop_bit 80 c"
    "drop_bit 32 w = c \<Longrightarrow> drop_bit 96 w = drop_bit 64 c"
    "drop_bit 96 w = c \<Longrightarrow> drop_bit 112 w = drop_bit 16 c"
  by (drule sym, simp)+

lemmas prefix_defs = nat64WellKnownPrefix_def nat64LocalUse96Prefix_def ipv4TranslatedPrefix_def
  sixToFourPrefix_def teredoPrefix_def ipv4CompatiblePrefix_def nat64LocalUsePrefix_def Prefix_Contains_def

lemma six_to_four_parts:
  fixes subnet :: ipv6 and v :: ipv4
  defines "w \<equiv> push_bit 112 0x2002 OR push_bit 80 (ucast v) OR take_bit 80 subnet"
  shows "drop_bit 112 w = 0x2002" "ucast (drop_bit 80 w) = v"
proof -
  have "drop_bit 112 w = drop_bit 112 (push_bit 112 0x2002)"
    unfolding w_def by (rule bit_word_eqI) (auto simp: bit_simps dest: bit_imp_le_length)
  then show "drop_bit 112 w = 0x2002" by simp
  have "ucast (drop_bit 80 (push_bit 112 c OR push_bit 80 (ucast v) OR take_bit 80 subnet)) = v" for c :: ipv6
    by (rule bit_word_eqI) (auto simp: bit_simps)
  then show "ucast (drop_bit 80 w) = v" unfolding w_def by blast
qed

lemma teredo_parts:
  fixes server :: ipv6 and v :: ipv4
  defines "w \<equiv> push_bit 96 0x20010000 OR push_bit 32 (take_bit 64 server) OR ucast (NOT v)"
  shows "drop_bit 96 w = 0x20010000" "NOT (ucast w) = v"
proof -
  have "drop_bit 96 w = drop_bit 96 (push_bit 96 0x20010000)"
    unfolding w_def by (rule bit_word_eqI) (auto simp: bit_simps dest: bit_imp_le_length)
  then show "drop_bit 96 w = 0x20010000" by simp
  have "NOT (ucast (push_bit 96 c OR push_bit 32 (take_bit 64 server) OR ucast (NOT v) :: ipv6)) = v" for c :: ipv6
    by (rule bit_word_eqI) (auto simp: bit_simps)
  then show "NOT (ucast w) = v" unfolding w_def by blast
qed

lemma effective_spelling:
  assumes "spelling v ip"
  shows "effectiveAddr ip = Addr4 v"
  using assms
proof cases
  case (mapped zone)
  then show ?thesis
    using drop_above [of 32 "0xFFFF" v] low_part [of 32 "0xFFFF" v]
    by (simp add: effectiveAddr_def WithZone_def Unmap_def)
next
  case (nat64 zone)
  let ?w = "push_bit 96 0x64FF9B OR ucast v :: ipv6"
  have "drop_bit 32 ?w = push_bit 64 0x64FF9B" using drop_above [of 96 "0x64FF9B" v] by simp
  then show ?thesis
    using nat64 low_part [of 96 "0x64FF9B" v]
    by (simp add: effectiveAddr_def WithZone_def Unmap_def prefix_defs low_octets)
next
  case (nat64_local zone)
  let ?w = "push_bit 80 0x64FF9B0001 OR ucast v :: ipv6"
  have "drop_bit 32 ?w = push_bit 48 0x64FF9B0001" using drop_above [of 80 "0x64FF9B0001" v] by simp
  then show ?thesis
    using nat64_local low_part [of 80 "0x64FF9B0001" v]
    by (simp add: effectiveAddr_def WithZone_def Unmap_def prefix_defs low_octets)
next
  case (translated zone)
  let ?w = "push_bit 48 0xFFFF OR ucast v :: ipv6"
  have "drop_bit 32 ?w = push_bit 16 0xFFFF" using drop_above [of 48 "0xFFFF" v] by simp
  then show ?thesis
    using translated low_part [of 48 "0xFFFF" v]
    by (simp add: effectiveAddr_def WithZone_def Unmap_def prefix_defs low_octets)
next
  case (six_to_four subnet zone)
  define w where "w = (push_bit 112 0x2002 OR push_bit 80 (ucast v) OR take_bit 80 subnet :: ipv6)"
  have parts: "drop_bit 112 w = 0x2002" "ucast (drop_bit 80 w) = v"
    unfolding w_def by (rule six_to_four_parts)+
  then have "drop_bit 32 w \<noteq> 0xFFFF" "drop_bit 32 w \<noteq> 0x64FF9B0000000000000000"
    "drop_bit 32 w \<noteq> 0x64FF9B0001000000000000" "drop_bit 32 w \<noteq> 0xFFFF0000"
    by (auto dest!: prefix_drop(1))
  then show ?thesis
    using six_to_four(1) parts unfolding w_def [symmetric]
    by (simp add: effectiveAddr_def WithZone_def Unmap_def prefix_defs middle_octets)
next
  case (teredo server zone)
  define w where "w = (push_bit 96 0x20010000 OR push_bit 32 (take_bit 64 server) OR ucast (NOT v) :: ipv6)"
  have parts: "drop_bit 96 w = 0x20010000" "NOT (ucast w) = v"
    unfolding w_def by (rule teredo_parts)+
  then have "drop_bit 32 w \<noteq> 0xFFFF" "drop_bit 32 w \<noteq> 0x64FF9B0000000000000000"
    "drop_bit 32 w \<noteq> 0x64FF9B0001000000000000" "drop_bit 32 w \<noteq> 0xFFFF0000"
    by (auto dest!: prefix_drop(2))
  moreover have "drop_bit 112 w = 0x2001" using prefix_drop(3) [OF parts(1)] by simp
  ultimately show ?thesis
    using teredo(1) parts unfolding w_def [symmetric]
    by (simp add: effectiveAddr_def WithZone_def Unmap_def prefix_defs inverted_octets)
next
  case (compatible zone)
  have "drop_bit 112 (ucast v :: ipv6) = 0" "drop_bit 96 (ucast v :: ipv6) = 0"
    using prefix_drop(1,2) [OF drop_compatible [of v]] by simp_all
  moreover have inv: "ucast (ucast v :: ipv6) = v" by (rule bit_word_eqI) (auto simp: bit_simps)
  moreover have "(ucast v :: ipv6) \<noteq> 0" "(ucast v :: ipv6) \<noteq> 1"
    using compatible(2,3) inv by (metis unsigned_0, metis unsigned_1)
  ultimately show ?thesis
    using compatible(1)
    by (simp add: effectiveAddr_def WithZone_def Unmap_def prefix_defs low_octets drop_compatible IsLoopback_def IsUnspecified_def)
qed

section \<open>The IPv4 blocklist as address ranges\<close>

text \<open>
  The special-purpose ranges by their first and last address: this network, private networks,
  carrier-grade NAT, loopback, link-local, multicast and future use; and Azure's WireServer, which lies
  in none of them.
\<close>

definition special_ranges :: "(ipv4 \<times> ipv4) list" where
  "special_ranges =
     [(0x00000000, 0x00FFFFFF), (0x0A000000, 0x0AFFFFFF), (0x64400000, 0x647FFFFF), (0x7F000000, 0x7FFFFFFF),
      (0xA9FE0000, 0xA9FEFFFF), (0xAC100000, 0xAC1FFFFF), (0xC0A80000, 0xC0A8FFFF), (0xE0000000, 0xFFFFFFFF)]"

definition public_v4 :: "ipv4 \<Rightarrow> bool" where
  "public_v4 v \<longleftrightarrow> v \<noteq> 0xA83F8110 \<and> \<not> (\<exists>(lo, hi) \<in> set special_ranges. lo \<le> v \<and> v \<le> hi)"

lemma div_range: "0 < d \<Longrightarrow> n div d = q \<longleftrightarrow> q * d \<le> n \<and> n < (q + 1) * d" for n d q :: nat
  using dividend_less_times_div [of d n] by (auto simp: div_nat_eqI algebra_simps)

lemma unat_As4_0: "unat (As4 v 0) = unat v div 2 ^ 24"
proof -
  have "unat v < 2 ^ 32" using unsigned_less [where 'a = nat, of v] by simp
  then have "unat v div 2 ^ 24 < 2 ^ 8" by (simp add: less_mult_imp_div_less)
  then have "take_bit 8 (drop_bit 24 (unat v)) = unat v div 2 ^ 24"
    by (simp add: drop_bit_eq_div take_bit_nat_eq_self)
  then show ?thesis unfolding As4_def unsigned_ucast_eq unat_drop_bit_eq by simp
qed

lemma unat_As4_1: "unat (As4 v 1) = unat v div 2 ^ 16 mod 2 ^ 8"
  unfolding As4_def unsigned_ucast_eq unat_drop_bit_eq by (simp add: drop_bit_eq_div take_bit_eq_mod)

lemma first_octet: "As4 v 0 = a \<longleftrightarrow> unat a * 2 ^ 24 \<le> unat v \<and> unat v < (unat a + 1) * 2 ^ 24"
  unfolding word_unat_eq_iff unat_As4_0 by (rule div_range) simp

lemma two_octets:
  "As4 v 0 = a \<Longrightarrow> unat v div 2 ^ 16 = unat a * 2 ^ 8 + unat (As4 v 1)"
proof -
  assume a: "As4 v 0 = a"
  have "unat v div 2 ^ 16 div 2 ^ 8 = unat a"
    using arg_cong [OF a, of unat] unat_As4_0 [of v] by (simp add: div_mult2_eq [symmetric])
  then show ?thesis using div_mult_mod_eq [of "unat v div 2 ^ 16" "2 ^ 8"] unat_As4_1 [of v] by simp
qed

text \<open>An octet pair whose second octet lies in an interval is an interval of addresses.\<close>

lemma second_octet:
  assumes "lo \<le> hi" and "hi < 256"
  shows "As4 v 0 = a \<and> lo \<le> unat (As4 v 1) \<and> unat (As4 v 1) \<le> hi \<longleftrightarrow>
    (unat a * 2 ^ 8 + lo) * 2 ^ 16 \<le> unat v \<and> unat v < (unat a * 2 ^ 8 + hi + 1) * 2 ^ 16"
proof -
  let ?b = "unat v div 2 ^ 16"
  have first: "As4 v 0 = a \<longleftrightarrow> ?b div 2 ^ 8 = unat a"
    unfolding word_unat_eq_iff unat_As4_0 by (simp add: div_mult2_eq [symmetric])
  have "As4 v 0 = a \<and> lo \<le> unat (As4 v 1) \<and> unat (As4 v 1) \<le> hi \<longleftrightarrow>
      unat a * 2 ^ 8 + lo \<le> ?b \<and> ?b \<le> unat a * 2 ^ 8 + hi"
  proof
    assume l: "As4 v 0 = a \<and> lo \<le> unat (As4 v 1) \<and> unat (As4 v 1) \<le> hi"
    then show "unat a * 2 ^ 8 + lo \<le> ?b \<and> ?b \<le> unat a * 2 ^ 8 + hi" using two_octets [of v a] by simp
  next
    assume r: "unat a * 2 ^ 8 + lo \<le> ?b \<and> ?b \<le> unat a * 2 ^ 8 + hi"
    then have "?b div 2 ^ 8 = unat a" using assms by (intro div_nat_eqI) simp_all
    then have a: "As4 v 0 = a" using first by simp
    with r two_octets [OF a] show "As4 v 0 = a \<and> lo \<le> unat (As4 v 1) \<and> unat (As4 v 1) \<le> hi" by simp
  qed
  also have "\<dots> \<longleftrightarrow> (unat a * 2 ^ 8 + lo) * 2 ^ 16 \<le> unat v \<and> unat v < (unat a * 2 ^ 8 + hi + 1) * 2 ^ 16"
    using less_eq_div_iff_mult_less_eq [of "2 ^ 16" "unat a * 2 ^ 8 + lo" "unat v"]
      div_less_iff_less_mult [of "2 ^ 16" "unat v" "unat a * 2 ^ 8 + hi + 1"]
    by (simp add: less_Suc_eq_le)
  finally show ?thesis .
qed

lemma high_nibble: "x AND 0xF0 = push_bit 4 c \<longleftrightarrow> unat x div 16 = unat c" if "unat c < 16" for x c :: octet
proof -
  have "unat x < 256" using unsigned_less [where 'a = nat, of x] by simp
  then have "unat x AND 240 = unat x div 16 * 16"
    using and_window [of "unat x" 4 4]
    by (simp add: push_bit_eq_mult take_bit_eq_mod drop_bit_eq_div mask_eq_exp_minus_1 less_mult_imp_div_less)
  moreover have "unat (push_bit 4 c) = unat c * 16"
    using that unfolding unsigned_push_bit_eq by (simp add: push_bit_eq_mult take_bit_nat_eq_self)
  ultimately show ?thesis by (auto simp: word_unat_eq_iff unat_and)
qed

lemma v4_simps [simp]:
  "effectiveAddr (Addr4 v) = Addr4 v" "Unmap (Addr4 v) = Addr4 v" "IsValid (Addr4 v)"
  "Prefix_Contains p (Addr4 v) = False"
  by (simp_all add: effectiveAddr_def WithZone_def Unmap_def IsValid_def Prefix_Contains_def split: Prefix.split)

lemma v4_ranges:
  "IsLoopback (Addr4 v) \<longleftrightarrow> 0x7F000000 \<le> unat v \<and> unat v < 0x80000000"
  "IsLinkLocalUnicast (Addr4 v) \<longleftrightarrow> 0xA9FE0000 \<le> unat v \<and> unat v < 0xA9FF0000"
  "IsMulticast (Addr4 v) \<longleftrightarrow> 0xE0000000 \<le> unat v \<and> unat v < 0xF0000000"
  "IsPrivate (Addr4 v) \<longleftrightarrow> 0x0A000000 \<le> unat v \<and> unat v < 0x0B000000 \<or>
     0xAC100000 \<le> unat v \<and> unat v < 0xAC200000 \<or> 0xC0A80000 \<le> unat v \<and> unat v < 0xC0A90000"
  "isCGNAT (Addr4 v) \<longleftrightarrow> 0x64400000 \<le> unat v \<and> unat v < 0x64800000"
  "isReservedV4 (Addr4 v) \<longleftrightarrow> unat v < 0x01000000 \<or> 0xF0000000 \<le> unat v"
proof -
  have eq: "As4 v (Suc 0) = b \<longleftrightarrow> unat b \<le> unat (As4 v (Suc 0)) \<and> unat (As4 v (Suc 0)) \<le> unat b" for b
    by (auto simp: word_unat_eq_iff)
  show "IsLoopback (Addr4 v) \<longleftrightarrow> 0x7F000000 \<le> unat v \<and> unat v < 0x80000000"
    using first_octet [of v 127] by (simp add: IsLoopback_def)
  show "IsLinkLocalUnicast (Addr4 v) \<longleftrightarrow> 0xA9FE0000 \<le> unat v \<and> unat v < 0xA9FF0000"
    using second_octet [of 254 254 v 169] by (simp add: IsLinkLocalUnicast_def eq [of 254])
  have "As4 v 0 AND 0xF0 = 0xE0 \<longleftrightarrow> unat v div 2 ^ 24 div 16 = 14"
    using high_nibble [of 14 "As4 v 0"] by (simp add: unat_As4_0)
  also have "\<dots> \<longleftrightarrow> unat v div 2 ^ 28 = 14" by (simp add: div_mult2_eq [symmetric])
  also have "\<dots> \<longleftrightarrow> 0xE0000000 \<le> unat v \<and> unat v < 0xF0000000" by (subst div_range) simp_all
  finally show "IsMulticast (Addr4 v) \<longleftrightarrow> 0xE0000000 \<le> unat v \<and> unat v < 0xF0000000"
    by (simp add: IsMulticast_def)
  have "As4 v 1 AND 0xF0 = 16 \<longleftrightarrow> 16 \<le> unat (As4 v 1) \<and> unat (As4 v 1) \<le> 31"
    using high_nibble [of 1 "As4 v 1"] div_range [of 16 "unat (As4 v 1)" 1] by auto
  then show "IsPrivate (Addr4 v) \<longleftrightarrow> 0x0A000000 \<le> unat v \<and> unat v < 0x0B000000 \<or>
     0xAC100000 \<le> unat v \<and> unat v < 0xAC200000 \<or> 0xC0A80000 \<le> unat v \<and> unat v < 0xC0A90000"
    using first_octet [of v 10] second_octet [of 16 31 v 172] second_octet [of 168 168 v 192]
    by (simp add: IsPrivate_def eq [of 168])
  show "isCGNAT (Addr4 v) \<longleftrightarrow> 0x64400000 \<le> unat v \<and> unat v < 0x64800000"
    using second_octet [of 64 127 v 100] by (simp add: isCGNAT_def word_le_nat_alt)
  have "240 \<le> As4 v 0 \<longleftrightarrow> 0xF0000000 \<le> unat v"
    using less_eq_div_iff_mult_less_eq [of "2 ^ 24" 240 "unat v"] by (simp add: word_le_nat_alt unat_As4_0)
  then show "isReservedV4 (Addr4 v) \<longleftrightarrow> unat v < 0x01000000 \<or> 0xF0000000 \<le> unat v"
    using first_octet [of v 0] by (simp add: isReservedV4_def)
qed

text \<open>Every IPv4 metadata endpoint but one lies in a range that is blocked anyway.\<close>

lemma metadata_v4:
  "isCloudMetadata (Addr4 v) \<longleftrightarrow> unat v \<in> {0xA9FEA9FE, 0xA9FEAA02, 0xA9FEAA17, 0xA83F8110, 0x646464C8, 0xA9FE0017, 0xA9FE2A2A}"
  by (simp add: isCloudMetadata_def cloudMetadataAddrs_def word_unat_eq_iff)

lemma public_v4_ranges:
  "public_v4 v \<longleftrightarrow> unat v \<noteq> 0xA83F8110 \<and> \<not> unat v < 0x01000000 \<and>
    \<not> (0x0A000000 \<le> unat v \<and> unat v < 0x0B000000) \<and> \<not> (0x64400000 \<le> unat v \<and> unat v < 0x64800000) \<and>
    \<not> (0x7F000000 \<le> unat v \<and> unat v < 0x80000000) \<and> \<not> (0xA9FE0000 \<le> unat v \<and> unat v < 0xA9FF0000) \<and>
    \<not> (0xAC100000 \<le> unat v \<and> unat v < 0xAC200000) \<and> \<not> (0xC0A80000 \<le> unat v \<and> unat v < 0xC0A90000) \<and>
    \<not> 0xE0000000 \<le> unat v"
proof -
  have "unat v < 0x100000000" using unsigned_less [where 'a = nat, of v] by simp
  then have "unat v \<le> 0xFFFFFFFF" by simp
  then show ?thesis
    unfolding public_v4_def special_ranges_def word_unat_eq_iff word_le_nat_alt by auto
qed

lemma block_v4: "BlockReason (Addr4 v) = '''' \<longleftrightarrow> public_v4 v"
proof -
  have "BlockReason (Addr4 v) = '''' \<longleftrightarrow> \<not> (isCloudMetadata (Addr4 v) \<or> IsLoopback (Addr4 v) \<or> IsUnspecified (Addr4 v) \<or>
      IsLinkLocalUnicast (Addr4 v) \<or> IsLinkLocalMulticast (Addr4 v) \<or> IsMulticast (Addr4 v) \<or> IsPrivate (Addr4 v) \<or>
      isCGNAT (Addr4 v) \<or> isReservedV4 (Addr4 v))"
    by (simp add: BlockReason_def Let_def reason_defs)
  moreover have "IsUnspecified (Addr4 v) \<Longrightarrow> isReservedV4 (Addr4 v)"
    by (simp add: IsUnspecified_def isReservedV4_def As4_def)
  moreover have "IsLinkLocalMulticast (Addr4 v) \<Longrightarrow> IsMulticast (Addr4 v)"
    by (simp add: IsLinkLocalMulticast_def IsMulticast_def)
  moreover have "isCloudMetadata (Addr4 v) \<Longrightarrow>
      unat v = 0xA83F8110 \<or> IsLinkLocalUnicast (Addr4 v) \<or> isCGNAT (Addr4 v)"
    unfolding metadata_v4 v4_ranges by auto
  moreover have "unat v = 0xA83F8110 \<Longrightarrow> isCloudMetadata (Addr4 v)" unfolding metadata_v4 by simp
  ultimately have "BlockReason (Addr4 v) = '''' \<longleftrightarrow> unat v \<noteq> 0xA83F8110 \<and> \<not> IsLoopback (Addr4 v) \<and>
      \<not> IsLinkLocalUnicast (Addr4 v) \<and> \<not> IsMulticast (Addr4 v) \<and> \<not> IsPrivate (Addr4 v) \<and>
      \<not> isCGNAT (Addr4 v) \<and> \<not> isReservedV4 (Addr4 v)"
    by blast
  moreover have "0xE0000000 \<le> unat v \<longleftrightarrow> 0xE0000000 \<le> unat v \<and> unat v < 0xF0000000 \<or> 0xF0000000 \<le> unat v"
    by linarith
  ultimately show ?thesis unfolding v4_ranges public_v4_ranges by blast
qed

section \<open>Theorems\<close>

text \<open>
  C19. The egress check on an IPv4 host with the policy on and no allow-list entry lets a dial through
  exactly when the address lies in none of the special-purpose ranges and is not the one metadata
  endpoint outside them.
\<close>

theorem dial_v4_exact:
  "DialBlockReason (Addr4 v) True False = '''' \<longleftrightarrow> public_v4 v"
proof -
  have "DialBlockReason (Addr4 v) True False = BlockReason (Addr4 v)"
    by (simp add: DialBlockReason_def IsCloudMetadataIP_def BlockReason_def)
  then show ?thesis by (simp add: block_v4)
qed

text \<open>
  C18. No spelling evades the check: an IPv6 address that is delivered to an IPv4 host, whatever its
  zone, subnet, Teredo server or port, is judged as that host, under every policy.  So a metadata
  endpoint is refused in every spelling even when the policy is off or the host is on the allow-list.
\<close>

theorem no_spelling_evades:
  assumes "spelling v ip"
  shows "DialBlockReason ip blockPrivate allowlisted = DialBlockReason (Addr4 v) blockPrivate allowlisted \<and>
    BlockReason ip = BlockReason (Addr4 v) \<and>
    (Addr4 v \<in> set cloudMetadataAddrs \<longrightarrow> DialBlockReason ip blockPrivate allowlisted = BlockReasonCloudMetadata)"
proof -
  have "IsValid ip" using assms by cases (simp_all add: IsValid_def)
  then show ?thesis
    using effective_spelling [OF assms]
    by (simp add: DialBlockReason_def IsCloudMetadataIP_def BlockReason_def isCloudMetadata_def)
qed

theorem no_spelling_evades_witness:
  "DialBlockReason (Addr6 0x200201020304000000000000FFFF0001 ''eth0'') True False = '''' \<and>
   DialBlockReason (Addr6 (push_bit 96 0x64FF9B OR ucast (0xA9FEA9FE :: ipv4)) ''eth0'') False True = BlockReasonCloudMetadata"
proof -
  have "spelling 0x01020304 (Addr6 0x200201020304000000000000FFFF0001 ''eth0'')"
    using spelling.six_to_four [where v = "0x01020304" and subnet = "0xFFFF0001" and zone = "''eth0''"] by simp
  from no_spelling_evades [OF this, of True False]
  have "DialBlockReason (Addr6 0x200201020304000000000000FFFF0001 ''eth0'') True False = DialBlockReason (Addr4 0x01020304) True False"
    by simp
  also have "\<dots> = ''''"
    by (simp add: DialBlockReason_def IsCloudMetadataIP_def metadata_v4 block_v4 public_v4_ranges)
  finally show ?thesis
    using no_spelling_evades [OF spelling.nat64 [of "0xA9FEA9FE" "''eth0''"], of False True]
    by (auto simp: cloudMetadataAddrs_def)
qed

end
