(* ===== verification/Go_Text.thy ===== *)
theory Go_Text
  imports Go_Base
begin

text \<open>
  The part of Go's text formatting the cache keys are made of: the decimal form of an unsigned
  integer (\<open>strconv.FormatUint(n, 10)\<close>, the \<open>%d\<close> verb) and \<open>strings.HasPrefix\<close>, \<open>strings.TrimPrefix\<close>
  (\<open>strings.HasPrefix\<close> is \<open>prefix\<close> of the library).  The lemmas say when a text that joins a name and
  a number determines both.
\<close>

definition digit :: "nat \<Rightarrow> char" where
  "digit n = char_of (48 + n)"

fun decimal :: "nat \<Rightarrow> string" where
  "decimal n = (if n < 10 then [digit n] else decimal (n div 10) @ [digit (n mod 10)])"

declare decimal.simps [simp del]

definition TrimPrefix :: "string \<Rightarrow> string \<Rightarrow> string" where
  "TrimPrefix s p = (if prefix p s then drop (length p) s else s)"

lemma TrimPrefix_append [simp]: "TrimPrefix (p @ s) p = s"
  by (simp add: TrimPrefix_def)

lemma digit_inj: "m < 10 \<Longrightarrow> n < 10 \<Longrightarrow> digit m = digit n \<longleftrightarrow> m = n"
  by (auto simp: digit_def dest: arg_cong [where f = "of_char :: char \<Rightarrow> nat"])

lemma digit_not_underscore: "n < 10 \<Longrightarrow> digit n \<noteq> CHR ''_''"
proof
  assume "n < 10" and "digit n = CHR ''_''"
  then have "(of_char (char_of (48 + n) :: char) :: nat) = of_char (CHR ''_'')"
    by (simp add: digit_def)
  with \<open>n < 10\<close> show False by simp
qed

lemma decimal_not_Nil [simp]: "decimal n \<noteq> []"
  by (subst decimal.simps) simp

lemma decimal_chars: "CHR ''_'' \<notin> set (decimal n)"
proof (induction n rule: decimal.induct)
  case (1 n)
  show ?case
  proof (cases "n < 10")
    case True
    then show ?thesis using digit_not_underscore [of n] by (subst decimal.simps) simp
  next
    case False
    then show ?thesis using 1 digit_not_underscore [of "n mod 10"] by (subst decimal.simps) auto
  qed
qed

lemma decimal_inj: "decimal m = decimal n \<longleftrightarrow> m = n"
proof
  show "decimal m = decimal n \<Longrightarrow> m = n"
  proof (induction m arbitrary: n rule: decimal.induct)
    case (1 m)
    consider (small) "m < 10" "n < 10" | (large) "\<not> m < 10" "\<not> n < 10"
      | (mixed) "(m < 10) \<noteq> (n < 10)" by blast
    then show ?case
    proof cases
      case small
      with 1(2) show ?thesis by (simp add: decimal.simps [of m] decimal.simps [of n] digit_inj)
    next
      case large
      with 1(2) have "decimal (m div 10) = decimal (n div 10)" "digit (m mod 10) = digit (n mod 10)"
        by (simp_all add: decimal.simps [of m] decimal.simps [of n])
      then have "m div 10 = n div 10" "m mod 10 = n mod 10"
        using 1(1) large by (simp_all add: digit_inj)
      then show ?thesis by (metis div_mult_mod_eq)
    next
      case mixed
      with 1(2) show ?thesis
        by (auto simp: decimal.simps [of m] decimal.simps [of n] Cons_eq_append_conv append_eq_Cons_conv split: if_splits)
    qed
  qed
qed simp

text \<open>\<open>fmt.Sprintf("%s_%d", name, n)\<close> determines its arguments: the digits hold no underscore.\<close>

definition name_number :: "string \<Rightarrow> nat \<Rightarrow> string" where
  "name_number name n = name @ ''_'' @ decimal n"

lemma append_marker_inj:
  assumes "xs @ c # ys = xs' @ c # ys'" and "c \<notin> set ys" and "c \<notin> set ys'"
  shows "xs = xs' \<and> ys = ys'"
  using assms
proof (induction xs arbitrary: xs')
  case Nil
  then show ?case by (cases xs') auto
next
  case (Cons x xs)
  then show ?case by (cases xs') auto
qed

lemma name_number_inj: "name_number a m = name_number b n \<longleftrightarrow> a = b \<and> m = n"
  using append_marker_inj [of a "CHR ''_''" "decimal m" b "decimal n"] decimal_chars
  by (auto simp: name_number_def decimal_inj)

end
