(* ===== verification/Shared_Cache.thy ===== *)
theory Shared_Cache
  imports Go_Text RBAC_Domain
begin

text \<open>
  The cache that the components of one panel share: the interface and the options of
  \<open>internal/cache/cache.go\<close> and \<open>options.go\<close>, and the in-memory implementation \<open>inmemory.go\<close>.

  A cached value is a Go \<open>any\<close>; \<open>any\<close> has a constructor for each dynamic type the modelled clients
  store.  The single-use credentials are stored as JSON text, which \<open>AnyJSON\<close> keeps as the record
  it encodes; \<open>AnyString\<close> is text that is not a JSON object.  The two number types that only a
  backend with a JSON round trip returns hold integral values, the counters of the login limiter.
\<close>

section \<open>Values\<close>

type_synonym PATAbility = string

record ChallengePayload =
  Challenge_UserID :: uint
  Challenge_Login :: string
  Challenge_Email :: string
  Challenge_Remember :: bool
  Challenge_Attempts :: int
  Challenge_ExpiresAt :: int

record SSOTicketPayload =
  Ticket_UserID :: uint
  Ticket_Login :: string
  Ticket_IssuerID :: uint
  Ticket_IssuerPATID :: uint
  Ticket_RedirectTo :: string
  Ticket_ClientIP :: string
  Ticket_ExpiresAt :: int

record ShortLivedPayload =
  Short_UserID :: uint
  Short_Login :: string
  Short_Email :: string
  Short_PATID :: uint
  Short_Abilities :: "PATAbility list"

datatype payload = Challenge ChallengePayload | Ticket SSOTicketPayload | ShortLived ShortLivedPayload

datatype any =
    AnyInt int
  | AnyInt64 int
  | AnyFloat64 int
  | AnyNumber int
  | AnyBool bool
  | AnyString string
  | AnyJSON payload
  | AnyRoles "Role list"
  | AnyPermissions "Permission list"
  | AnyRestrictedRoles "RestrictedRole list"

section \<open>Options\<close>

record CacheOptions =
  CacheOptions_Expiration :: duration

type_synonym Option = "CacheOptions \<Rightarrow> CacheOptions"

definition ApplyOptions :: "Option list \<Rightarrow> CacheOptions" where
  "ApplyOptions opts = fold (\<lambda>opt o'. opt o') opts \<lparr>CacheOptions_Expiration = 0\<rparr>"

definition WithExpiration :: "duration \<Rightarrow> Option" where
  "WithExpiration expiration = (\<lambda>o'. o'\<lparr>CacheOptions_Expiration := expiration\<rparr>)"

lemma ApplyOptions_simps [simp]:
  "CacheOptions_Expiration (ApplyOptions []) = 0"
  "CacheOptions_Expiration (ApplyOptions [WithExpiration d]) = d"
  by (simp_all add: ApplyOptions_def WithExpiration_def)

section \<open>The interface\<close>

definition ErrNotFound :: error where
  "ErrNotFound = Errorf ''key not found''"

record 'c Cache =
  Cache_Get :: "time \<Rightarrow> string \<Rightarrow> 'c \<Rightarrow> any result"
  Cache_Set :: "time \<Rightarrow> string \<Rightarrow> any \<Rightarrow> Option list \<Rightarrow> 'c \<Rightarrow> error option \<times> 'c"
  Cache_Delete :: "string \<Rightarrow> 'c \<Rightarrow> error option \<times> 'c"
  Cache_Pull :: "time \<Rightarrow> string \<Rightarrow> 'c \<Rightarrow> any result \<times> 'c"
  Cache_Clear :: "'c \<Rightarrow> error option \<times> 'c"

section \<open>The in-memory cache\<close>

record item =
  item_value :: any
  item_expiration :: time

definition isExpired :: "time \<Rightarrow> item \<Rightarrow> bool" where
  "isExpired now itm = (if item_expiration itm = 0 then False else item_expiration itm < now)"

record InMemory =
  im_items :: "(string \<times> item) list"

definition NewInMemory :: InMemory where
  "NewInMemory = \<lparr>im_items = []\<rparr>"

definition InMemory_Get :: "time \<Rightarrow> string \<Rightarrow> InMemory \<Rightarrow> any result" where
  "InMemory_Get now key c =
     (case map_of (im_items c) key of
        None \<Rightarrow> Inl ErrNotFound
      | Some itm \<Rightarrow> if isExpired now itm then Inl ErrNotFound else Inr (item_value itm))"

definition InMemory_Pull :: "time \<Rightarrow> string \<Rightarrow> InMemory \<Rightarrow> any result \<times> InMemory" where
  "InMemory_Pull now key c =
     (case map_of (im_items c) key of
        None \<Rightarrow> (Inl ErrNotFound, c)
      | Some itm \<Rightarrow>
          let c' = c\<lparr>im_items := AList.delete key (im_items c)\<rparr>
          in if isExpired now itm then (Inl ErrNotFound, c') else (Inr (item_value itm), c'))"

definition InMemory_Set ::
    "time \<Rightarrow> string \<Rightarrow> any \<Rightarrow> Option list \<Rightarrow> InMemory \<Rightarrow> error option \<times> InMemory" where
  "InMemory_Set now key v options c =
     (let opts = ApplyOptions options;
          expiration = (if CacheOptions_Expiration opts > 0 then now + CacheOptions_Expiration opts else 0)
      in (None, c\<lparr>im_items := AList.update key \<lparr>item_value = v, item_expiration = expiration\<rparr>
                               (im_items c)\<rparr>))"

definition InMemory_Delete :: "string \<Rightarrow> InMemory \<Rightarrow> error option \<times> InMemory" where
  "InMemory_Delete key c = (None, c\<lparr>im_items := AList.delete key (im_items c)\<rparr>)"

definition InMemory_Clear :: "InMemory \<Rightarrow> error option \<times> InMemory" where
  "InMemory_Clear c = (None, c\<lparr>im_items := []\<rparr>)"

text \<open>One tick of the cleanup goroutine.\<close>

definition InMemory_cleanup :: "time \<Rightarrow> InMemory \<Rightarrow> InMemory" where
  "InMemory_cleanup now c = c\<lparr>im_items := delete_if (\<lambda>_ itm. isExpired now itm) (im_items c)\<rparr>"

definition inmemory_cache :: "InMemory Cache" where
  "inmemory_cache =
     \<lparr>Cache_Get = InMemory_Get, Cache_Set = InMemory_Set, Cache_Delete = InMemory_Delete,
      Cache_Pull = InMemory_Pull, Cache_Clear = InMemory_Clear\<rparr>"

section \<open>What a cache promises\<close>

text \<open>
  \<open>view c t k\<close> is what the cache holds under \<open>k\<close> at time \<open>t\<close>.  Entries only expire: what is held
  later is held earlier.  A written entry is held until its deadline, without a deadline for ever;
  every operation leaves the other keys alone.
\<close>

definition holds_until :: "time \<Rightarrow> duration \<Rightarrow> any \<Rightarrow> time \<Rightarrow> any option" where
  "holds_until now d v t = (if 0 < d \<and> now + d < t then None else Some v)"

text \<open>The writing operations as functions on caches, their error left out.\<close>

definition set_in :: "'c Cache \<Rightarrow> time \<Rightarrow> string \<Rightarrow> any \<Rightarrow> Option list \<Rightarrow> 'c \<Rightarrow> 'c" where
  "set_in C now k v opts c = snd (Cache_Set C now k v opts c)"

definition delete_in :: "'c Cache \<Rightarrow> string \<Rightarrow> 'c \<Rightarrow> 'c" where
  "delete_in C k c = snd (Cache_Delete C k c)"

definition clear_in :: "'c Cache \<Rightarrow> 'c \<Rightarrow> 'c" where
  "clear_in C c = snd (Cache_Clear C c)"

locale shared_cache =
  fixes C :: "'c Cache" and inv :: "'c \<Rightarrow> bool" and view :: "'c \<Rightarrow> time \<Rightarrow> string \<Rightarrow> any option"
  assumes get: "inv c \<Longrightarrow>
      Cache_Get C now k c = (case view c now k of None \<Rightarrow> Inl ErrNotFound | Some v \<Rightarrow> Inr v)"
    and set: "inv c \<Longrightarrow> 0 \<le> now \<Longrightarrow> \<exists>c'. Cache_Set C now k v opts c = (None, c') \<and> inv c' \<and>
      (\<forall>t. view c' t = (view c t)(k := holds_until now (CacheOptions_Expiration (ApplyOptions opts)) v t))"
    and delete: "inv c \<Longrightarrow> \<exists>c'. Cache_Delete C k c = (None, c') \<and> inv c' \<and>
      (\<forall>t. view c' t = (view c t)(k := None))"
    and pull: "inv c \<Longrightarrow> \<exists>c'. Cache_Pull C now k c =
        (case view c now k of None \<Rightarrow> Inl ErrNotFound | Some v \<Rightarrow> Inr v, c') \<and> inv c' \<and>
      (\<forall>t. view c' t = (view c t)(k := None))"
    and clear: "\<exists>c'. Cache_Clear C c = (None, c') \<and> inv c' \<and> (\<forall>t. view c' t = Map.empty)"
    and fades: "inv c \<Longrightarrow> now \<le> t \<Longrightarrow> view c t k = Some v \<Longrightarrow> view c now k = Some v"
begin

lemma Set_eq: "inv c \<Longrightarrow> 0 \<le> now \<Longrightarrow> Cache_Set C now k v opts c = (None, set_in C now k v opts c)"
  using set [of c now k v opts] by (auto simp: set_in_def)

lemma inv_set [simp]: "inv c \<Longrightarrow> 0 \<le> now \<Longrightarrow> inv (set_in C now k v opts c)"
  using set [of c now k v opts] by (auto simp: set_in_def)

lemma view_set: "inv c \<Longrightarrow> 0 \<le> now \<Longrightarrow> view (set_in C now k v opts c) t k' =
    (if k' = k then holds_until now (CacheOptions_Expiration (ApplyOptions opts)) v t else view c t k')"
  using set [of c now k v opts] by (auto simp: set_in_def)

lemma Delete_eq: "inv c \<Longrightarrow> Cache_Delete C k c = (None, delete_in C k c)"
  using delete [of c k] by (auto simp: delete_in_def)

lemma inv_delete [simp]: "inv c \<Longrightarrow> inv (delete_in C k c)"
  using delete [of c k] by (auto simp: delete_in_def)

lemma view_delete: "inv c \<Longrightarrow> view (delete_in C k c) t k' = (if k' = k then None else view c t k')"
  using delete [of c k] by (auto simp: delete_in_def)

lemma Clear_eq: "Cache_Clear C c = (None, clear_in C c)"
  using clear [of c] by (auto simp: clear_in_def)

lemma inv_clear [simp]: "inv (clear_in C c)"
  using clear [of c] by (auto simp: clear_in_def)

lemma view_clear [simp]: "view (clear_in C c) t k = None"
  using clear [of c] by (auto simp: clear_in_def)

lemma Pull_eq: "inv c \<Longrightarrow> Cache_Pull C now k c = (Cache_Get C now k c, snd (Cache_Pull C now k c))"
  using pull [of c now k] get [of c now k] by auto

lemma inv_pull: "inv c \<Longrightarrow> inv (snd (Cache_Pull C now k c))"
  using pull [of c now k] by auto

lemma view_pull: "inv c \<Longrightarrow> view (snd (Cache_Pull C now k c)) t k' = (if k' = k then None else view c t k')"
  using pull [of c now k] by auto

end

section \<open>The in-memory cache keeps the promise\<close>

definition im_wf :: "InMemory \<Rightarrow> bool" where
  "im_wf c \<longleftrightarrow> wf_map (im_items c)"

definition im_view :: "InMemory \<Rightarrow> time \<Rightarrow> string \<Rightarrow> any option" where
  "im_view c t k =
     (case map_of (im_items c) k of None \<Rightarrow> None
      | Some itm \<Rightarrow> if isExpired t itm then None else Some (item_value itm))"

lemma im_wf_new [simp]: "im_wf NewInMemory"
  by (simp add: im_wf_def NewInMemory_def)

lemma im_view_new [simp]: "im_view NewInMemory t k = None"
  by (simp add: im_view_def NewInMemory_def)

interpretation im: shared_cache inmemory_cache im_wf im_view
proof (unfold_locales, goal_cases)
  case (1 c now k)
  then show ?case by (auto simp: inmemory_cache_def InMemory_Get_def im_view_def split: option.split)
next
  case (2 c now k v opts)
  then show ?case
    by (auto simp: inmemory_cache_def InMemory_Set_def im_wf_def im_view_def fun_eq_iff holds_until_def
        isExpired_def map_of_update Let_def)
next
  case (3 c k)
  then show ?case
    by (auto simp: inmemory_cache_def InMemory_Delete_def im_wf_def im_view_def fun_eq_iff map_of_delete)
next
  case (4 c now k)
  then show ?case
    by (auto simp: inmemory_cache_def InMemory_Pull_def im_wf_def im_view_def fun_eq_iff map_of_delete
        Let_def split: option.split)
next
  case (5 c)
  then show ?case
    by (auto simp: inmemory_cache_def InMemory_Clear_def im_wf_def im_view_def)
next
  case (6 c now t k v)
  then show ?case
    by (auto simp: im_view_def isExpired_def split: option.splits if_splits)
qed

text \<open>A tick of the cleanup is not observable afterwards.\<close>

lemma cleanup_wf [simp]: "im_wf c \<Longrightarrow> im_wf (InMemory_cleanup now c)"
  by (simp add: InMemory_cleanup_def im_wf_def)

lemma cleanup_view:
  assumes "im_wf c" and "now \<le> t"
  shows "im_view (InMemory_cleanup now c) t k = im_view c t k"
  using assms
  by (auto simp: InMemory_cleanup_def im_view_def im_wf_def isExpired_def map_of_delete_if
      split: option.splits)

end
