(* ===== verification/User_Repository.thy ===== *)
theory User_Repository
  imports Repo_Filters
begin

text \<open>
  Accounts: the user of \<open>internal/domain/user.go\<close> with the accessors of \<open>user_mfa.go\<close> and \<open>user_password.go\<close>, the in-memory
  repository \<open>internal/repositories/inmemory/users.go\<close> and the service
  \<open>internal/services/user.go\<close> that folds the case of logins and emails in front of it.

  The metadata bag of a user is modelled by the three entries the panel itself writes, which are
  stored with a precision of one second.  Logins and emails are ASCII text; \<open>strings.ToLower\<close> on it
  is \<open>ToLower\<close>.
\<close>

section \<open>Users\<close>

record User =
  User_ID :: uint
  User_Login :: string
  User_Email :: string
  User_Password :: string
  User_RememberToken :: "string option"
  User_Name :: "string option"
  User_CreatedAt :: "time option"
  User_UpdatedAt :: "time option"
  User_TwoFactorEnabled :: bool
  User_TwoFactorSecret :: "string option"
  User_TwoFactorRecoveryCodes :: "(string \<times> bool) list option"
  User_TwoFactorLastUsedStep :: "int option"
  User_mfa_first_shown_at :: "time option"
  User_mfa_snoozed_until :: "time option"
  User_password_changed_at :: "time option"

definition second :: duration where "second = 1000000000"

text \<open>\<open>t.UTC().Format(time.RFC3339)\<close> read back: the fraction of a second is dropped.\<close>

definition setMetadataTime :: "time option \<Rightarrow> time option" where
  "setMetadataTime t = map_option (\<lambda>x. x div second * second) t"

definition MFAFirstShownAt :: "User \<Rightarrow> time option" where
  "MFAFirstShownAt u = User_mfa_first_shown_at u"

definition SetMFAFirstShownAt :: "time option \<Rightarrow> User \<Rightarrow> User" where
  "SetMFAFirstShownAt t u = u\<lparr>User_mfa_first_shown_at := setMetadataTime t\<rparr>"

definition MFASnoozedUntil :: "User \<Rightarrow> time option" where
  "MFASnoozedUntil u = User_mfa_snoozed_until u"

definition SetMFASnoozedUntil :: "time option \<Rightarrow> User \<Rightarrow> User" where
  "SetMFASnoozedUntil t u = u\<lparr>User_mfa_snoozed_until := setMetadataTime t\<rparr>"

definition PasswordChangedAt :: "User \<Rightarrow> time option" where
  "PasswordChangedAt u = User_password_changed_at u"

definition SetPasswordChangedAt :: "time option \<Rightarrow> User \<Rightarrow> User" where
  "SetPasswordChangedAt t u = u\<lparr>User_password_changed_at := setMetadataTime t\<rparr>"

section \<open>Filters\<close>

record FindUser =
  FindUser_IDs :: "uint list"
  FindUser_Logins :: "string list"
  FindUser_Emails :: "string list"

definition FindUserByIDs :: "uint list \<Rightarrow> FindUser" where
  "FindUserByIDs ids = \<lparr>FindUser_IDs = ids, FindUser_Logins = [], FindUser_Emails = []\<rparr>"

definition FindUser_FilterCount :: "FindUser \<Rightarrow> nat" where
  "FindUser_FilterCount f =
     (if FindUser_IDs f \<noteq> [] then 1 else 0) + (if FindUser_Logins f \<noteq> [] then 1 else 0) +
     (if FindUser_Emails f \<noteq> [] then 1 else 0)"

section \<open>The interface\<close>

record 'u Users =
  Users_FindAll :: "Sorting list \<Rightarrow> Pagination option \<Rightarrow> 'u \<Rightarrow> User list result"
  Users_Find :: "FindUser option \<Rightarrow> Sorting list \<Rightarrow> Pagination option \<Rightarrow> 'u \<Rightarrow> User list result"
  Users_Save :: "time \<Rightarrow> User \<Rightarrow> 'u \<Rightarrow> error option \<times> User \<times> 'u"
  Users_Delete :: "uint \<Rightarrow> 'u \<Rightarrow> error option \<times> 'u"

section \<open>The in-memory repository\<close>

record UserRepository =
  ur_users :: "(uint \<times> User) list"
  ur_nextID :: uint32

definition NewUserRepository :: UserRepository where
  "NewUserRepository = \<lparr>ur_users = [], ur_nextID = 0\<rparr>"

definition compareUsers :: "User \<Rightarrow> User \<Rightarrow> string \<Rightarrow> int" where
  "compareUsers a b field =
     (if field = ''id'' then cmp_Compare (User_ID a) (User_ID b)
      else if field = ''login'' then strings_Compare (User_Login a) (User_Login b)
      else if field = ''email'' then strings_Compare (User_Email a) (User_Email b)
      else if field = ''name'' then compare_option strings_Compare (User_Name a) (User_Name b)
      else if field = ''created_at'' then compare_option cmp_Compare (User_CreatedAt a) (User_CreatedAt b)
      else if field = ''updated_at'' then compare_option cmp_Compare (User_UpdatedAt a) (User_UpdatedAt b)
      else 0)"

definition sortUsers :: "User list \<Rightarrow> Sorting list \<Rightarrow> User list" where
  "sortUsers users order =
     sort_slice (if order = [] then (\<lambda>a b. User_ID a < User_ID b) else sorting_less compareUsers order) users"

definition UserRepository_FindAll :: "Sorting list \<Rightarrow> Pagination option \<Rightarrow> UserRepository \<Rightarrow> User list result" where
  "UserRepository_FindAll order pagination r =
     applyPagination pagination (sortUsers (map snd (ur_users r)) order)"

definition user_matches :: "FindUser \<Rightarrow> User \<Rightarrow> bool" where
  "user_matches f u \<longleftrightarrow>
     (FindUser_IDs f = [] \<or> List.member (FindUser_IDs f) (User_ID u)) \<and>
     (FindUser_Logins f = [] \<or> List.member (FindUser_Logins f) (User_Login u)) \<and>
     (FindUser_Emails f = [] \<or> List.member (FindUser_Emails f) (User_Email u))"

definition UserRepository_Find ::
    "FindUser option \<Rightarrow> Sorting list \<Rightarrow> Pagination option \<Rightarrow> UserRepository \<Rightarrow> User list result" where
  "UserRepository_Find f order pagination r =
     (let f' = (case f of None \<Rightarrow> FindUserByIDs [] | Some f' \<Rightarrow> f')
      in applyPagination pagination (sortUsers (filter (user_matches f') (map snd (ur_users r))) order))"

text \<open>The stored record is a copy of the caller's record, which the save has updated.\<close>

definition UserRepository_Save :: "time \<Rightarrow> User \<Rightarrow> UserRepository \<Rightarrow> error option \<times> User \<times> UserRepository" where
  "UserRepository_Save now user r =
     (let u1 = user\<lparr>User_UpdatedAt := Some now\<rparr>;
          u2 = (if User_ID u1 = 0 \<and> (User_CreatedAt u1 = None \<or> User_CreatedAt u1 = Some 0)
                then u1\<lparr>User_CreatedAt := Some now\<rparr> else u1);
          next = ur_nextID r + 1;
          u3 = (if User_ID u2 = 0 then u2\<lparr>User_ID := id_of_counter next\<rparr> else u2);
          r' = (if User_ID u2 = 0 then r\<lparr>ur_nextID := next\<rparr> else r)
      in (None, u3, r'\<lparr>ur_users := AList.update (User_ID u3) u3 (ur_users r')\<rparr>))"

definition UserRepository_Delete :: "uint \<Rightarrow> UserRepository \<Rightarrow> error option \<times> UserRepository" where
  "UserRepository_Delete i r = (None, r\<lparr>ur_users := AList.delete i (ur_users r)\<rparr>)"

definition inmemory_users :: "UserRepository Users" where
  "inmemory_users =
     \<lparr>Users_FindAll = UserRepository_FindAll, Users_Find = UserRepository_Find,
      Users_Save = UserRepository_Save, Users_Delete = UserRepository_Delete\<rparr>"

section \<open>The service\<close>

definition lower_char :: "char \<Rightarrow> char" where
  "lower_char c = (if 65 \<le> (of_char c :: nat) \<and> (of_char c :: nat) \<le> 90 then char_of (of_char c + 32 :: nat) else c)"

definition ToLower :: "string \<Rightarrow> string" where
  "ToLower s = map lower_char s"

definition UserService_Find ::
    "'u Users \<Rightarrow> FindUser option \<Rightarrow> Sorting list \<Rightarrow> Pagination option \<Rightarrow> 'u \<Rightarrow> User list result" where
  "UserService_Find repo f order pagination s =
     Users_Find repo
       (map_option (\<lambda>f. f\<lparr>FindUser_Logins := map ToLower (FindUser_Logins f),
                          FindUser_Emails := map ToLower (FindUser_Emails f)\<rparr>) f)
       order pagination s"

definition UserService_Save :: "'u Users \<Rightarrow> time \<Rightarrow> User \<Rightarrow> 'u \<Rightarrow> error option \<times> User \<times> 'u" where
  "UserService_Save repo now user s =
     (let u1 = user\<lparr>User_Login := ToLower (User_Login user), User_Email := ToLower (User_Email user)\<rparr>;
          u2 = (if User_CreatedAt u1 = None \<or> User_CreatedAt u1 = Some 0
                then u1\<lparr>User_CreatedAt := Some now\<rparr> else u1);
          u3 = u2\<lparr>User_UpdatedAt := Some now\<rparr>
      in Users_Save repo now u3 s)"

text \<open>The service implements the interface it is built on.\<close>

definition UserService :: "'u Users \<Rightarrow> 'u Users" where
  "UserService repo =
     \<lparr>Users_FindAll = Users_FindAll repo, Users_Find = UserService_Find repo,
      Users_Save = UserService_Save repo, Users_Delete = Users_Delete repo\<rparr>"

section \<open>What the sign-in code relies on\<close>

definition one_user :: "Pagination option" where
  "one_user = Some \<lparr>Pagination_Limit = 1, Pagination_Offset = 0\<rparr>"

text \<open>The fields that authentication reads and writes.\<close>

definition same_account :: "User \<Rightarrow> User \<Rightarrow> bool" where
  "same_account u v \<longleftrightarrow>
     User_ID u = User_ID v \<and> User_Password u = User_Password v \<and>
     User_TwoFactorEnabled u = User_TwoFactorEnabled v \<and> User_TwoFactorSecret u = User_TwoFactorSecret v \<and>
     User_TwoFactorRecoveryCodes u = User_TwoFactorRecoveryCodes v \<and>
     User_TwoFactorLastUsedStep u = User_TwoFactorLastUsedStep v"

locale user_store =
  fixes U :: "'u Users" and inv :: "'u \<Rightarrow> bool" and user_of :: "'u \<Rightarrow> uint \<Rightarrow> User option"
  assumes find_id: "inv s \<Longrightarrow> Users_Find U (Some (FindUserByIDs [i])) [] one_user s =
      Inr (case user_of s i of None \<Rightarrow> [] | Some u \<Rightarrow> [u])"
    and id_of: "inv s \<Longrightarrow> user_of s i = Some u \<Longrightarrow> User_ID u = i"
    and save: "inv s \<Longrightarrow> user_of s (User_ID u) \<noteq> None \<Longrightarrow> User_ID u \<noteq> 0 \<Longrightarrow>
      \<exists>u' s'. Users_Save U now u s = (None, u', s') \<and> inv s' \<and> same_account u' u \<and>
        user_of s' = (user_of s)(User_ID u \<mapsto> u')"

section \<open>The in-memory repository and the service keep the promise\<close>

definition ur_wf :: "UserRepository \<Rightarrow> bool" where
  "ur_wf r \<longleftrightarrow> wf_map (ur_users r) \<and>
     (\<forall>(k, u) \<in> set (ur_users r). User_ID u = k \<and> 0 < unat k \<and> unat k \<le> unat (ur_nextID r))"

definition user_in :: "UserRepository \<Rightarrow> uint \<Rightarrow> User option" where
  "user_in r = map_of (ur_users r)"

lemma Find_id:
  assumes "ur_wf r"
  shows "UserRepository_Find (Some (FindUserByIDs [i])) [] one_user r =
    Inr (case user_in r i of None \<Rightarrow> [] | Some u \<Rightarrow> [u])"
proof -
  have "user_matches (FindUserByIDs [i]) = (\<lambda>u. User_ID u = i)"
    by (auto simp: user_matches_def FindUserByIDs_def fun_eq_iff)
  then show ?thesis
    using filter_key [of "ur_users r" User_ID i] assms
    by (simp add: UserRepository_Find_def sortUsers_def one_user_def user_in_def ur_wf_def applyPagination_one case_prod_beta
        split: option.split)
qed

lemma Save_existing:
  assumes "ur_wf r" and "user_in r (User_ID u) \<noteq> None"
  shows "\<exists>u' r'. UserRepository_Save now u r = (None, u', r') \<and> ur_wf r' \<and> same_account u' u \<and>
    user_in r' = (user_in r)(User_ID u \<mapsto> u')"
proof -
  have "0 < unat (User_ID u) \<and> unat (User_ID u) \<le> unat (ur_nextID r)"
    using assms by (auto simp: ur_wf_def user_in_def dest!: map_of_SomeD)
  then show ?thesis
    using assms
    by (auto simp: UserRepository_Save_def Let_def ur_wf_def same_account_def user_in_def dest!: set_alist_update)
qed

interpretation mem_users: user_store inmemory_users ur_wf user_in
proof (unfold_locales, goal_cases)
  case (1 s i)
  then show ?case using Find_id by (simp add: inmemory_users_def)
next
  case (2 s i u)
  then show ?case by (auto simp: user_in_def ur_wf_def dest: map_of_SomeD)
next
  case (3 s u now)
  then show ?case using Save_existing by (simp add: inmemory_users_def)
qed

text \<open>The service passes the contract of the repository on.\<close>

lemma service_store:
  assumes "user_store U ok user_of"
  shows "user_store (UserService U) ok user_of"
proof -
  have find: "UserService_Find U (Some (FindUserByIDs [i])) order page = Users_Find U (Some (FindUserByIDs [i])) order page"
    for i order page by (simp add: fun_eq_iff UserService_Find_def FindUserByIDs_def)
  show ?thesis
  proof (unfold_locales, goal_cases)
    case (1 s i)
    then show ?case using user_store.find_id [OF assms] by (simp add: UserService_def find)
  next
    case (2 s i u)
    then show ?case by (rule user_store.id_of [OF assms])
  next
    case (3 s u now)
    let ?u1 = "u\<lparr>User_Login := ToLower (User_Login u), User_Email := ToLower (User_Email u)\<rparr>"
    let ?u = "(if User_CreatedAt ?u1 = None \<or> User_CreatedAt ?u1 = Some 0 then ?u1\<lparr>User_CreatedAt := Some now\<rparr> else ?u1)
      \<lparr>User_UpdatedAt := Some now\<rparr>"
    have u: "User_ID ?u = User_ID u" by simp
    obtain u' s' where r: "Users_Save U now ?u s = (None, u', s')" "ok s'" "same_account u' ?u"
        "user_of s' = (user_of s)(User_ID u \<mapsto> u')"
      using user_store.save [OF assms, of s ?u now] 3 u by auto
    moreover have "same_account u' u"
      using r(3) by (cases "User_CreatedAt u = None \<or> User_CreatedAt u = Some 0") (auto simp: same_account_def)
    ultimately show ?case by (simp add: UserService_def UserService_Save_def Let_def)
  qed
qed

interpretation svc_users: user_store "UserService inmemory_users" ur_wf user_in
  by (rule service_store [OF mem_users.user_store_axioms])

end
