(* ===== verification/Credentials.thy ===== *)
theory Credentials
  imports Shared_Cache User_Repository
begin

text \<open>
  What signing in checks: passwords (\<open>pkg/auth/password.go\<close>), one-time codes and recovery codes
  (\<open>pkg/twofactor\<close>: \<open>totp.go\<close>, \<open>recovery.go\<close>, \<open>challenge.go\<close>), the tokens that live in the cache
  (\<open>pkg/auth/shortlived.go\<close>, \<open>ssoticket.go\<close>) and the policy that asks administrators for a second
  factor (\<open>internal/services/mfanudge\<close>).

  The cryptography is a record of parameters: bcrypt, the SHA-256 of \<open>pkgstrings.SHA256\<close> and of
  \<open>preHash\<close>, the AES-GCM cipher of the stored secrets and the TOTP generator.
\<close>

record Crypto =
  cr_bcrypt_Compare :: "string \<Rightarrow> string \<Rightarrow> bool"
  cr_bcrypt_Generate :: "string \<Rightarrow> int \<Rightarrow> string result"
  cr_bcrypt_Cost :: "string \<Rightarrow> int result"
  cr_preHash :: "string \<Rightarrow> string"
  cr_SHA256 :: "string \<Rightarrow> string"
  cr_Decrypt :: "string \<Rightarrow> string result"
  cr_GenerateCode :: "string \<Rightarrow> int \<Rightarrow> string result"

section \<open>Passwords\<close>

definition DefaultBcryptCost :: int where "DefaultBcryptCost = 10"
definition MinBcryptCost :: int where "MinBcryptCost = 10"
definition MaxBcryptCost :: int where "MaxBcryptCost = 14"
definition legacyBcryptMaxBytes :: nat where "legacyBcryptMaxBytes = 72"

definition SetDefaultBcryptCost :: "int \<Rightarrow> int \<Rightarrow> error option \<times> int" where
  "SetDefaultBcryptCost cost activeCost =
     (if cost < MinBcryptCost \<or> cost > MaxBcryptCost then (Some (Errorf ''bcrypt cost outside''), activeCost)
      else (None, cost))"

definition ActiveBcryptCost :: "int \<Rightarrow> int" where
  "ActiveBcryptCost activeCost = (if activeCost \<noteq> 0 then activeCost else DefaultBcryptCost)"

definition HashPasswordWithCost :: "Crypto \<Rightarrow> string \<Rightarrow> int \<Rightarrow> string result" where
  "HashPasswordWithCost cr password cost =
     with_message ''failed to hash password'' (cr_bcrypt_Generate cr (cr_preHash cr password) cost)"

definition HashPassword :: "Crypto \<Rightarrow> int \<Rightarrow> string \<Rightarrow> string result" where
  "HashPassword cr activeCost password = HashPasswordWithCost cr password (ActiveBcryptCost activeCost)"

definition VerifyPassword :: "Crypto \<Rightarrow> string \<Rightarrow> string \<Rightarrow> bool result" where
  "VerifyPassword cr hashedPassword password =
     (if cr_bcrypt_Compare cr hashedPassword (cr_preHash cr password) then Inr False
      else if length password \<le> legacyBcryptMaxBytes \<and> cr_bcrypt_Compare cr hashedPassword password then Inr True
      else Inl (Errorf ''password verification failed''))"

section \<open>One-time codes\<close>

text \<open>Unix seconds of a time: the epoch is 62135596800 seconds after Go's zero time.\<close>

definition Unix :: "time \<Rightarrow> int" where
  "Unix t = t div second - 62135596800"

definition totpPeriod :: int where "totpPeriod = 30"
definition totpSkew :: int where "totpSkew = 1"

fun totp_scan :: "Crypto \<Rightarrow> string \<Rightarrow> string \<Rightarrow> int option \<Rightarrow> int list \<Rightarrow> (bool \<times> int) result" where
  "totp_scan cr secret code lastStep [] = Inr (False, 0)"
| "totp_scan cr secret code lastStep (step # steps) =
     (if step < 0 then totp_scan cr secret code lastStep steps
      else if (case lastStep of None \<Rightarrow> False | Some l \<Rightarrow> step \<le> l) then totp_scan cr secret code lastStep steps
      else case cr_GenerateCode cr secret step of
             Inl e \<Rightarrow> Inl (WithMessage e ''failed to generate expected totp code'')
           | Inr expected \<Rightarrow>
               if expected = code then Inr (True, step) else totp_scan cr secret code lastStep steps)"

definition ValidateTOTP :: "Crypto \<Rightarrow> time \<Rightarrow> string \<Rightarrow> string \<Rightarrow> int option \<Rightarrow> (bool \<times> int) result" where
  "ValidateTOTP cr now encryptedSecret code lastStep =
     (case cr_Decrypt cr encryptedSecret of
        Inl e \<Rightarrow> Inl (WithMessage e ''failed to decrypt totp secret'')
      | Inr secret \<Rightarrow>
          let currentStep = Unix now div totpPeriod
          in totp_scan cr secret code lastStep [currentStep - totpSkew .. currentStep + totpSkew])"

section \<open>Recovery codes\<close>

definition normalizeRecoveryInput :: "string \<Rightarrow> string" where
  "normalizeRecoveryInput s =
     filter (\<lambda>r. (97 \<le> (of_char r :: nat) \<and> (of_char r :: nat) \<le> 122) \<or>
                 (48 \<le> (of_char r :: nat) \<and> (of_char r :: nat) \<le> 57)) (ToLower s)"

fun spend_code :: "Crypto \<Rightarrow> string \<Rightarrow> (string \<times> bool) list \<Rightarrow> (string \<times> bool) list option" where
  "spend_code cr input [] = None"
| "spend_code cr input ((hash, used) # codes) =
     (if \<not> used \<and> cr_bcrypt_Compare cr hash input then Some ((hash, True) # codes)
      else map_option (\<lambda>cs. (hash, used) # cs) (spend_code cr input codes))"

definition ConsumeRecoveryCode :: "Crypto \<Rightarrow> (string \<times> bool) list \<Rightarrow> string \<Rightarrow> (string \<times> bool) list \<times> bool" where
  "ConsumeRecoveryCode cr codes input =
     (let normalized = normalizeRecoveryInput input
      in if normalized = '''' then (codes, False)
         else case spend_code cr normalized codes of None \<Rightarrow> (codes, False) | Some updated \<Rightarrow> (updated, True))"

section \<open>Tokens kept in the cache\<close>

definition ChallengeTokenPrefix :: string where "ChallengeTokenPrefix = ''g2fa_''"
definition challengeCacheKeyPrefix :: string where "challengeCacheKeyPrefix = ''auth:2fa-challenge:''"
definition ShortLivedTokenPrefix :: string where "ShortLivedTokenPrefix = ''glst_''"
definition shortLivedCacheKeyPrefix :: string where "shortLivedCacheKeyPrefix = ''auth:shorttoken:''"
definition SSOTicketPrefix :: string where "SSOTicketPrefix = ''glsso_''"
definition ssoTicketCacheKeyPrefix :: string where "ssoTicketCacheKeyPrefix = ''auth:sso-ticket:''"

definition IsChallengeToken :: "string \<Rightarrow> bool" where
  "IsChallengeToken token = prefix ChallengeTokenPrefix token"
definition ChallengeCacheKey :: "Crypto \<Rightarrow> string \<Rightarrow> string" where
  "ChallengeCacheKey cr token = challengeCacheKeyPrefix @ cr_SHA256 cr (TrimPrefix token ChallengeTokenPrefix)"
definition IsShortLivedToken :: "string \<Rightarrow> bool" where
  "IsShortLivedToken token = prefix ShortLivedTokenPrefix token"
definition ShortLivedCacheKey :: "Crypto \<Rightarrow> string \<Rightarrow> string" where
  "ShortLivedCacheKey cr token = shortLivedCacheKeyPrefix @ cr_SHA256 cr (TrimPrefix token ShortLivedTokenPrefix)"
definition IsSSOTicket :: "string \<Rightarrow> bool" where
  "IsSSOTicket ticket = prefix SSOTicketPrefix ticket"
definition SSOTicketCacheKey :: "Crypto \<Rightarrow> string \<Rightarrow> string" where
  "SSOTicketCacheKey cr ticket = ssoTicketCacheKeyPrefix @ cr_SHA256 cr (TrimPrefix ticket SSOTicketPrefix)"

text \<open>
  The payloads share the names of their JSON fields, so the text of one decodes as another with the
  missing fields at their zero values.
\<close>

definition UnmarshalChallengePayload :: "any \<Rightarrow> ChallengePayload result" where
  "UnmarshalChallengePayload raw =
     (case raw of
        AnyJSON (Challenge p) \<Rightarrow> Inr p
      | AnyJSON (Ticket p) \<Rightarrow> Inr \<lparr>Challenge_UserID = Ticket_UserID p, Challenge_Login = Ticket_Login p,
          Challenge_Email = '''', Challenge_Remember = False, Challenge_Attempts = 0, Challenge_ExpiresAt = Ticket_ExpiresAt p\<rparr>
      | AnyJSON (ShortLived p) \<Rightarrow> Inr \<lparr>Challenge_UserID = Short_UserID p, Challenge_Login = Short_Login p,
          Challenge_Email = Short_Email p, Challenge_Remember = False, Challenge_Attempts = 0, Challenge_ExpiresAt = 0\<rparr>
      | AnyString _ \<Rightarrow> Inl (Errorf ''failed to unmarshal 2fa challenge payload'')
      | _ \<Rightarrow> Inl (Errorf ''unexpected 2fa challenge payload type''))"

definition UnmarshalShortLivedPayload :: "any \<Rightarrow> ShortLivedPayload result" where
  "UnmarshalShortLivedPayload raw =
     (case raw of
        AnyJSON (ShortLived p) \<Rightarrow> Inr p
      | AnyJSON (Challenge p) \<Rightarrow> Inr \<lparr>Short_UserID = Challenge_UserID p, Short_Login = Challenge_Login p,
          Short_Email = Challenge_Email p, Short_PATID = 0, Short_Abilities = []\<rparr>
      | AnyJSON (Ticket p) \<Rightarrow> Inr \<lparr>Short_UserID = Ticket_UserID p, Short_Login = Ticket_Login p,
          Short_Email = '''', Short_PATID = 0, Short_Abilities = []\<rparr>
      | AnyString _ \<Rightarrow> Inl (Errorf ''failed to unmarshal short-lived token payload'')
      | _ \<Rightarrow> Inl (Errorf ''unexpected short-lived token payload type''))"

definition UnmarshalSSOTicketPayload :: "any \<Rightarrow> SSOTicketPayload result" where
  "UnmarshalSSOTicketPayload raw =
     (case raw of
        AnyJSON (Ticket p) \<Rightarrow> Inr p
      | AnyJSON (Challenge p) \<Rightarrow> Inr \<lparr>Ticket_UserID = Challenge_UserID p, Ticket_Login = Challenge_Login p,
          Ticket_IssuerID = 0, Ticket_IssuerPATID = 0, Ticket_RedirectTo = '''', Ticket_ClientIP = '''',
          Ticket_ExpiresAt = Challenge_ExpiresAt p\<rparr>
      | AnyJSON (ShortLived p) \<Rightarrow> Inr \<lparr>Ticket_UserID = Short_UserID p, Ticket_Login = Short_Login p,
          Ticket_IssuerID = 0, Ticket_IssuerPATID = 0, Ticket_RedirectTo = '''', Ticket_ClientIP = '''',
          Ticket_ExpiresAt = 0\<rparr>
      | AnyString _ \<Rightarrow> Inl (Errorf ''failed to unmarshal sso ticket payload'')
      | _ \<Rightarrow> Inl (Errorf ''unexpected sso ticket payload type''))"

section \<open>The second-factor policy for administrators\<close>

record Snapshot =
  snap_TwoFactorEnabled :: bool
  snap_IsAdmin :: bool
  snap_FirstShownAt :: "time option"
  snap_SnoozedUntil :: "time option"

record Recommendation =
  rec_NudgeRequired :: bool
  rec_ShowNow :: bool
  rec_HardFailActive :: bool
  rec_FirstShownAt :: time
  rec_HardFailAt :: time
  rec_DaysRemaining :: int
  rec_PersistFirstShown :: bool

definition no_recommendation :: Recommendation where
  "no_recommendation = \<lparr>rec_NudgeRequired = False, rec_ShowNow = False, rec_HardFailActive = False,
     rec_FirstShownAt = 0, rec_HardFailAt = 0, rec_DaysRemaining = 0, rec_PersistFirstShown = False\<rparr>"

record NudgeConfig =
  nc_RequireMFAForAdmins :: bool
  nc_MFAHardFailDays :: int

definition day :: duration where "day = 24 * 3600 * second"

text \<open>A product of durations wraps at 64 bits.\<close>

definition int64 :: "int \<Rightarrow> int" where
  "int64 n = (n + 2 ^ 63) mod 2 ^ 64 - 2 ^ 63"

definition Compute :: "NudgeConfig \<Rightarrow> time \<Rightarrow> Snapshot \<Rightarrow> Recommendation" where
  "Compute cfg now snap =
     (if \<not> nc_RequireMFAForAdmins cfg \<or> \<not> snap_IsAdmin snap \<or> snap_TwoFactorEnabled snap then no_recommendation
      else
        let r1 = no_recommendation\<lparr>rec_NudgeRequired := True\<rparr>;
            r2 = (case snap_FirstShownAt snap of
                    None \<Rightarrow> r1\<lparr>rec_FirstShownAt := now, rec_PersistFirstShown := True\<rparr>
                  | Some t \<Rightarrow> r1\<lparr>rec_FirstShownAt := t\<rparr>);
            r3 = (if nc_MFAHardFailDays cfg > 0 then
                    let hardFailAt = rec_FirstShownAt r2 + int64 (nc_MFAHardFailDays cfg * day);
                        remaining = hardFailAt - now
                    in if remaining \<le> 0
                       then r2\<lparr>rec_HardFailAt := hardFailAt, rec_HardFailActive := True, rec_DaysRemaining := 0\<rparr>
                       else r2\<lparr>rec_HardFailAt := hardFailAt, rec_DaysRemaining := (remaining + day - 1) div day\<rparr>
                  else r2)
        in r3\<lparr>rec_ShowNow := rec_HardFailActive r3 \<or>
                (case snap_SnoozedUntil snap of None \<Rightarrow> True | Some t \<Rightarrow> t \<le> now)\<rparr>)"

record View =
  view_Required :: bool
  view_ShowNow :: bool
  view_HardFail :: bool
  view_DaysRemaining :: int
  view_HardFailAt :: "time option"

definition NewView :: "Recommendation \<Rightarrow> View option" where
  "NewView r =
     (if \<not> rec_NudgeRequired r then None
      else Some \<lparr>view_Required = rec_NudgeRequired r, view_ShowNow = rec_ShowNow r,
                 view_HardFail = rec_HardFailActive r, view_DaysRemaining = rec_DaysRemaining r,
                 view_HardFailAt = (if rec_HardFailAt r = 0 then None else Some (rec_HardFailAt r))\<rparr>)"

section \<open>Facts\<close>

lemma totp_scan_step:
  assumes "totp_scan cr secret code lastStep steps = Inr (True, step)"
  shows "step \<in> set steps \<and> 0 \<le> step \<and> (\<forall>l. lastStep = Some l \<longrightarrow> l < step) \<and> cr_GenerateCode cr secret step = Inr code"
  using assms by (induction steps) (auto split: if_splits option.splits sum.splits)

lemma ValidateTOTP_step:
  assumes "ValidateTOTP cr now enc code lastStep = Inr (True, step)"
  shows "\<bar>step - Unix now div totpPeriod\<bar> \<le> totpSkew \<and> (\<forall>l. lastStep = Some l \<longrightarrow> l < step)"
  using assms
  by (auto simp: ValidateTOTP_def Let_def split: sum.splits dest!: totp_scan_step)

lemma spend_code_spends:
  "spend_code cr input codes = Some codes' \<Longrightarrow>
    \<exists>i < length codes. \<not> snd (codes ! i) \<and> codes' = codes[i := (fst (codes ! i), True)] \<and>
      cr_bcrypt_Compare cr (fst (codes ! i)) input"
proof (induction codes arbitrary: codes')
  case (Cons p codes)
  obtain h u where p: "p = (h, u)" by (cases p)
  show ?case
  proof (cases "\<not> u \<and> cr_bcrypt_Compare cr h input")
    case True
    then show ?thesis using Cons.prems p by (intro exI [of _ 0]) auto
  next
    case False
    then obtain cs where cs: "spend_code cr input codes = Some cs" "codes' = p # cs"
      using Cons.prems p by auto
    then obtain i where "i < length codes" "\<not> snd (codes ! i)" "cs = codes[i := (fst (codes ! i), True)]"
        "cr_bcrypt_Compare cr (fst (codes ! i)) input"
      using Cons.IH by blast
    then show ?thesis using cs by (intro exI [of _ "Suc i"]) auto
  qed
qed simp

text \<open>The prefixes keep the kinds of tokens apart.\<close>

lemma token_kinds_differ:
  "\<not> (IsChallengeToken t \<and> IsShortLivedToken t)" "\<not> (IsChallengeToken t \<and> IsSSOTicket t)"
  "\<not> (IsShortLivedToken t \<and> IsSSOTicket t)"
  by (auto simp: IsChallengeToken_def IsShortLivedToken_def IsSSOTicket_def ChallengeTokenPrefix_def
      ShortLivedTokenPrefix_def SSOTicketPrefix_def prefix_def)

lemma token_keys_differ:
  "ChallengeCacheKey cr s \<noteq> ShortLivedCacheKey cr t" "ChallengeCacheKey cr s \<noteq> SSOTicketCacheKey cr t"
  "ShortLivedCacheKey cr s \<noteq> SSOTicketCacheKey cr t"
  by (simp_all add: ChallengeCacheKey_def ShortLivedCacheKey_def SSOTicketCacheKey_def challengeCacheKeyPrefix_def
      shortLivedCacheKeyPrefix_def ssoTicketCacheKeyPrefix_def)

end
