(* ===== verification/Access_Tokens.thy ===== *)
theory Access_Tokens
  imports Credentials
begin

text \<open>
  Personal access tokens and sessions: the token and its abilities (\<open>internal/domain/auth.go\<close>), the
  filter \<open>internal/filters/personal_access_tokens.go\<close>, the in-memory repository
  \<open>internal/repositories/inmemory/personal_access_tokens.go\<close>, the session of \<open>pkg/auth/context.go\<close> and
  the denylist of revoked tokens (\<open>pkg/auth/revocation.go\<close>, \<open>revocation_cache.go\<close>).

  The random identifier of a session, which only the audit log reads, is left out.
\<close>

section \<open>Tokens and their abilities\<close>

definition PATAbilityServerCreate :: PATAbility where "PATAbilityServerCreate = ''admin:server:create''"
definition PATAbilityGDaemonTaskRead :: PATAbility where "PATAbilityGDaemonTaskRead = ''admin:gdaemon-task:read''"
definition PATAbilityUserRead :: PATAbility where "PATAbilityUserRead = ''admin:user:read''"
definition PATAbilityUserManage :: PATAbility where "PATAbilityUserManage = ''admin:user:manage''"
definition PATAbilityNodeRead :: PATAbility where "PATAbilityNodeRead = ''admin:node:read''"
definition PATAbilityGameRead :: PATAbility where "PATAbilityGameRead = ''admin:game:read''"
definition PATAbilitySSOIssue :: PATAbility where "PATAbilitySSOIssue = ''admin:user:sso''"

definition PATAbilityServerList :: PATAbility where "PATAbilityServerList = ''server:list''"
definition PATAbilityServerStart :: PATAbility where "PATAbilityServerStart = ''server:start''"
definition PATAbilityServerStop :: PATAbility where "PATAbilityServerStop = ''server:stop''"
definition PATAbilityServerRestart :: PATAbility where "PATAbilityServerRestart = ''server:restart''"
definition PATAbilityServerUpdate :: PATAbility where "PATAbilityServerUpdate = ''server:update''"
definition PATAbilityServerConsole :: PATAbility where "PATAbilityServerConsole = ''server:console''"
definition PATAbilityServerRconConsole :: PATAbility where "PATAbilityServerRconConsole = ''server:rcon-console''"
definition PATAbilityServerRconPlayers :: PATAbility where "PATAbilityServerRconPlayers = ''server:rcon-players''"
definition PATAbilityServerTasksManage :: PATAbility where "PATAbilityServerTasksManage = ''server:tasks-manage''"
definition PATAbilityServerSettingsManage :: PATAbility where "PATAbilityServerSettingsManage = ''server:settings-manage''"

record PersonalAccessToken =
  PAT_ID :: uint
  PAT_TokenableType :: EntityType
  PAT_TokenableID :: uint
  PAT_Name :: string
  PAT_Token :: string
  PAT_Abilities :: "PATAbility list option"
  PAT_LastUsedAt :: "time option"
  PAT_CreatedAt :: "time option"
  PAT_UpdatedAt :: "time option"

text \<open>The zero value of the struct.\<close>

definition no_token :: PersonalAccessToken where
  "no_token = \<lparr>PAT_ID = 0, PAT_TokenableType = '''', PAT_TokenableID = 0, PAT_Name = '''', PAT_Token = '''',
     PAT_Abilities = None, PAT_LastUsedAt = None, PAT_CreatedAt = None, PAT_UpdatedAt = None\<rparr>"

definition GetUserAbilities :: "PATAbility list" where
  "GetUserAbilities = [PATAbilityServerList, PATAbilityServerStart, PATAbilityServerStop, PATAbilityServerRestart,
     PATAbilityServerUpdate, PATAbilityServerConsole, PATAbilityServerRconConsole, PATAbilityServerRconPlayers,
     PATAbilityServerTasksManage, PATAbilityServerSettingsManage]"

definition GetAdminAbilities :: "PATAbility list" where
  "GetAdminAbilities = [PATAbilityServerCreate, PATAbilityGDaemonTaskRead, PATAbilityUserRead, PATAbilityUserManage,
     PATAbilityNodeRead, PATAbilityGameRead, PATAbilitySSOIssue]"

definition GetAllAbilities :: "PATAbility list" where
  "GetAllAbilities = GetUserAbilities @ GetAdminAbilities"

definition ValidateAbility :: "string \<Rightarrow> bool" where
  "ValidateAbility ability = (ability \<in> set GetAllAbilities)"

definition ParseAbilities :: "string list \<Rightarrow> PATAbility list" where
  "ParseAbilities abilities = filter ValidateAbility abilities"

section \<open>The repository\<close>

record FindPersonalAccessToken =
  fpat_IDs :: "uint list"
  fpat_Tokens :: "string list"
  fpat_TokenableTypes :: "string list"
  fpat_TokenableIDs :: "uint list"

definition FindPersonalAccessTokenByIDs :: "uint list \<Rightarrow> FindPersonalAccessToken" where
  "FindPersonalAccessTokenByIDs ids = \<lparr>fpat_IDs = ids, fpat_Tokens = [], fpat_TokenableTypes = [], fpat_TokenableIDs = []\<rparr>"

definition FindPersonalAccessToken_FilterCount :: "FindPersonalAccessToken \<Rightarrow> nat" where
  "FindPersonalAccessToken_FilterCount f =
     (if fpat_IDs f \<noteq> [] then 1 else 0) + (if fpat_Tokens f \<noteq> [] then 1 else 0) +
     (if fpat_TokenableTypes f \<noteq> [] then 1 else 0) + (if fpat_TokenableIDs f \<noteq> [] then 1 else 0)"

record PersonalAccessTokenRepository =
  pr_tokens :: "(uint \<times> PersonalAccessToken) list"
  pr_nextID :: uint32

definition NewPersonalAccessTokenRepository :: PersonalAccessTokenRepository where
  "NewPersonalAccessTokenRepository = \<lparr>pr_tokens = [], pr_nextID = 0\<rparr>"

definition token_matches :: "FindPersonalAccessToken \<Rightarrow> PersonalAccessToken \<Rightarrow> bool" where
  "token_matches f t \<longleftrightarrow>
     (fpat_IDs f = [] \<or> List.member (fpat_IDs f) (PAT_ID t)) \<and>
     (fpat_Tokens f = [] \<or> List.member (fpat_Tokens f) (PAT_Token t)) \<and>
     (fpat_TokenableTypes f = [] \<or> List.member (fpat_TokenableTypes f) (PAT_TokenableType t)) \<and>
     (fpat_TokenableIDs f = [] \<or> List.member (fpat_TokenableIDs f) (PAT_TokenableID t))"

text \<open>A field the comparison does not know compares as equal, which is how \<open>continue\<close> acts.\<close>

definition compareTokens :: "PersonalAccessToken \<Rightarrow> PersonalAccessToken \<Rightarrow> string \<Rightarrow> int" where
  "compareTokens a b field =
     (if field = ''id'' then cmp_Compare (PAT_ID a) (PAT_ID b)
      else if field = ''name'' then strings_Compare (PAT_Name a) (PAT_Name b)
      else if field = ''tokenable_type'' then strings_Compare (PAT_TokenableType a) (PAT_TokenableType b)
      else if field = ''tokenable_id'' then cmp_Compare (PAT_TokenableID a) (PAT_TokenableID b)
      else if field = ''last_used_at'' then compare_option cmp_Compare (PAT_LastUsedAt a) (PAT_LastUsedAt b)
      else if field = ''created_at'' then compare_option cmp_Compare (PAT_CreatedAt a) (PAT_CreatedAt b)
      else if field = ''updated_at'' then compare_option cmp_Compare (PAT_UpdatedAt a) (PAT_UpdatedAt b)
      else 0)"

definition sortTokens :: "PersonalAccessToken list \<Rightarrow> Sorting list \<Rightarrow> PersonalAccessToken list" where
  "sortTokens tokens order = (if order = [] then tokens else sort_slice (sorting_less compareTokens order) tokens)"

definition tokens_applyPagination :: "Pagination option \<Rightarrow> 'a list \<Rightarrow> 'a list result" where
  "tokens_applyPagination pagination tokens =
     (case pagination of
        None \<Rightarrow> Inr tokens
      | Some p \<Rightarrow>
          let start = Pagination_Offset p;
              len = (of_nat (length tokens) :: uint64);
              limit = (if Pagination_Limit p = 0 then DefaultLimit else Pagination_Limit p)
          in if start > len then Inr []
             else slice tokens (unat start) (unat (min (start + limit) len)))"

definition PATRepository_Find ::
    "FindPersonalAccessToken option \<Rightarrow> Sorting list \<Rightarrow> Pagination option \<Rightarrow> PersonalAccessTokenRepository \<Rightarrow>
     PersonalAccessToken list result" where
  "PATRepository_Find f order pagination r =
     (let f' = (case f of None \<Rightarrow> FindPersonalAccessTokenByIDs [] | Some f' \<Rightarrow> f')
      in tokens_applyPagination pagination (sortTokens (filter (token_matches f') (map snd (pr_tokens r))) order))"

definition PATRepository_create ::
    "PersonalAccessToken \<Rightarrow> PersonalAccessTokenRepository \<Rightarrow> PersonalAccessToken \<times> PersonalAccessTokenRepository" where
  "PATRepository_create token r =
     (let next = pr_nextID r + 1;
          token' = (if PAT_ID token = 0 then token\<lparr>PAT_ID := id_of_counter next\<rparr> else token);
          r' = (if PAT_ID token = 0 then r\<lparr>pr_nextID := next\<rparr> else r)
      in (token', r'\<lparr>pr_tokens := AList.update (PAT_ID token') token' (pr_tokens r')\<rparr>))"

definition PATRepository_update ::
    "PersonalAccessToken \<Rightarrow> PersonalAccessTokenRepository \<Rightarrow> error option \<times> PersonalAccessTokenRepository" where
  "PATRepository_update token r =
     (if map_of (pr_tokens r) (PAT_ID token) = None then (Some (Errorf ''personal access token not found''), r)
      else (None, r\<lparr>pr_tokens := AList.update (PAT_ID token) token (pr_tokens r)\<rparr>))"

definition PATRepository_Save ::
    "time \<Rightarrow> PersonalAccessToken \<Rightarrow> PersonalAccessTokenRepository \<Rightarrow>
     error option \<times> PersonalAccessToken \<times> PersonalAccessTokenRepository" where
  "PATRepository_Save now token r =
     (let t1 = token\<lparr>PAT_UpdatedAt := Some now\<rparr>;
          t2 = (if PAT_ID t1 = 0 \<and> (PAT_CreatedAt t1 = None \<or> PAT_CreatedAt t1 = Some 0)
                then t1\<lparr>PAT_CreatedAt := Some now\<rparr> else t1)
      in if PAT_ID t2 = 0 then (None, PATRepository_create t2 r)
         else (case PATRepository_update t2 r of (e, r') \<Rightarrow> (e, t2, r')))"

definition PATRepository_Delete ::
    "uint \<Rightarrow> PersonalAccessTokenRepository \<Rightarrow> error option \<times> PersonalAccessTokenRepository" where
  "PATRepository_Delete i r = (None, r\<lparr>pr_tokens := AList.delete i (pr_tokens r)\<rparr>)"

definition PATRepository_UpdateLastUsedAt ::
    "uint \<Rightarrow> time \<Rightarrow> PersonalAccessTokenRepository \<Rightarrow> error option \<times> PersonalAccessTokenRepository" where
  "PATRepository_UpdateLastUsedAt i lastUsedAt r =
     (case map_of (pr_tokens r) i of
        None \<Rightarrow> (None, r)
      | Some token \<Rightarrow> (None, r\<lparr>pr_tokens := AList.update i (token\<lparr>PAT_LastUsedAt := Some lastUsedAt\<rparr>) (pr_tokens r)\<rparr>))"

text \<open>The interface, and what its clients rely on: a lookup by identifier and a deletion.\<close>

record 'p Tokens =
  Tokens_Find :: "FindPersonalAccessToken option \<Rightarrow> Sorting list \<Rightarrow> Pagination option \<Rightarrow> 'p \<Rightarrow>
    PersonalAccessToken list result"
  Tokens_Save :: "time \<Rightarrow> PersonalAccessToken \<Rightarrow> 'p \<Rightarrow> error option \<times> PersonalAccessToken \<times> 'p"
  Tokens_Delete :: "uint \<Rightarrow> 'p \<Rightarrow> error option \<times> 'p"

definition inmemory_tokens :: "PersonalAccessTokenRepository Tokens" where
  "inmemory_tokens = \<lparr>Tokens_Find = PATRepository_Find, Tokens_Save = PATRepository_Save, Tokens_Delete = PATRepository_Delete\<rparr>"

definition one_token :: "Pagination option" where
  "one_token = Some \<lparr>Pagination_Limit = 1, Pagination_Offset = 0\<rparr>"

locale token_store =
  fixes T :: "'p Tokens" and token_inv :: "'p \<Rightarrow> bool" and token_of :: "'p \<Rightarrow> uint \<Rightarrow> PersonalAccessToken option"
  assumes find_token: "token_inv s \<Longrightarrow> page = None \<or> page = one_token \<Longrightarrow>
      Tokens_Find T (Some (FindPersonalAccessTokenByIDs [i])) [] page s =
        Inr (case token_of s i of None \<Rightarrow> [] | Some t \<Rightarrow> [t])"
    and token_id: "token_inv s \<Longrightarrow> token_of s i = Some t \<Longrightarrow> PAT_ID t = i \<and> i \<noteq> 0"
    and delete_token: "token_inv s \<Longrightarrow> \<exists>s'. Tokens_Delete T i s = (None, s') \<and> token_inv s' \<and>
      token_of s' = (token_of s)(i := None)"

section \<open>Sessions\<close>

record AuthSession =
  session_Login :: string
  session_Email :: string
  session_User :: "User option"
  session_Token :: "PersonalAccessToken option"
  session_ShortLived :: bool
  session_MFAEnrollmentOnly :: bool

definition IsAuthenticated :: "AuthSession option \<Rightarrow> bool" where
  "IsAuthenticated s = (case s of None \<Rightarrow> False | Some x \<Rightarrow>
     (case session_User x of None \<Rightarrow> False | Some u \<Rightarrow> User_ID u \<noteq> 0))"

definition IsTokenSession :: "AuthSession option \<Rightarrow> bool" where
  "IsTokenSession s = (case s of None \<Rightarrow> False | Some x \<Rightarrow>
     (case session_Token x of None \<Rightarrow> False | Some t \<Rightarrow> PAT_ID t \<noteq> 0))"

section \<open>The denylist of revoked tokens\<close>

definition TokenIdentifier :: "Crypto \<Rightarrow> string \<Rightarrow> string" where
  "TokenIdentifier cr rawBearer = cr_SHA256 cr rawBearer"

definition revocationKeyPrefix :: string where "revocationKeyPrefix = ''auth:revoked:''"

definition CacheRevocation_Revoke :: "'c Cache \<Rightarrow> time \<Rightarrow> string \<Rightarrow> duration \<Rightarrow> 'c \<Rightarrow> error option \<times> 'c" where
  "CacheRevocation_Revoke C now identifier ttl c =
     (if ttl \<le> 0 then (None, c)
      else Cache_Set C now (revocationKeyPrefix @ identifier) (AnyBool True) [WithExpiration ttl] c)"

definition CacheRevocation_IsRevoked :: "'c Cache \<Rightarrow> time \<Rightarrow> string \<Rightarrow> 'c \<Rightarrow> bool result" where
  "CacheRevocation_IsRevoked C now identifier c =
     (case Cache_Get C now (revocationKeyPrefix @ identifier) c of
        Inr _ \<Rightarrow> Inr True
      | Inl e \<Rightarrow> if e = ErrNotFound then Inr False else Inl e)"

section \<open>The in-memory repository keeps the promise\<close>

definition pr_wf :: "PersonalAccessTokenRepository \<Rightarrow> bool" where
  "pr_wf r \<longleftrightarrow> wf_map (pr_tokens r) \<and>
     (\<forall>(k, t) \<in> set (pr_tokens r). PAT_ID t = k \<and> 0 < unat k \<and> unat k \<le> unat (pr_nextID r))"

definition token_in :: "PersonalAccessTokenRepository \<Rightarrow> uint \<Rightarrow> PersonalAccessToken option" where
  "token_in r = map_of (pr_tokens r)"

lemma Find_token:
  assumes "pr_wf r" and "page = None \<or> page = one_token"
  shows "PATRepository_Find (Some (FindPersonalAccessTokenByIDs [i])) [] page r =
    Inr (case token_in r i of None \<Rightarrow> [] | Some t \<Rightarrow> [t])"
proof -
  have "token_matches (FindPersonalAccessTokenByIDs [i]) = (\<lambda>t. PAT_ID t = i)"
    by (auto simp: token_matches_def FindPersonalAccessTokenByIDs_def fun_eq_iff)
  moreover have "filter (\<lambda>t. PAT_ID t = i) (map snd (pr_tokens r)) = (case token_in r i of None \<Rightarrow> [] | Some t \<Rightarrow> [t])"
    using filter_key [of "pr_tokens r" PAT_ID i] assms(1) by (simp add: pr_wf_def token_in_def case_prod_beta)
  ultimately show ?thesis
    using assms(2)
    by (auto simp: PATRepository_Find_def sortTokens_def tokens_applyPagination_def one_token_def Let_def slice_def
        min_def word_le_nat_alt split: option.split)
qed

interpretation mem_tokens: token_store inmemory_tokens pr_wf token_in
proof (unfold_locales, goal_cases)
  case (1 s page i)
  then show ?case using Find_token [of s page i] by (simp add: inmemory_tokens_def)
next
  case (2 s i t)
  then have "(i, t) \<in> set (pr_tokens s)" by (simp add: token_in_def map_of_SomeD)
  with 2 show ?case by (auto simp: pr_wf_def)
next
  case (3 s i)
  then show ?case
    by (auto simp: inmemory_tokens_def PATRepository_Delete_def token_in_def pr_wf_def alist_simps)
qed

end
