(* ===== verification/Cached_RBAC.thy ===== *)
theory Cached_RBAC
  imports Shared_Cache RBAC_Repository
begin

text \<open>
  The caching layer of the repositories: the wrapper and its cache keys
  (\<open>internal/repositories/cached/wrapper.go\<close>) and the cached access-control repository
  (\<open>internal/repositories/cached/rbac.go\<close>).

  The layer is written over the cache interface and the repository interface; a read goes through
  the cache, so every operation takes and returns the pair of the inner store and the cache.
  \<open>hashParams\<close>, the SHA-256 of the JSON of the key parameters, is the parameter \<open>hash\<close>, and so is the
  JSON round trip that reads back a value another backend returned.  When the cache is a
  \<open>*cache.Redis\<close>, \<open>wr_redis\<close> is its \<open>DeletePattern\<close>.
\<close>

section \<open>Cache keys\<close>

datatype key_param = ParamUint uint | ParamString string

type_synonym hash = "key_param list \<Rightarrow> string"

definition BuildKey :: "hash \<Rightarrow> string \<Rightarrow> string \<Rightarrow> key_param list \<Rightarrow> string" where
  "BuildKey hash pre operation params =
     (case params of
        [] \<Rightarrow> pre @ '':'' @ operation
      | _ \<Rightarrow>
         (case (operation = ''id'', params) of
            (True, [ParamUint p]) \<Rightarrow> pre @ '':'' @ operation @ '':'' @ decimal (unat p)
          | _ \<Rightarrow> pre @ '':'' @ operation @ '':'' @ hash params))"

definition BuildPattern :: "string \<Rightarrow> string \<Rightarrow> string" where
  "BuildPattern pre operation = pre @ '':'' @ operation @ '':*''"

section \<open>The wrapper\<close>

record CacheConfig =
  cfg_TTL :: duration
  cfg_KeyBuilder :: string
  cfg_InvalidateOnSave :: bool
  cfg_InvalidateOnDelete :: bool

record 'c Wrapper =
  wr_cache :: "'c Cache"
  wr_redis :: "(string \<Rightarrow> 'c \<Rightarrow> error option \<times> 'c) option"
  wr_config :: CacheConfig

text \<open>
  The type argument \<open>T\<close> of \<open>GetOrLoad\<close>: the conversion of a value to \<open>any\<close>, the type assertion and
  the JSON round trip.
\<close>

record 'a cached_type =
  to_any :: "'a \<Rightarrow> any"
  type_assert :: "any \<Rightarrow> 'a option"
  json_roundtrip :: "any \<Rightarrow> 'a option"

definition decodeCachedValue :: "'a cached_type \<Rightarrow> any \<Rightarrow> 'a option" where
  "decodeCachedValue T v = (case type_assert T v of Some typed \<Rightarrow> Some typed | None \<Rightarrow> json_roundtrip T v)"

definition store_loaded ::
    "'c Wrapper \<Rightarrow> ('a \<Rightarrow> any) \<Rightarrow> time \<Rightarrow> string \<Rightarrow> 'a result \<Rightarrow> 'c \<Rightarrow> 'a result \<times> 'c" where
  "store_loaded w conv now key loaded c =
     (case loaded of
        Inl e \<Rightarrow> (Inl e, c)
      | Inr r \<Rightarrow> (Inr r, snd (Cache_Set (wr_cache w) now key (conv r)
                               [WithExpiration (cfg_TTL (wr_config w))] c)))"

definition GetOrLoad ::
    "'c Wrapper \<Rightarrow> 'a cached_type \<Rightarrow> time \<Rightarrow> string \<Rightarrow> (unit \<Rightarrow> 'a result) \<Rightarrow> 'c \<Rightarrow> 'a result \<times> 'c" where
  "GetOrLoad w T now key loader c =
     (case Cache_Get (wr_cache w) now key c of
        Inl _ \<Rightarrow> store_loaded w (to_any T) now key (loader ()) c
      | Inr cachedValue \<Rightarrow>
         (case decodeCachedValue T cachedValue of
            Some typed \<Rightarrow> (Inr typed, c)
          | None \<Rightarrow> store_loaded w (to_any T) now key (loader ()) c))"

definition GetOrSet ::
    "'c Wrapper \<Rightarrow> time \<Rightarrow> string \<Rightarrow> (unit \<Rightarrow> any result) \<Rightarrow> 'c \<Rightarrow> any result \<times> 'c" where
  "GetOrSet w now key loader c =
     (case Cache_Get (wr_cache w) now key c of
        Inr cached \<Rightarrow> (Inr cached, c)
      | Inl _ \<Rightarrow> store_loaded w id now key (loader ()) c)"

record CacheStats =
  stats_Hits :: int
  stats_Misses :: int

definition GetWithStats ::
    "'c Wrapper \<Rightarrow> time \<Rightarrow> string \<Rightarrow> (unit \<Rightarrow> any result) \<Rightarrow> CacheStats option \<Rightarrow> 'c \<Rightarrow>
       any result \<times> CacheStats option \<times> 'c" where
  "GetWithStats w now key loader stats c =
     (case Cache_Get (wr_cache w) now key c of
        Inr cached \<Rightarrow> (Inr cached, map_option (\<lambda>s. s\<lparr>stats_Hits := stats_Hits s + 1\<rparr>) stats, c)
      | Inl _ \<Rightarrow>
         (case GetOrSet w now key loader c of
            (r, c') \<Rightarrow> (r, map_option (\<lambda>s. s\<lparr>stats_Misses := stats_Misses s + 1\<rparr>) stats, c')))"

fun Invalidate :: "'c Wrapper \<Rightarrow> string list \<Rightarrow> 'c \<Rightarrow> error option \<times> 'c" where
  "Invalidate w [] c = (None, c)"
| "Invalidate w (key # ks) c =
     (case Cache_Delete (wr_cache w) key c of
        (Some e, c') \<Rightarrow> if e = ErrNotFound then Invalidate w ks c' else (Some e, c')
      | (None, c') \<Rightarrow> Invalidate w ks c')"

definition InvalidatePattern :: "'c Wrapper \<Rightarrow> string \<Rightarrow> 'c \<Rightarrow> error option \<times> 'c" where
  "InvalidatePattern w pattern c =
     (case wr_redis w of
        Some deletePattern \<Rightarrow> deletePattern pattern c
      | None \<Rightarrow> Cache_Clear (wr_cache w) c)"

definition InvalidateBestEffort :: "'c Wrapper \<Rightarrow> string list \<Rightarrow> 'c \<Rightarrow> 'c" where
  "InvalidateBestEffort w ks c = snd (Invalidate w ks c)"

definition InvalidatePatternBestEffort :: "'c Wrapper \<Rightarrow> string \<Rightarrow> 'c \<Rightarrow> 'c" where
  "InvalidatePatternBestEffort w pattern c = snd (InvalidatePattern w pattern c)"

section \<open>The cached repository\<close>

text \<open>The operations of the inner repository that the access-control service does not use.\<close>

record 's RoleRepository =
  SaveRole :: "Role \<Rightarrow> 's \<Rightarrow> Role result \<times> 's"
  DeleteRole :: "uint \<Rightarrow> 's \<Rightarrow> error option \<times> 's"

record ('s, 'c) CachedRBACRepository =
  crr_inner :: "'s Repository"
  crr_roles :: "'s RoleRepository"
  crr_wrapper :: "'c Wrapper"
  crr_keyBuilder :: string
  crr_hash :: hash
  crr_json_roles :: "any \<Rightarrow> Role list option"
  crr_json_permissions :: "any \<Rightarrow> Permission list option"
  crr_json_restricted :: "any \<Rightarrow> RestrictedRole list option"

definition NewCachedRBACRepository ::
    "'s Repository \<Rightarrow> 's RoleRepository \<Rightarrow> 'c Cache \<Rightarrow> (string \<Rightarrow> 'c \<Rightarrow> error option \<times> 'c) option \<Rightarrow>
     duration \<Rightarrow> hash \<Rightarrow> (any \<Rightarrow> Role list option) \<Rightarrow> (any \<Rightarrow> Permission list option) \<Rightarrow>
     (any \<Rightarrow> RestrictedRole list option) \<Rightarrow> ('s, 'c) CachedRBACRepository" where
  "NewCachedRBACRepository inner roles cache redis ttl hash j1 j2 j3 =
     (let keyBuilder = ''rbac'';
          config = \<lparr>cfg_TTL = ttl, cfg_KeyBuilder = keyBuilder, cfg_InvalidateOnSave = True,
                    cfg_InvalidateOnDelete = True\<rparr>
      in \<lparr>crr_inner = inner, crr_roles = roles,
          crr_wrapper = \<lparr>wr_cache = cache, wr_redis = redis, wr_config = config\<rparr>,
          crr_keyBuilder = keyBuilder, crr_hash = hash, crr_json_roles = j1,
          crr_json_permissions = j2, crr_json_restricted = j3\<rparr>)"

definition role_type :: "('s, 'c) CachedRBACRepository \<Rightarrow> Role list cached_type" where
  "role_type r = \<lparr>to_any = AnyRoles,
     type_assert = (\<lambda>v. case v of AnyRoles rs \<Rightarrow> Some rs | _ \<Rightarrow> None), json_roundtrip = crr_json_roles r\<rparr>"

definition permission_type :: "('s, 'c) CachedRBACRepository \<Rightarrow> Permission list cached_type" where
  "permission_type r = \<lparr>to_any = AnyPermissions,
     type_assert = (\<lambda>v. case v of AnyPermissions ps \<Rightarrow> Some ps | _ \<Rightarrow> None),
     json_roundtrip = crr_json_permissions r\<rparr>"

definition restricted_type :: "('s, 'c) CachedRBACRepository \<Rightarrow> RestrictedRole list cached_type" where
  "restricted_type r = \<lparr>to_any = AnyRestrictedRoles,
     type_assert = (\<lambda>v. case v of AnyRestrictedRoles rs \<Rightarrow> Some rs | _ \<Rightarrow> None),
     json_roundtrip = crr_json_restricted r\<rparr>"

text \<open>The keys the repository uses.\<close>

definition roles_key :: "('s, 'c) CachedRBACRepository \<Rightarrow> string" where
  "roles_key r = BuildKey (crr_hash r) (crr_keyBuilder r) ''roles'' [ParamString ''all'']"

definition entity_key :: "('s, 'c) CachedRBACRepository \<Rightarrow> string \<Rightarrow> uint \<Rightarrow> EntityType \<Rightarrow> string" where
  "entity_key r operation entityID entityType =
     BuildKey (crr_hash r) (crr_keyBuilder r) operation [ParamString (name_number entityType (unat entityID))]"

type_synonym ('s, 'c) cached_state = "'s \<times> 'c"

definition Cached_GetRoles ::
    "('s, 'c) CachedRBACRepository \<Rightarrow> time \<Rightarrow> ('s, 'c) cached_state \<Rightarrow> Role list result \<times> ('s, 'c) cached_state" where
  "Cached_GetRoles r now st =
     (case GetOrLoad (crr_wrapper r) (role_type r) now (roles_key r)
             (\<lambda>_. GetRoles (crr_inner r) (fst st)) (snd st) of
        (res, c) \<Rightarrow> (with_message ''failed to load GetRoles'' res, (fst st, c)))"

definition Cached_GetPermissions ::
    "('s, 'c) CachedRBACRepository \<Rightarrow> time \<Rightarrow> uint \<Rightarrow> EntityType \<Rightarrow> ('s, 'c) cached_state \<Rightarrow>
       Permission list result \<times> ('s, 'c) cached_state" where
  "Cached_GetPermissions r now entityID entityType st =
     (case GetOrLoad (crr_wrapper r) (permission_type r) now (entity_key r ''permissions'' entityID entityType)
             (\<lambda>_. GetPermissions (crr_inner r) (fst st) entityID entityType) (snd st) of
        (res, c) \<Rightarrow> (with_message ''failed to load GetPermissions'' res, (fst st, c)))"

definition Cached_GetRolesForEntity ::
    "('s, 'c) CachedRBACRepository \<Rightarrow> time \<Rightarrow> uint \<Rightarrow> EntityType \<Rightarrow> ('s, 'c) cached_state \<Rightarrow>
       RestrictedRole list result \<times> ('s, 'c) cached_state" where
  "Cached_GetRolesForEntity r now entityID entityType st =
     (case GetOrLoad (crr_wrapper r) (restricted_type r) now (entity_key r ''roles'' entityID entityType)
             (\<lambda>_. GetRolesForEntity (crr_inner r) (fst st) entityID entityType) (snd st) of
        (res, c) \<Rightarrow> (with_message ''failed to load GetRolesForEntity'' res, (fst st, c)))"

definition invalidateRoleCache :: "('s, 'c) CachedRBACRepository \<Rightarrow> 'c \<Rightarrow> 'c" where
  "invalidateRoleCache r c =
     (let c1 = InvalidateBestEffort (crr_wrapper r) [roles_key r] c;
          c2 = InvalidatePatternBestEffort (crr_wrapper r) (BuildPattern (crr_keyBuilder r) ''role'') c1
      in InvalidatePatternBestEffort (crr_wrapper r) (BuildPattern (crr_keyBuilder r) ''roles'') c2)"

definition invalidateEntityCache :: "('s, 'c) CachedRBACRepository \<Rightarrow> uint \<Rightarrow> EntityType \<Rightarrow> 'c \<Rightarrow> 'c" where
  "invalidateEntityCache r entityID entityType c =
     (let c1 = InvalidateBestEffort (crr_wrapper r) [entity_key r ''roles'' entityID entityType] c
      in InvalidateBestEffort (crr_wrapper r) [entity_key r ''permissions'' entityID entityType] c1)"

definition invalidatePermissionCache :: "('s, 'c) CachedRBACRepository \<Rightarrow> uint \<Rightarrow> EntityType \<Rightarrow> 'c \<Rightarrow> 'c" where
  "invalidatePermissionCache r entityID entityType c =
     InvalidateBestEffort (crr_wrapper r) [entity_key r ''permissions'' entityID entityType] c"

text \<open>A write: the inner repository's error is wrapped, its success is followed by the invalidation.\<close>

definition after_write ::
    "string \<Rightarrow> ('c \<Rightarrow> 'c) \<Rightarrow> error option \<times> 's \<Rightarrow> 'c \<Rightarrow> error option \<times> ('s, 'c) cached_state" where
  "after_write msg invalidate w c =
     (case w of
        (Some e, s) \<Rightarrow> (Some (WithMessage e msg), (s, c))
      | (None, s) \<Rightarrow> (None, (s, invalidate c)))"

definition Cached_SaveRole ::
    "('s, 'c) CachedRBACRepository \<Rightarrow> Role \<Rightarrow> ('s, 'c) cached_state \<Rightarrow> Role result \<times> ('s, 'c) cached_state" where
  "Cached_SaveRole r role st =
     (case SaveRole (crr_roles r) role (fst st) of
        (Inl e, s) \<Rightarrow> (Inl (WithMessage e ''failed to save role''), (s, snd st))
      | (Inr role', s) \<Rightarrow> (Inr role', (s, invalidateRoleCache r (snd st))))"

definition Cached_DeleteRole ::
    "('s, 'c) CachedRBACRepository \<Rightarrow> uint \<Rightarrow> ('s, 'c) cached_state \<Rightarrow> error option \<times> ('s, 'c) cached_state" where
  "Cached_DeleteRole r i st =
     after_write ''failed to delete role''
       (\<lambda>c. invalidateEntityCache r i EntityTypeRole (invalidateRoleCache r c))
       (DeleteRole (crr_roles r) i (fst st)) (snd st)"

definition Cached_AssignRolesForEntity ::
    "('s, 'c) CachedRBACRepository \<Rightarrow> uint \<Rightarrow> EntityType \<Rightarrow> RestrictedRole list \<Rightarrow> ('s, 'c) cached_state \<Rightarrow>
       error option \<times> ('s, 'c) cached_state" where
  "Cached_AssignRolesForEntity r i t roles st =
     after_write ''failed to assign roles for entity'' (invalidateEntityCache r i t)
       (AssignRolesForEntity (crr_inner r) (fst st) i t roles) (snd st)"

definition Cached_ClearRolesForEntity ::
    "('s, 'c) CachedRBACRepository \<Rightarrow> uint \<Rightarrow> EntityType \<Rightarrow> ('s, 'c) cached_state \<Rightarrow>
       error option \<times> ('s, 'c) cached_state" where
  "Cached_ClearRolesForEntity r i t st =
     after_write ''failed to clear roles for entity'' (invalidateEntityCache r i t)
       (ClearRolesForEntity (crr_inner r) (fst st) i t) (snd st)"

definition Cached_Allow ::
    "('s, 'c) CachedRBACRepository \<Rightarrow> uint \<Rightarrow> EntityType \<Rightarrow> Ability list \<Rightarrow> ('s, 'c) cached_state \<Rightarrow>
       error option \<times> ('s, 'c) cached_state" where
  "Cached_Allow r i t abilities st =
     after_write ''failed to allow abilities'' (invalidatePermissionCache r i t)
       (Allow (crr_inner r) (fst st) i t abilities) (snd st)"

definition Cached_Forbid ::
    "('s, 'c) CachedRBACRepository \<Rightarrow> uint \<Rightarrow> EntityType \<Rightarrow> Ability list \<Rightarrow> ('s, 'c) cached_state \<Rightarrow>
       error option \<times> ('s, 'c) cached_state" where
  "Cached_Forbid r i t abilities st =
     after_write ''failed to forbid abilities'' (invalidatePermissionCache r i t)
       (Forbid (crr_inner r) (fst st) i t abilities) (snd st)"

definition Cached_Revoke ::
    "('s, 'c) CachedRBACRepository \<Rightarrow> uint \<Rightarrow> EntityType \<Rightarrow> Ability list \<Rightarrow> ('s, 'c) cached_state \<Rightarrow>
       error option \<times> ('s, 'c) cached_state" where
  "Cached_Revoke r i t abilities st =
     after_write ''failed to revoke abilities'' (invalidatePermissionCache r i t)
       (Revoke (crr_inner r) (fst st) i t abilities) (snd st)"

section \<open>The in-memory repository's role operations\<close>

definition inmemory_roles :: "RBACRepository RoleRepository" where
  "inmemory_roles =
     \<lparr>SaveRole = (\<lambda>role s. case RBACRepository_SaveRole role s of (role', s') \<Rightarrow> (Inr role', s')),
      DeleteRole = (\<lambda>i s. (None, RBACRepository_DeleteRole i s))\<rparr>"

text \<open>A role can be saved under its own identifier, or under a fresh one.\<close>

definition saveable :: "Role \<Rightarrow> RBACRepository \<Rightarrow> bool" where
  "saveable role s \<longleftrightarrow>
     (if Role_ID role = 0 then counter_room (rr_nextRoleID s) 1
      else Role_ID role \<in> set (keys (rr_roles s)))"

section \<open>Runs\<close>

text \<open>
  A step of the panel on the store and the cache: any operation of the cached repository, on the
  entity types the domain has, or an operation of another client of the cache, which keeps to keys
  of its own or clears everything.  A step is labelled with the rows it may add.
\<close>

definition entity_types :: "EntityType set" where
  "entity_types = {EntityTypeUser, EntityTypeNode, EntityTypeServer, EntityTypeRole}"

inductive cached_step ::
    "('s, 'c) CachedRBACRepository \<Rightarrow> (Role \<Rightarrow> 's \<Rightarrow> bool) \<Rightarrow> nat \<Rightarrow> ('s, 'c) cached_state \<Rightarrow> ('s, 'c) cached_state \<Rightarrow> bool"
  for r ok where
  get_roles: "0 \<le> now \<Longrightarrow> cached_step r ok 0 st (snd (Cached_GetRoles r now st))"
| get_permissions: "0 \<le> now \<Longrightarrow> t \<in> entity_types \<Longrightarrow>
    cached_step r ok 0 st (snd (Cached_GetPermissions r now i t st))"
| get_roles_for: "0 \<le> now \<Longrightarrow> t \<in> entity_types \<Longrightarrow>
    cached_step r ok 0 st (snd (Cached_GetRolesForEntity r now i t st))"
| save_role: "ok role (fst st) \<Longrightarrow> cached_step r ok 0 st (snd (Cached_SaveRole r role st))"
| delete_role: "cached_step r ok 0 st (snd (Cached_DeleteRole r i st))"
| assign: "t \<in> entity_types \<Longrightarrow> (\<forall>role \<in> set roles. \<exists>rs. GetRoles (crr_inner r) (fst st) = Inr rs \<and>
      RestrictedRole_Role role \<in> set rs) \<Longrightarrow>
    cached_step r ok (length roles) st (snd (Cached_AssignRolesForEntity r i t roles st))"
| clear_roles: "t \<in> entity_types \<Longrightarrow> cached_step r ok 0 st (snd (Cached_ClearRolesForEntity r i t st))"
| allow: "t \<in> entity_types \<Longrightarrow> cached_step r ok (length abls) st (snd (Cached_Allow r i t abls st))"
| forbid: "t \<in> entity_types \<Longrightarrow> cached_step r ok (length abls) st (snd (Cached_Forbid r i t abls st))"
| revoke: "t \<in> entity_types \<Longrightarrow> cached_step r ok 0 st (snd (Cached_Revoke r i t abls st))"
| other_set: "0 \<le> now \<Longrightarrow> \<not> prefix ''rbac:'' k \<Longrightarrow>
    cached_step r ok 0 (s, c) (s, snd (Cache_Set (wr_cache (crr_wrapper r)) now k v opts c))"
| other_delete: "cached_step r ok 0 (s, c) (s, snd (Cache_Delete (wr_cache (crr_wrapper r)) k c))"
| other_pull: "cached_step r ok 0 (s, c) (s, snd (Cache_Pull (wr_cache (crr_wrapper r)) now k c))"
| other_clear: "cached_step r ok 0 (s, c) (s, snd (Cache_Clear (wr_cache (crr_wrapper r)) c))"

inductive cached_run ::
    "('s, 'c) CachedRBACRepository \<Rightarrow> (Role \<Rightarrow> 's \<Rightarrow> bool) \<Rightarrow> nat \<Rightarrow> ('s, 'c) cached_state \<Rightarrow> ('s, 'c) cached_state \<Rightarrow> bool"
  for r ok where
  start: "cached_run r ok 0 st st"
| more: "cached_run r ok n st st1 \<Longrightarrow> cached_step r ok m st1 st2 \<Longrightarrow> cached_run r ok (n + m) st st2"

text \<open>The parameter lists the repository hashes; a collision among them would mix up two entities.\<close>

definition rbac_params :: "key_param list set" where
  "rbac_params = insert [ParamString ''all'']
     {[ParamString (name_number t (unat i))] | (i :: uint) t. t \<in> entity_types}"

section \<open>Keys of different reads differ\<close>

lemma BuildKey_string [simp]:
  "BuildKey hash pre op [ParamString s] = pre @ '':'' @ op @ '':'' @ hash [ParamString s]"
  by (simp add: BuildKey_def split: bool.split)

lemma name_number_not_all: "name_number t n \<noteq> ''all''"
proof
  assume all: "name_number t n = ''all''"
  have "CHR ''_'' \<in> set (name_number t n)" by (simp add: name_number_def)
  then show False unfolding all by simp
qed

lemma keys_differ:
  assumes "inj_on (crr_hash r) rbac_params" and "t \<in> entity_types" and "u \<in> entity_types"
  shows "entity_key r ''roles'' i t = entity_key r ''roles'' j u \<longleftrightarrow> (i, t) = (j, u)"
    and "entity_key r ''permissions'' i t = entity_key r ''permissions'' j u \<longleftrightarrow> (i, t) = (j, u)"
    and "entity_key r ''roles'' i t \<noteq> entity_key r ''permissions'' j u"
    and "entity_key r ''roles'' i t \<noteq> roles_key r"
    and "entity_key r ''permissions'' i t \<noteq> roles_key r"
proof -
  let ?p = "\<lambda>i t. [ParamString (name_number t (unat (i :: uint)))]"
  have mem: "?p i t \<in> rbac_params" "?p j u \<in> rbac_params" "[ParamString ''all''] \<in> rbac_params"
    using assms(2,3) by (auto simp: rbac_params_def)
  have "crr_hash r (?p i t) = crr_hash r (?p j u) \<longleftrightarrow> ?p i t = ?p j u"
    using inj_on_eq_iff [OF assms(1) mem(1,2)] .
  then have eq: "crr_hash r (?p i t) = crr_hash r (?p j u) \<longleftrightarrow> (i, t) = (j, u)"
    by (auto simp: name_number_inj word_unat_eq_iff)
  have "crr_hash r (?p i t) \<noteq> crr_hash r [ParamString ''all'']"
    using inj_on_eq_iff [OF assms(1) mem(1,3)] by (simp add: name_number_not_all)
  then show "entity_key r ''roles'' i t \<noteq> roles_key r"
    by (simp add: entity_key_def roles_key_def)
  show "entity_key r ''roles'' i t = entity_key r ''roles'' j u \<longleftrightarrow> (i, t) = (j, u)"
    and "entity_key r ''permissions'' i t = entity_key r ''permissions'' j u \<longleftrightarrow> (i, t) = (j, u)"
    using eq by (simp_all add: entity_key_def)
  show "entity_key r ''roles'' i t \<noteq> entity_key r ''permissions'' j u"
    and "entity_key r ''permissions'' i t \<noteq> roles_key r"
    by (simp_all add: entity_key_def roles_key_def)
qed

lemma keys_in_namespace:
  assumes "crr_keyBuilder r = ''rbac''"
  shows "prefix ''rbac:'' (roles_key r)" "prefix ''rbac:'' (entity_key r op i t)"
  using assms by (simp_all add: roles_key_def entity_key_def)

section \<open>Coherence\<close>

text \<open>
  What the cache holds under a key of the repository, at whatever time, is what the inner
  repository answers.
\<close>

locale cached_rbac =
  repo: rbac_repository "crr_inner r" inv room roles_of perms_of assigned_of +
  cache: shared_cache "wr_cache (crr_wrapper r)" cinv view
  for r :: "('s, 'c) CachedRBACRepository" and inv room roles_of perms_of assigned_of cinv view +
  fixes ok :: "Role \<Rightarrow> 's \<Rightarrow> bool"
  assumes not_redis: "wr_redis (crr_wrapper r) = None"
    and namespace: "crr_keyBuilder r = ''rbac''"
    and no_collision: "inj_on (crr_hash r) rbac_params"
    and role_saved: "inv s \<Longrightarrow> ok role s \<Longrightarrow> \<exists>role' s'. SaveRole (crr_roles r) role s = (Inr role', s') \<and>
      inv s' \<and> (\<forall>n. room s n \<longrightarrow> room s' n)"
    and role_deleted: "inv s \<Longrightarrow> \<exists>s'. DeleteRole (crr_roles r) i s = (None, s') \<and>
      inv s' \<and> (\<forall>n. room s n \<longrightarrow> room s' n)"
begin

definition answers :: "'s \<Rightarrow> string \<Rightarrow> any \<Rightarrow> bool" where
  "answers s k v \<longleftrightarrow>
     (k = roles_key r \<longrightarrow> v = AnyRoles (roles_of s)) \<and>
     (\<forall>i u. u \<in> entity_types \<longrightarrow> k = entity_key r ''permissions'' i u \<longrightarrow> v = AnyPermissions (perms_of s i u)) \<and>
     (\<forall>i u. u \<in> entity_types \<longrightarrow> k = entity_key r ''roles'' i u \<longrightarrow> v = AnyRestrictedRoles (assigned_of s i u))"

definition coherent_at :: "'s \<Rightarrow> 'c \<Rightarrow> bool" where
  "coherent_at s c \<longleftrightarrow> cinv c \<and> (\<forall>t k v. view c t k = Some v \<longrightarrow> answers s k v)"

lemma answers_simps:
  "answers s (roles_key r) v \<longleftrightarrow> v = AnyRoles (roles_of s)"
  "u \<in> entity_types \<Longrightarrow> answers s (entity_key r ''permissions'' i u) v \<longleftrightarrow> v = AnyPermissions (perms_of s i u)"
  "u \<in> entity_types \<Longrightarrow> answers s (entity_key r ''roles'' i u) v \<longleftrightarrow> v = AnyRestrictedRoles (assigned_of s i u)"
  using keys_differ [OF no_collision] keys_differ(3-5) [OF no_collision, symmetric]
  by (auto simp: answers_def)

lemma answers_foreign: "\<not> prefix ''rbac:'' k \<Longrightarrow> answers s k v"
  using keys_in_namespace [OF namespace] by (auto simp: answers_def)

lemma coherent_fewer:
  assumes "coherent_at s c" and "cinv c'"
    and "\<And>t k v. view c' t k = Some v \<Longrightarrow> view c t k = Some v \<or> answers s k v"
  shows "coherent_at s c'"
  using assms unfolding coherent_at_def by blast

lemma load_coherent:
  assumes "coherent_at s c" and "0 \<le> now" and "loader () = Inr x"
    and "type_assert T (to_any T x) = Some x" and iff: "\<And>v. answers s k v \<longleftrightarrow> v = to_any T x"
  shows "\<exists>c'. GetOrLoad (crr_wrapper r) T now k loader c = (Inr x, c') \<and> coherent_at s c'"
proof (cases "view c now k")
  case None
  have inv: "cinv c" using assms(1) by (simp add: coherent_at_def)
  let ?c = "set_in (wr_cache (crr_wrapper r)) now k (to_any T x) [WithExpiration (cfg_TTL (wr_config (crr_wrapper r)))] c"
  have "coherent_at s ?c"
    using assms(1) by (rule coherent_fewer)
      (use inv iff assms(2) in \<open>auto simp: cache.view_set holds_until_def split: if_splits\<close>)
  then show ?thesis
    using None assms(2,3) inv cache.get [OF inv, of now k]
    by (simp add: GetOrLoad_def store_loaded_def cache.Set_eq)
next
  case (Some v)
  then have "answers s k v" using assms(1) by (auto simp: coherent_at_def)
  then show ?thesis
    using assms Some cache.get [of c now k] by (auto simp: GetOrLoad_def decodeCachedValue_def coherent_at_def)
qed

lemma coherent_get_roles:
  assumes "inv s" and "coherent_at s c" and "0 \<le> now"
  shows "\<exists>c'. Cached_GetRoles r now (s, c) = (Inr (roles_of s), (s, c')) \<and> coherent_at s c'"
  using load_coherent [OF assms(2,3), of "\<lambda>_. GetRoles (crr_inner r) s" "roles_of s" "role_type r" "roles_key r"]
    repo.get_roles [OF assms(1)]
  by (auto simp: Cached_GetRoles_def role_type_def answers_simps)

lemma coherent_get_permissions:
  assumes "inv s" and "coherent_at s c" and "0 \<le> now" and "u \<in> entity_types"
  shows "\<exists>c'. Cached_GetPermissions r now i u (s, c) = (Inr (perms_of s i u), (s, c')) \<and> coherent_at s c'"
  using load_coherent [OF assms(2,3), of "\<lambda>_. GetPermissions (crr_inner r) s i u" "perms_of s i u"
      "permission_type r" "entity_key r ''permissions'' i u"] repo.get_permissions [OF assms(1)] assms(4)
  by (auto simp: Cached_GetPermissions_def permission_type_def answers_simps)

lemma coherent_get_roles_for:
  assumes "inv s" and "coherent_at s c" and "0 \<le> now" and "u \<in> entity_types"
  shows "\<exists>c'. Cached_GetRolesForEntity r now i u (s, c) = (Inr (assigned_of s i u), (s, c')) \<and> coherent_at s c'"
  using load_coherent [OF assms(2,3), of "\<lambda>_. GetRolesForEntity (crr_inner r) s i u" "assigned_of s i u"
      "restricted_type r" "entity_key r ''roles'' i u"] repo.get_roles_for [OF assms(1)] assms(4)
  by (auto simp: Cached_GetRolesForEntity_def restricted_type_def answers_simps)

lemma Invalidate_one:
  "cinv c \<Longrightarrow> InvalidateBestEffort (crr_wrapper r) [k] c = delete_in (wr_cache (crr_wrapper r)) k c"
  by (simp add: InvalidateBestEffort_def cache.Delete_eq)

lemma InvalidatePattern_clears:
  "InvalidatePatternBestEffort (crr_wrapper r) pat c = clear_in (wr_cache (crr_wrapper r)) c"
  by (simp add: InvalidatePatternBestEffort_def InvalidatePattern_def not_redis cache.Clear_eq)

lemma coherent_permission_write:
  assumes "coherent_at s c" and "frame perms_of s s' i u" and "roles_of s' = roles_of s"
    and "assigned_of s' = assigned_of s"
  shows "coherent_at s' (invalidatePermissionCache r i u c)"
  using assms by (auto simp: invalidatePermissionCache_def coherent_at_def Invalidate_one cache.view_delete
      answers_def frame_def split: if_splits) metis+

lemma coherent_entity_write:
  assumes "coherent_at s c" and "frame assigned_of s s' i u" and "roles_of s' = roles_of s"
    and "perms_of s' = perms_of s"
  shows "coherent_at s' (invalidateEntityCache r i u c)"
  using assms by (auto simp: invalidateEntityCache_def coherent_at_def Invalidate_one cache.view_delete
      answers_def frame_def split: if_splits) metis+

lemma coherent_entity_invalidate: "coherent_at s c \<Longrightarrow> coherent_at s (invalidateEntityCache r i u c)"
  by (rule coherent_entity_write [of s]) (simp_all add: frame_def)

lemma coherent_role_write: "coherent_at s' (invalidateRoleCache r c)"
  by (simp add: invalidateRoleCache_def InvalidatePattern_clears coherent_at_def)

lemma coherent_delete:
  assumes "coherent_at s c"
  shows "coherent_at s (delete_in (wr_cache (crr_wrapper r)) k c)"
  using assms by (auto simp: coherent_at_def cache.view_delete split: if_splits)

end

context cached_rbac
begin

lemma cached_step_ok:
  assumes "cached_step r ok m (s, c) st'" and "inv s" and "coherent_at s c" and "room s (m + n)"
  shows "inv (fst st') \<and> coherent_at (fst st') (snd st') \<and> room (fst st') n"
  using assms(1)
proof cases
  case (get_roles now)
  then show ?thesis using coherent_get_roles [OF assms(2,3), of now] assms(2,4) by auto
next
  case (get_permissions now t i)
  then show ?thesis using coherent_get_permissions [OF assms(2,3), of now t i] assms(2,4) by auto
next
  case (get_roles_for now t i)
  then show ?thesis using coherent_get_roles_for [OF assms(2,3), of now t i] assms(2,4) by auto
next
  case (save_role role)
  then show ?thesis
    using role_saved [OF assms(2), of role] assms(4) coherent_role_write by (auto simp: Cached_SaveRole_def)
next
  case (delete_role i)
  then show ?thesis
    using role_deleted [OF assms(2), of i] assms(4)
    by (auto simp: Cached_DeleteRole_def after_write_def coherent_entity_invalidate coherent_role_write)
next
  case (assign t roles i)
  have "RestrictedRole_Role ` set roles \<subseteq> set (roles_of s)"
    using assign(4) repo.get_roles [OF assms(2)] by auto
  then show ?thesis
    using repo.assign [OF assms(2), of roles n i t] assign assms(3,4) coherent_entity_write
    by (fastforce simp: Cached_AssignRolesForEntity_def after_write_def)
next
  case (clear_roles t i)
  then show ?thesis
    using repo.clear [OF assms(2), of i t] assms(3,4) coherent_entity_write
    by (fastforce simp: Cached_ClearRolesForEntity_def after_write_def)
next
  case (allow t abls i)
  then show ?thesis
    using repo.allow [OF assms(2), of abls n i t] assms(3,4) coherent_permission_write
    by (fastforce simp: Cached_Allow_def after_write_def)
next
  case (forbid t abls i)
  then show ?thesis
    using repo.forbid [OF assms(2), of abls n i t] assms(3,4) coherent_permission_write
    by (fastforce simp: Cached_Forbid_def after_write_def)
next
  case (revoke t i abls)
  then show ?thesis
    using repo.revoke [OF assms(2), of i t abls] assms(3,4) coherent_permission_write
    by (fastforce simp: Cached_Revoke_def after_write_def)
next
  case (other_set now k v opts)
  then show ?thesis
    using assms coherent_fewer [OF assms(3), of "set_in (wr_cache (crr_wrapper r)) now k v opts c"]
    by (auto simp: coherent_at_def cache.Set_eq cache.view_set answers_foreign split: if_splits)
next
  case (other_delete k)
  then show ?thesis using assms coherent_delete by (auto simp: delete_in_def)
next
  case (other_pull now k)
  then show ?thesis
    using assms cache.inv_pull [of c now k] cache.view_pull [of c now k]
    by (auto simp: coherent_at_def split: if_splits)
next
  case other_clear
  then show ?thesis using assms by (auto simp: coherent_at_def cache.Clear_eq)
qed

lemma cached_run_ok:
  assumes "cached_run r ok m st st'" and "inv (fst st)" and "coherent_at (fst st) (snd st)" and "room (fst st) (m + n)"
  shows "inv (fst st') \<and> coherent_at (fst st') (snd st') \<and> room (fst st') n"
  using assms
proof (induction arbitrary: n rule: cached_run.induct)
  case (start st)
  then show ?case by simp
next
  case (more m st st1 k st2)
  then have "inv (fst st1) \<and> coherent_at (fst st1) (snd st1) \<and> room (fst st1) (k + n)"
    using more.IH [of "k + n"] by (simp add: add.assoc)
  then show ?case using cached_step_ok [of k "fst st1" "snd st1" st2 n] more.hyps(2) by simp
qed

lemma reads_transparent:
  assumes "cached_run r ok m (s0, c0) (s, c)" and "inv s0" and "cinv c0" and "\<And>t k. view c0 t k = None" and "room s0 m"
  shows "0 \<le> now \<Longrightarrow> fst (Cached_GetRoles r now (s, c)) = GetRoles (crr_inner r) s"
    and "0 \<le> now \<Longrightarrow> u \<in> entity_types \<Longrightarrow>
      fst (Cached_GetPermissions r now i u (s, c)) = GetPermissions (crr_inner r) s i u"
    and "0 \<le> now \<Longrightarrow> u \<in> entity_types \<Longrightarrow>
      fst (Cached_GetRolesForEntity r now i u (s, c)) = GetRolesForEntity (crr_inner r) s i u"
proof -
  have "coherent_at s0 c0" using assms(3,4) by (simp add: coherent_at_def)
  then have ok: "inv s" "coherent_at s c"
    using cached_run_ok [OF assms(1), of 0] assms(2,5) by simp_all
  show "0 \<le> now \<Longrightarrow> fst (Cached_GetRoles r now (s, c)) = GetRoles (crr_inner r) s"
    using coherent_get_roles [OF ok, of now] repo.get_roles [OF ok(1)] by auto
  show "0 \<le> now \<Longrightarrow> u \<in> entity_types \<Longrightarrow>
      fst (Cached_GetPermissions r now i u (s, c)) = GetPermissions (crr_inner r) s i u"
    using coherent_get_permissions [OF ok, of now u i] repo.get_permissions [OF ok(1)] by auto
  show "0 \<le> now \<Longrightarrow> u \<in> entity_types \<Longrightarrow>
      fst (Cached_GetRolesForEntity r now i u (s, c)) = GetRolesForEntity (crr_inner r) s i u"
    using coherent_get_roles_for [OF ok, of now u i] repo.get_roles_for [OF ok(1)] by auto
qed

end

section \<open>The cached in-memory repository\<close>

lemma SaveRole_wf:
  assumes "rbac_wf s" and "saveable role s"
  shows "\<exists>role' s'. SaveRole inmemory_roles role s = (Inr role', s') \<and> rbac_wf s' \<and>
    (\<forall>n. rbac_room s n \<longrightarrow> rbac_room s' n)"
proof -
  let ?next = "rr_nextRoleID s + 1"
  let ?role = "if Role_ID role = 0 then role\<lparr>Role_ID := id_of_counter ?next\<rparr> else role"
  let ?s = "(if Role_ID role = 0 then s\<lparr>rr_nextRoleID := ?next\<rparr> else s)
    \<lparr>rr_roles := AList.update (Role_ID ?role) ?role (rr_roles s)\<rparr>"
  have "unat (rr_nextRoleID s) \<le> unat (rr_nextRoleID ?s) \<and> unat (Role_ID ?role) \<le> unat (rr_nextRoleID ?s)"
  proof (cases "Role_ID role = 0")
    case True
    then have "unat ?next = Suc (unat (rr_nextRoleID s))"
      using counter_room_Suc [of "rr_nextRoleID s"] assms(2) by (auto simp: saveable_def)
    then show ?thesis using True by (simp add: unat_id_of_counter)
  next
    case False
    then show ?thesis using assms by (auto simp: saveable_def rbac_wf_def)
  qed
  then have "\<forall>(k, v) \<in> set (rr_roles ?s). Role_ID v = k \<and> unat k \<le> unat (rr_nextRoleID ?s)"
    using assms(1) by (auto simp: rbac_wf_def dest!: set_alist_update)
  moreover have "\<forall>(k, v) \<in> set (rr_assignedRoles s). AssignedRole_RoleID v \<in> set (keys (rr_roles ?s))"
    using assms(1) by (auto simp: rbac_wf_def dom_update)
  ultimately have "rbac_wf ?s"
    using assms(1) unfolding rbac_wf_def by auto
  then show ?thesis
    by (cases "Role_ID role = 0") (simp_all add: inmemory_roles_def RBACRepository_SaveRole_def Let_def rbac_room_def)
qed

lemma DeleteRole_wf:
  assumes "rbac_wf s"
  shows "\<exists>s'. DeleteRole inmemory_roles i s = (None, s') \<and> rbac_wf s' \<and> (\<forall>n. rbac_room s n \<longrightarrow> rbac_room s' n)"
  using assms
  by (auto simp: inmemory_roles_def RBACRepository_DeleteRole_def rbac_wf_def rbac_room_def image_iff) fastforce

text \<open>The panel's repository: the in-memory store behind the in-memory cache.\<close>

abbreviation panel_rbac ::
    "duration \<Rightarrow> hash \<Rightarrow> (any \<Rightarrow> Role list option) \<Rightarrow> (any \<Rightarrow> Permission list option) \<Rightarrow>
     (any \<Rightarrow> RestrictedRole list option) \<Rightarrow> (RBACRepository, InMemory) CachedRBACRepository" where
  "panel_rbac \<equiv> NewCachedRBACRepository inmemory_repository inmemory_roles inmemory_cache None"

lemma panel_simps [simp]:
  "crr_inner (panel_rbac ttl hash j1 j2 j3) = inmemory_repository"
  "crr_roles (panel_rbac ttl hash j1 j2 j3) = inmemory_roles"
  "wr_cache (crr_wrapper (panel_rbac ttl hash j1 j2 j3)) = inmemory_cache"
  "wr_redis (crr_wrapper (panel_rbac ttl hash j1 j2 j3)) = None"
  "crr_keyBuilder (panel_rbac ttl hash j1 j2 j3) = ''rbac''"
  "crr_hash (panel_rbac ttl hash j1 j2 j3) = hash"
  by (simp_all add: NewCachedRBACRepository_def Let_def)

lemma inmemory_reads:
  "GetRoles inmemory_repository = RBACRepository_GetRoles"
  "GetPermissions inmemory_repository = RBACRepository_GetPermissions"
  "GetRolesForEntity inmemory_repository = RBACRepository_GetRolesForEntity"
  by (simp_all add: inmemory_repository_def)

lemma panel_cached:
  assumes "inj_on hash rbac_params"
  shows "cached_rbac (panel_rbac ttl hash j1 j2 j3) rbac_wf rbac_room roles_in perms_in assigned_in
    im_wf im_view saveable"
  using assms inmem.rbac_repository_axioms im.shared_cache_axioms SaveRole_wf DeleteRole_wf
  by (simp add: cached_rbac_def cached_rbac_axioms_def)

text \<open>A hash that keeps the text of its parameter is free of collisions.\<close>

definition plain_hash :: hash where
  "plain_hash params = (case params of [ParamString s] \<Rightarrow> s | _ \<Rightarrow> [])"

lemma plain_hash_inj: "inj_on plain_hash rbac_params"
  by (auto simp: inj_on_def plain_hash_def rbac_params_def)

abbreviation plain_panel :: "(RBACRepository, InMemory) CachedRBACRepository" where
  "plain_panel \<equiv> panel_rbac 300000000000 plain_hash (\<lambda>_. None) (\<lambda>_. None) (\<lambda>_. None)"

interpretation plain: cached_rbac plain_panel rbac_wf rbac_room roles_in perms_in assigned_in im_wf im_view saveable
  by (rule panel_cached [OF plain_hash_inj])

definition console_ability :: Ability where
  "console_ability = CreateAbilityForEntity 1 ''game-server-console'' 5 EntityTypeServer"

definition warm_state :: "(RBACRepository, InMemory) cached_state" where
  "warm_state = snd (Cached_GetPermissions plain_panel 1 7 EntityTypeUser (NewRBACRepository, NewInMemory))"

definition granted_state :: "(RBACRepository, InMemory) cached_state" where
  "granted_state = snd (Cached_Allow plain_panel 7 EntityTypeUser [console_ability] warm_state)"

lemma granted_run: "cached_run plain_panel saveable 1 (NewRBACRepository, NewInMemory) granted_state"
proof -
  have "cached_run plain_panel saveable (0 + 0) (NewRBACRepository, NewInMemory) warm_state"
    unfolding warm_state_def
    by (rule cached_run.more [OF cached_run.start cached_step.get_permissions]) (simp_all add: entity_types_def)
  from cached_run.more [OF this cached_step.allow [of EntityTypeUser plain_panel saveable "[console_ability]" _ 7]]
  show ?thesis by (simp add: granted_state_def entity_types_def)
qed

text \<open>
  C16. The caching layer over the access-control repository is transparent: after any sequence of
  reads and writes through it, with other clients using the same cache in between, every read
  through the cache returns what the inner repository returns, provided the hash of the key
  parameters has no collision among the entities and no identifier counter wraps.
\<close>

theorem cached_reads_transparent:
  assumes "inj_on hash rbac_params"
    and "cached_run (panel_rbac ttl hash j1 j2 j3) saveable n (s0, NewInMemory) (s, c)"
    and "rbac_wf s0" and "rbac_room s0 n" and "0 \<le> now" and "t \<in> entity_types"
  shows "fst (Cached_GetRoles (panel_rbac ttl hash j1 j2 j3) now (s, c)) = RBACRepository_GetRoles s \<and>
    fst (Cached_GetPermissions (panel_rbac ttl hash j1 j2 j3) now i t (s, c)) = RBACRepository_GetPermissions s i t \<and>
    fst (Cached_GetRolesForEntity (panel_rbac ttl hash j1 j2 j3) now i t (s, c)) =
      RBACRepository_GetRolesForEntity s i t"
  using cached_rbac.reads_transparent [OF panel_cached [OF assms(1)] assms(2,3)] assms(4-6)
  by (simp add: inmemory_reads)

theorem cached_reads_transparent_witness:
  "fst (Cached_GetPermissions plain_panel 2 7 EntityTypeUser granted_state) =
     RBACRepository_GetPermissions (fst granted_state) 7 EntityTypeUser \<and>
   im_view (snd warm_state) 2 (entity_key plain_panel ''permissions'' 7 EntityTypeUser) = Some (AnyPermissions [])"
proof -
  have "rbac_room NewRBACRepository 1" by (simp add: rbac_room_def NewRBACRepository_def counter_room_def)
  then have "fst (Cached_GetPermissions plain_panel 2 7 EntityTypeUser granted_state) =
     RBACRepository_GetPermissions (fst granted_state) 7 EntityTypeUser"
    using cached_reads_transparent [OF plain_hash_inj, of _ _ _ _ 1 NewRBACRepository "fst granted_state" "snd granted_state" 2 EntityTypeUser 7]
      granted_run by (simp add: entity_types_def)
  moreover have "im_view (snd warm_state) 2 (entity_key plain_panel ''permissions'' 7 EntityTypeUser) = Some (AnyPermissions [])"
    by (simp add: warm_state_def Cached_GetPermissions_def GetOrLoad_def store_loaded_def inmemory_cache_def
        InMemory_Get_def InMemory_Set_def NewInMemory_def NewCachedRBACRepository_def Let_def inmemory_repository_def
        RBACRepository_GetPermissions_def NewRBACRepository_def permission_type_def im_view_def isExpired_def)
  ultimately show ?thesis ..
qed

lemma stored_is_read:
  assumes "im_wf c" and "0 \<le> now" and "now \<le> later" and "later \<le> now + ttl"
  shows "fst (Cached_GetPermissions (panel_rbac ttl hash j1 j2 j3) later i t
    (s, snd (store_loaded (crr_wrapper (panel_rbac ttl hash j1 j2 j3)) AnyPermissions now
      (entity_key (panel_rbac ttl hash j1 j2 j3) ''permissions'' i t) (Inr ps) c))) = Inr ps"
proof -
  let ?r = "panel_rbac ttl hash j1 j2 j3"
  let ?k = "entity_key ?r ''permissions'' i t"
  let ?c = "set_in inmemory_cache now ?k (AnyPermissions ps) [WithExpiration ttl] c"
  have ttl: "cfg_TTL (wr_config (crr_wrapper ?r)) = ttl"
    by (simp add: NewCachedRBACRepository_def Let_def)
  have "im_view ?c later ?k = Some (AnyPermissions ps)"
    using assms by (simp add: im.view_set holds_until_def)
  then have "Cache_Get inmemory_cache later ?k ?c = Inr (AnyPermissions ps)"
    using im.get [of ?c later ?k] assms by simp
  then show ?thesis
    using im.Set_eq [of c now ?k "AnyPermissions ps" "[WithExpiration ttl]"] assms(1,2)
    by (simp add: Cached_GetPermissions_def GetOrLoad_def store_loaded_def ttl decodeCachedValue_def permission_type_def)
qed

text \<open>
  C34. A load that overlaps a write leaves the old rows in the cache: when a reader has missed the
  cache and loaded the permissions, a revocation completes, and the reader then stores what it
  loaded, every read in the lifetime of the entry returns the permissions from before the
  revocation, the revoked ones included, although the store no longer has them.
\<close>

theorem revoked_rows_survive:
  assumes "rbac_wf s" and "im_wf c" and "0 \<le> now" and "now \<le> later" and "later \<le> now + ttl"
    and "r = panel_rbac ttl hash j1 j2 j3"
    and "Cached_Revoke r i t abls (s, c) = (None, (s', c'))"
    and "c'' = snd (store_loaded (crr_wrapper r) AnyPermissions now (entity_key r ''permissions'' i t)
      (RBACRepository_GetPermissions s i t) c')"
  shows "fst (Cached_GetPermissions r later i t (s', c'')) = RBACRepository_GetPermissions s i t \<and>
    RBACRepository_GetPermissions s' i t = Inr (filter (\<lambda>p. \<not> about abls p) (perms_in s i t))"
proof -
  have rows: "RBACRepository_GetPermissions s i t = Inr (perms_in s i t)" for s
    by (simp add: RBACRepository_GetPermissions_def perms_in_def)
  obtain s1 where s1: "Revoke inmemory_repository s i t abls = (None, s1)"
      "perms_in s1 i t = filter (\<lambda>p. \<not> about abls p) (perms_in s i t)"
    using inmem.revoke [OF assms(1), of i t abls] by blast
  then have s': "s' = s1" and c': "c' = invalidatePermissionCache r i t c"
    using assms(6,7) by (simp_all add: Cached_Revoke_def after_write_def)
  have "im_wf c'"
    using assms(2,6) by (simp add: c' invalidatePermissionCache_def InvalidateBestEffort_def im.Delete_eq)
  then show ?thesis
    using stored_is_read assms(3-6,8) s1 s' by (simp add: rows)
qed

theorem revoked_rows_survive_witness:
  "\<exists>s' c'. Cached_Revoke plain_panel 7 EntityTypeUser [console_ability] granted_state = (None, (s', c')) \<and>
     fst (Cached_GetPermissions plain_panel 60000000000 7 EntityTypeUser
       (s', snd (store_loaded (crr_wrapper plain_panel) AnyPermissions 3 (entity_key plain_panel ''permissions'' 7 EntityTypeUser)
         (RBACRepository_GetPermissions (fst granted_state) 7 EntityTypeUser) c'))) =
     RBACRepository_GetPermissions (fst granted_state) 7 EntityTypeUser"
proof -
  have "rbac_room NewRBACRepository 1" by (simp add: rbac_room_def NewRBACRepository_def counter_room_def)
  then have "rbac_wf (fst granted_state) \<and> plain.coherent_at (fst granted_state) (snd granted_state)"
    using plain.cached_run_ok [OF granted_run, of 0] by (simp add: plain.coherent_at_def)
  then have wf: "rbac_wf (fst granted_state)" "im_wf (snd granted_state)" by (simp_all add: plain.coherent_at_def)
  obtain s1 where s1: "Revoke inmemory_repository (fst granted_state) 7 EntityTypeUser [console_ability] = (None, s1)"
    using inmem.revoke [OF wf(1), of 7 EntityTypeUser "[console_ability]"] by blast
  let ?c = "invalidatePermissionCache plain_panel 7 EntityTypeUser (snd granted_state)"
  have "Cached_Revoke plain_panel 7 EntityTypeUser [console_ability] (fst granted_state, snd granted_state) = (None, (s1, ?c))"
    by (simp add: Cached_Revoke_def after_write_def s1)
  with revoked_rows_survive [OF wf, where now = 3 and later = 60000000000 and ttl = 300000000000 and hash = plain_hash
      and i = 7 and t = EntityTypeUser and abls = "[console_ability]" and s' = s1 and c' = ?c]
  show ?thesis by (intro exI [of _ s1] exI [of _ ?c]) simp
qed

end
