(* ===== verification/Login_Limiter.thy ===== *)
theory Login_Limiter
  imports Cached_RBAC User_Repository
begin

text \<open>
  The limiter of failed sign-ins, \<open>internal/api/middlewares/login_ratelimit.go\<close>, which wraps the
  sign-in routes and keeps its counters in the shared cache.

  A request body is modelled by how Go's JSON decoding sees it: the first value of the document and
  the text after it.  \<open>json.NewDecoder(body).Decode\<close> reads the first value and stops,
  \<open>json.Unmarshal\<close> also requires that only white space follows.  Bodies are within the 1 MiB the
  limiter reads.  The client's address is the result of \<open>audit.ClientIP\<close>; \<open>sha\<close> is
  \<open>pkgstrings.SHA256\<close>, the hexadecimal SHA-256.
\<close>

section \<open>Requests and replies\<close>

datatype 'a body = NoBody | EmptyBody | Malformed | Document 'a string

definition json_blank :: "string \<Rightarrow> bool" where
  "json_blank s \<longleftrightarrow> list_all (\<lambda>c. c \<in> {CHR '' '', CHR 0x09, CHR 0x0A, CHR 0x0D}) s"

definition json_Unmarshal :: "'a body \<Rightarrow> 'a option" where
  "json_Unmarshal b = (case b of Document v rest \<Rightarrow> if json_blank rest then Some v else None | _ \<Rightarrow> None)"

definition json_Decode :: "'a body \<Rightarrow> 'a option" where
  "json_Decode b = (case b of Document v rest \<Rightarrow> Some v | _ \<Rightarrow> None)"

text \<open>\<open>Responder.WriteError\<close> looks for a status along the chain of wrapped errors.\<close>

fun error_status :: "error \<Rightarrow> nat" where
  "error_status (HTTPError code _) = code"
| "error_status (WithMessage e _) = error_status e"
| "error_status _ = 500"

datatype 'a reply = Rejected error | Accepted 'a

definition reply_status :: "'a reply \<Rightarrow> nat" where
  "reply_status r = (case r of Rejected e \<Rightarrow> error_status e | Accepted _ \<Rightarrow> 200)"

section \<open>The middleware\<close>

definition minute :: duration where "minute = 60 * second"

definition defaultLoginRateLimitWindow :: duration where "defaultLoginRateLimitWindow = 15 * minute"
definition defaultLoginRateLimitMaxPerIP :: int where "defaultLoginRateLimitMaxPerIP = 20"
definition defaultLoginRateLimitMaxPerUsername :: int where "defaultLoginRateLimitMaxPerUsername = 5"
definition loginRateLimitKeyPrefix :: string where "loginRateLimitKeyPrefix = ''auth:login-fail:''"

definition errLoginRateLimitedByIP :: string where
  "errLoginRateLimitedByIP = ''too many failed login attempts from this client''"
definition errLoginRateLimitedByUsername :: string where
  "errLoginRateLimitedByUsername = ''too many failed login attempts for this account''"

record LoginRateLimitMiddleware =
  lm_window :: duration
  lm_maxPerIP :: int
  lm_maxPerUser :: int
  lm_clientIPHeader :: string
  lm_keyPrefix :: string

type_synonym LoginRateLimitOption = "LoginRateLimitMiddleware \<Rightarrow> LoginRateLimitMiddleware"

definition WithLoginRateLimitWindow :: "duration \<Rightarrow> LoginRateLimitOption" where
  "WithLoginRateLimitWindow d = (\<lambda>m. m\<lparr>lm_window := d\<rparr>)"
definition WithLoginRateLimitPerIP :: "int \<Rightarrow> LoginRateLimitOption" where
  "WithLoginRateLimitPerIP n = (\<lambda>m. m\<lparr>lm_maxPerIP := n\<rparr>)"
definition WithLoginRateLimitPerUsername :: "int \<Rightarrow> LoginRateLimitOption" where
  "WithLoginRateLimitPerUsername n = (\<lambda>m. m\<lparr>lm_maxPerUser := n\<rparr>)"
definition WithLoginRateLimitClientIPHeader :: "string \<Rightarrow> LoginRateLimitOption" where
  "WithLoginRateLimitClientIPHeader h = (\<lambda>m. m\<lparr>lm_clientIPHeader := h\<rparr>)"
definition WithLoginRateLimitKeyPrefix :: "string \<Rightarrow> LoginRateLimitOption" where
  "WithLoginRateLimitKeyPrefix pre = (\<lambda>m. if pre \<noteq> '''' then m\<lparr>lm_keyPrefix := pre\<rparr> else m)"

definition NewLoginRateLimitMiddleware :: "LoginRateLimitOption list \<Rightarrow> LoginRateLimitMiddleware" where
  "NewLoginRateLimitMiddleware opts =
     fold (\<lambda>opt m. opt m) opts
       \<lparr>lm_window = defaultLoginRateLimitWindow, lm_maxPerIP = defaultLoginRateLimitMaxPerIP,
        lm_maxPerUser = defaultLoginRateLimitMaxPerUsername, lm_clientIPHeader = '''',
        lm_keyPrefix = loginRateLimitKeyPrefix\<rparr>"

definition readCount :: "LoginRateLimitMiddleware \<Rightarrow> 'c Cache \<Rightarrow> time \<Rightarrow> string \<Rightarrow> 'c \<Rightarrow> int result" where
  "readCount m C now suf c =
     (case Cache_Get C now (lm_keyPrefix m @ suf) c of
        Inl e \<Rightarrow> if e = ErrNotFound then Inr 0 else Inl e
      | Inr raw \<Rightarrow>
         (case raw of AnyInt v \<Rightarrow> Inr v | AnyInt64 v \<Rightarrow> Inr v | AnyFloat64 v \<Rightarrow> Inr v | AnyNumber v \<Rightarrow> Inr v
          | _ \<Rightarrow> Inr 0))"

text \<open>\<open>count, _ := m.readCount(...)\<close>: on an error the count is zero.\<close>

definition count_or_zero :: "int result \<Rightarrow> int" where
  "count_or_zero r = (case r of Inl _ \<Rightarrow> 0 | Inr n \<Rightarrow> n)"

definition increment ::
    "LoginRateLimitMiddleware \<Rightarrow> 'c Cache \<Rightarrow> time \<Rightarrow> string \<Rightarrow> 'c \<Rightarrow> error option \<times> 'c" where
  "increment m C now suf c =
     (let count = count_or_zero (readCount m C now suf c)
      in Cache_Set C now (lm_keyPrefix m @ suf) (AnyInt (count + 1)) [WithExpiration (lm_window m)] c)"

definition user_suffix :: "(string \<Rightarrow> string) \<Rightarrow> string \<Rightarrow> string" where
  "user_suffix sha username = ''user:'' @ sha username"

definition ip_suffix :: "string \<Rightarrow> string" where
  "ip_suffix ip = ''ip:'' @ ip"

definition recordFailure ::
    "LoginRateLimitMiddleware \<Rightarrow> 'c Cache \<Rightarrow> (string \<Rightarrow> string) \<Rightarrow> time \<Rightarrow> string \<Rightarrow> string \<Rightarrow> 'c \<Rightarrow> 'c" where
  "recordFailure m C sha now ip username c =
     (let c1 = (if ip \<noteq> '''' then snd (increment m C now (ip_suffix ip) c) else c)
      in if username \<noteq> '''' then snd (increment m C now (user_suffix sha username) c1) else c1)"

definition shouldBlock ::
    "LoginRateLimitMiddleware \<Rightarrow> 'c Cache \<Rightarrow> (string \<Rightarrow> string) \<Rightarrow> time \<Rightarrow> string \<Rightarrow> string \<Rightarrow> 'c \<Rightarrow> (int \<times> string) option" where
  "shouldBlock m C sha now ip username c =
     (if ip \<noteq> '''' \<and> count_or_zero (readCount m C now (ip_suffix ip) c) \<ge> lm_maxPerIP m
      then Some (lm_window m div second, errLoginRateLimitedByIP)
      else if username \<noteq> '''' \<and> count_or_zero (readCount m C now (user_suffix sha username) c) \<ge> lm_maxPerUser m
      then Some (lm_window m div second, errLoginRateLimitedByUsername)
      else None)"

text \<open>\<open>peek v\<close> is the pair of the \<open>login\<close> and \<open>email\<close> fields of the document, empty when absent.\<close>

definition peekUsername :: "('a \<Rightarrow> string \<times> string) \<Rightarrow> 'a body \<Rightarrow> string" where
  "peekUsername peek b =
     (case json_Unmarshal b of
        None \<Rightarrow> ''''
      | Some v \<Rightarrow> if snd (peek v) \<noteq> '''' then ToLower (TrimSpace (snd (peek v)))
                  else ToLower (TrimSpace (fst (peek v))))"

definition Middleware ::
    "LoginRateLimitMiddleware \<Rightarrow> 'c Cache \<Rightarrow> (string \<Rightarrow> string) \<Rightarrow> ('a \<Rightarrow> string \<times> string) \<Rightarrow>
     ('a body \<Rightarrow> 'u \<times> 'c \<Rightarrow> 'r reply \<times> 'u \<times> 'c) \<Rightarrow> time \<Rightarrow> string \<Rightarrow> 'a body \<Rightarrow> 'u \<times> 'c \<Rightarrow> 'r reply \<times> 'u \<times> 'c" where
  "Middleware m C sha peek next now ip body st =
     (let username = peekUsername peek body
      in case shouldBlock m C sha now ip username (snd st) of
           Some (retryAfter, reason) \<Rightarrow> (Rejected (HTTPError 429 reason), st)
         | None \<Rightarrow>
            (case next body st of
               (reply, (u, c)) \<Rightarrow>
                 if reply_status reply = 401 then (reply, (u, recordFailure m C sha now ip username c))
                 else if reply_status reply = 200 \<and> username \<noteq> ''''
                 then (reply, (u, snd (Cache_Delete C (lm_keyPrefix m @ user_suffix sha username) c)))
                 else (reply, (u, c))))"

section \<open>Counting the failures let through\<close>

text \<open>
  The log of the requests the limiter let through, newest first.  The tally of an account or an
  address is the number of its failures in an unbroken series, one in which no two neighbours are
  further apart than the window, with the time of the last one; a success ends the series of an
  account.
\<close>

record attempt =
  at_ip :: string
  at_user :: string
  at_time :: time
  at_status :: nat

datatype mark = Bump | Reset | Skip

definition user_mark :: "string \<Rightarrow> attempt \<Rightarrow> mark" where
  "user_mark u a = (if at_user a \<noteq> u then Skip
     else if at_status a = 401 then Bump else if at_status a = 200 then Reset else Skip)"

definition ip_mark :: "string \<Rightarrow> attempt \<Rightarrow> mark" where
  "ip_mark i a = (if at_ip a = i \<and> at_status a = 401 then Bump else Skip)"

fun tally :: "duration \<Rightarrow> (attempt \<Rightarrow> mark) \<Rightarrow> attempt list \<Rightarrow> int \<times> time" where
  "tally w f [] = (0, 0)"
| "tally w f (a # older) =
     (case tally w f older of
        (n, l) \<Rightarrow>
         (case f a of
            Bump \<Rightarrow> (if 0 < n \<and> at_time a \<le> l + w then n + 1 else 1, at_time a)
          | Reset \<Rightarrow> (0, l)
          | Skip \<Rightarrow> (n, l)))"

text \<open>
  Runs: requests through the limiter, at times that do not go back, in between which other clients
  of the cache do as they like with keys outside the limiter's namespace.  What the wrapped handler
  may do is a set of functions, arbitrary but for that rule.
\<close>

inductive limiter_run ::
    "LoginRateLimitMiddleware \<Rightarrow> 'c Cache \<Rightarrow> (string \<Rightarrow> string) \<Rightarrow> ('a \<Rightarrow> string \<times> string) \<Rightarrow>
     ('c \<Rightarrow> bool) \<Rightarrow> ('c \<Rightarrow> time \<Rightarrow> string \<Rightarrow> any option) \<Rightarrow>
     ('a body \<Rightarrow> 'u \<times> 'c \<Rightarrow> 'r reply \<times> 'u \<times> 'c) set \<Rightarrow>
     time \<Rightarrow> attempt list \<Rightarrow> 'u \<times> 'c \<Rightarrow> bool" for m C sha peek ok view handlers where
  start: "ok c \<Longrightarrow> (\<And>t k. prefix (lm_keyPrefix m) k \<Longrightarrow> view c t k = None) \<Longrightarrow> 0 \<le> now \<Longrightarrow>
    limiter_run m C sha peek ok view handlers now [] (u, c)"
| other: "limiter_run m C sha peek ok view handlers now log (u, c) \<Longrightarrow> ok c' \<Longrightarrow>
    (\<And>t k. prefix (lm_keyPrefix m) k \<Longrightarrow> view c' t k = view c t k) \<Longrightarrow>
    limiter_run m C sha peek ok view handlers now log (u', c')"
| blocked: "limiter_run m C sha peek ok view handlers now log st \<Longrightarrow> now \<le> now' \<Longrightarrow> handler \<in> handlers \<Longrightarrow>
    shouldBlock m C sha now' ip (peekUsername peek body) (snd st) \<noteq> None \<Longrightarrow>
    limiter_run m C sha peek ok view handlers now' log (snd (Middleware m C sha peek handler now' ip body st))"
| request: "limiter_run m C sha peek ok view handlers now log (u, c) \<Longrightarrow> now \<le> now' \<Longrightarrow>
    shouldBlock m C sha now' ip (peekUsername peek body) c = None \<Longrightarrow>
    handler \<in> handlers \<Longrightarrow> handler body (u, c) = (reply, (u', c')) \<Longrightarrow> ok c' \<Longrightarrow>
    (\<And>t k. prefix (lm_keyPrefix m) k \<Longrightarrow> view c' t k = view c t k) \<Longrightarrow>
    limiter_run m C sha peek ok view handlers now'
      (\<lparr>at_ip = ip, at_user = peekUsername peek body, at_time = now', at_status = reply_status reply\<rparr> # log)
      (snd (Middleware m C sha peek handler now' ip body (u, c)))"

section \<open>The counters are the tallies\<close>

text \<open>What the cache holds for a tally: the count until the window after the last failure is over.\<close>

definition held :: "duration \<Rightarrow> int \<times> time \<Rightarrow> time \<Rightarrow> any option" where
  "held w p t = (if fst p = 0 \<or> snd p + w < t then None else Some (AnyInt (fst p)))"

lemma tally_nonneg: "0 \<le> fst (tally w f log)"
  by (induction log) (auto split: prod.splits mark.splits)

declare tally.simps(2) [simp del]

lemma tally_skip: "f a = Skip \<Longrightarrow> tally w f (a # log) = tally w f log"
  by (simp add: tally.simps(2) split: prod.split)

locale login_limiter = shared_cache C ok view
  for C :: "'c Cache" and ok view +
  fixes m :: LoginRateLimitMiddleware and sha :: "string \<Rightarrow> string" and peek :: "'a \<Rightarrow> string \<times> string"
    and names :: "string set"
  assumes window: "0 < lm_window m"
    and no_collision: "inj_on sha names"
begin

lemma readCount_view:
  "ok c \<Longrightarrow> view c now (lm_keyPrefix m @ suf) = held w p now \<Longrightarrow>
    count_or_zero (readCount m C now suf c) = (if held w p now = None then 0 else fst p)"
  by (auto simp: readCount_def get count_or_zero_def held_def)

lemma suffixes_differ [simp]:
  "user_suffix sha u \<noteq> ip_suffix i" "ip_suffix i \<noteq> user_suffix sha u"
  "u \<in> names \<Longrightarrow> v \<in> names \<Longrightarrow> user_suffix sha u = user_suffix sha v \<longleftrightarrow> u = v"
  "ip_suffix i = ip_suffix j \<longleftrightarrow> i = j"
  using no_collision by (auto simp: user_suffix_def ip_suffix_def inj_on_def)

definition counts :: "attempt list \<Rightarrow> time \<Rightarrow> 'c \<Rightarrow> bool" where
  "counts log now c \<longleftrightarrow> ok c \<and> 0 \<le> now \<and>
     (\<forall>u t. u \<in> names - {''''} \<longrightarrow> now \<le> t \<longrightarrow>
        view c t (lm_keyPrefix m @ user_suffix sha u) = held (lm_window m) (tally (lm_window m) (user_mark u) log) t) \<and>
     (\<forall>i t. i \<noteq> '''' \<longrightarrow> now \<le> t \<longrightarrow>
        view c t (lm_keyPrefix m @ ip_suffix i) = held (lm_window m) (tally (lm_window m) (ip_mark i) log) t)"

definition limited :: "attempt list \<Rightarrow> bool" where
  "limited log \<longleftrightarrow>
     (\<forall>u. u \<in> names - {''''} \<longrightarrow> fst (tally (lm_window m) (user_mark u) log) \<le> max 0 (lm_maxPerUser m)) \<and>
     (\<forall>i. i \<noteq> '''' \<longrightarrow> fst (tally (lm_window m) (ip_mark i) log) \<le> max 0 (lm_maxPerIP m))"

lemma increment_view:
  assumes "ok c" and "0 \<le> now" and "view c now (lm_keyPrefix m @ suf) = held (lm_window m) p now"
    and "p = tally (lm_window m) f log" and "f a = Bump" and "at_time a = now"
  shows "ok (snd (increment m C now suf c)) \<and>
    (\<forall>t k. view (snd (increment m C now suf c)) t k =
      (if k = lm_keyPrefix m @ suf then held (lm_window m) (tally (lm_window m) f (a # log)) t else view c t k))"
proof -
  have n: "count_or_zero (readCount m C now suf c) = (if held (lm_window m) p now = None then 0 else fst p)"
    using readCount_view assms(1,3) by blast
  have nn: "0 \<le> fst p" using assms(4) tally_nonneg by simp
  have t: "tally (lm_window m) f (a # log) = (count_or_zero (readCount m C now suf c) + 1, now)"
    using assms(4-6) nn by (auto simp: n held_def tally.simps(2) split: prod.splits)
  have "0 \<le> count_or_zero (readCount m C now suf c)" using n nn by simp
  then show ?thesis
    using assms(1,2) window
    by (auto simp: increment_def Let_def Set_eq view_set t held_def holds_until_def)
qed

end

context login_limiter
begin

lemma counts_fail:
  assumes "counts log now c" and "now \<le> now'" and "at_time a = now'" and "at_status a = 401" and "at_user a \<in> names"
  shows "counts (a # log) now' (recordFailure m C sha now' (at_ip a) (at_user a) c)"
proof -
  let ?w = "lm_window m"
  have ok: "ok c" "0 \<le> now'" using assms(1,2) by (auto simp: counts_def)
  define c1 where "c1 = (if at_ip a \<noteq> '''' then snd (increment m C now' (ip_suffix (at_ip a)) c) else c)"
  have c1: "ok c1 \<and> (\<forall>t k. view c1 t k = (if at_ip a \<noteq> '''' \<and> k = lm_keyPrefix m @ ip_suffix (at_ip a)
      then held ?w (tally ?w (ip_mark (at_ip a)) (a # log)) t else view c t k))"
  proof (cases "at_ip a = ''''")
    case True
    then show ?thesis using ok by (simp add: c1_def)
  next
    case False
    have "view c now' (lm_keyPrefix m @ ip_suffix (at_ip a)) = held ?w (tally ?w (ip_mark (at_ip a)) log) now'"
      using assms(1,2) False by (auto simp: counts_def)
    then show ?thesis
      using increment_view [OF ok, of "ip_suffix (at_ip a)" _ "ip_mark (at_ip a)" log a] assms(3,4) False
      by (simp add: c1_def ip_mark_def)
  qed
  define c2 where "c2 = (if at_user a \<noteq> '''' then snd (increment m C now' (user_suffix sha (at_user a)) c1) else c1)"
  have c2: "ok c2 \<and> (\<forall>t k. view c2 t k = (if at_user a \<noteq> '''' \<and> k = lm_keyPrefix m @ user_suffix sha (at_user a)
      then held ?w (tally ?w (user_mark (at_user a)) (a # log)) t else view c1 t k))"
  proof (cases "at_user a = ''''")
    case True
    then show ?thesis using c1 by (simp add: c2_def)
  next
    case False
    have "view c1 now' (lm_keyPrefix m @ user_suffix sha (at_user a)) = held ?w (tally ?w (user_mark (at_user a)) log) now'"
      using assms(1,2,5) False c1 by (auto simp: counts_def)
    then show ?thesis
      using increment_view [of c1 now' "user_suffix sha (at_user a)" _ "user_mark (at_user a)" log a] c1 ok assms(3,4) False
      by (simp add: c2_def user_mark_def)
  qed
  have "recordFailure m C sha now' (at_ip a) (at_user a) c = c2"
    by (simp add: recordFailure_def c1_def c2_def Let_def)
  moreover have "counts (a # log) now' c2"
    unfolding counts_def
  proof (intro conjI allI impI)
    fix u t assume u: "u \<in> names - {''''}" and t: "now' \<le> t"
    show "view c2 t (lm_keyPrefix m @ user_suffix sha u) = held ?w (tally ?w (user_mark u) (a # log)) t"
    proof (cases "u = at_user a")
      case False
      then have "tally ?w (user_mark u) (a # log) = tally ?w (user_mark u) log"
        by (intro tally_skip) (simp add: user_mark_def)
      then show ?thesis using c1 c2 u t False assms(1,2,5) by (auto simp: counts_def)
    qed (use c2 u in auto)
  next
    fix i :: string and t assume i: "i \<noteq> ''''" and t: "now' \<le> t"
    show "view c2 t (lm_keyPrefix m @ ip_suffix i) = held ?w (tally ?w (ip_mark i) (a # log)) t"
    proof (cases "i = at_ip a")
      case False
      then have "tally ?w (ip_mark i) (a # log) = tally ?w (ip_mark i) log"
        by (intro tally_skip) (simp add: ip_mark_def)
      then show ?thesis using c1 c2 i t False assms(1,2) by (auto simp: counts_def)
    qed (use c1 c2 i in auto)
  qed (use c2 ok in auto)
  ultimately show ?thesis by simp
qed

lemma counts_success:
  assumes "counts log now c" and "now \<le> now'" and "at_status a = 200" and "at_user a \<in> names" and "at_user a \<noteq> ''''"
  shows "counts (a # log) now' (delete_in C (lm_keyPrefix m @ user_suffix sha (at_user a)) c)"
proof -
  let ?w = "lm_window m"
  have reset: "fst (tally ?w (user_mark (at_user a)) (a # log)) = 0"
    using assms(3) by (simp add: user_mark_def tally.simps(2) split: prod.split)
  have user: "tally ?w (user_mark u) (a # log) = tally ?w (user_mark u) log" if "u \<noteq> at_user a" for u
    using that by (intro tally_skip) (simp add: user_mark_def)
  have ip: "tally ?w (ip_mark i) (a # log) = tally ?w (ip_mark i) log" for i
    using assms(3) by (intro tally_skip) (simp add: ip_mark_def)
  show ?thesis
    unfolding counts_def
  proof (intro conjI allI impI)
    fix u t assume u: "u \<in> names - {''''}" and t: "now' \<le> t"
    show "view (delete_in C (lm_keyPrefix m @ user_suffix sha (at_user a)) c) t (lm_keyPrefix m @ user_suffix sha u) =
        held ?w (tally ?w (user_mark u) (a # log)) t"
      using assms(1,2,4) u t reset user [of u]
      by (cases "u = at_user a") (auto simp: counts_def view_delete held_def)
  qed (use assms ip in \<open>auto simp: counts_def view_delete\<close>)
qed

lemma counts_other:
  assumes "counts log now c" and "now \<le> now'" and "at_status a \<noteq> 401" and "at_status a \<noteq> 200 \<or> at_user a = ''''"
  shows "counts (a # log) now' c"
proof -
  have "tally w (user_mark u) (a # log) = tally w (user_mark u) log" if "u \<noteq> ''''" for u w
    using that assms(3,4) by (intro tally_skip) (auto simp: user_mark_def)
  moreover have "tally w (ip_mark i) (a # log) = tally w (ip_mark i) log" for i w
    using assms(3) by (intro tally_skip) (simp add: ip_mark_def)
  ultimately show ?thesis using assms(1,2) by (auto simp: counts_def)
qed

end

context login_limiter
begin

lemma bump_bounded:
  assumes "view c now (lm_keyPrefix m @ suf) = held (lm_window m) (tally (lm_window m) f log) now" and "ok c"
    and "count_or_zero (readCount m C now suf c) < n" and "at_time a = now" and "f a = Bump"
  shows "fst (tally (lm_window m) f (a # log)) \<le> n"
  using assms readCount_view [OF assms(2,1)] tally_nonneg [of "lm_window m" f log]
  by (auto simp: tally.simps(2) held_def split: prod.splits if_splits)

lemma limited_step:
  assumes "counts log now c" and "limited log" and "now \<le> now'" and "shouldBlock m C sha now' (at_ip a) (at_user a) c = None"
    and "at_time a = now'" and "at_user a \<in> names"
  shows "limited (a # log)"
  unfolding limited_def
proof (intro conjI allI impI)
  fix u assume u: "u \<in> names - {''''}"
  have old: "fst (tally (lm_window m) (user_mark u) log) \<le> max 0 (lm_maxPerUser m)"
    using assms(2) u by (simp add: limited_def)
  show "fst (tally (lm_window m) (user_mark u) (a # log)) \<le> max 0 (lm_maxPerUser m)"
  proof (cases "user_mark u a")
    case Bump
    then have "u = at_user a" by (auto simp: user_mark_def split: if_splits)
    moreover have "count_or_zero (readCount m C now' (user_suffix sha (at_user a)) c) < lm_maxPerUser m"
      using assms(4) u \<open>u = at_user a\<close> by (auto simp: shouldBlock_def split: if_splits)
    ultimately show ?thesis
      using bump_bounded [of c now' "user_suffix sha u" "user_mark u" log "lm_maxPerUser m" a] assms(1,3,5) u Bump
      by (auto simp: counts_def)
  next
    case Reset
    then show ?thesis by (simp add: tally.simps(2) split: prod.split)
  next
    case Skip
    then show ?thesis using old by (simp add: tally_skip)
  qed
next
  fix i :: string assume i: "i \<noteq> ''''"
  have old: "fst (tally (lm_window m) (ip_mark i) log) \<le> max 0 (lm_maxPerIP m)"
    using assms(2) i by (simp add: limited_def)
  show "fst (tally (lm_window m) (ip_mark i) (a # log)) \<le> max 0 (lm_maxPerIP m)"
  proof (cases "ip_mark i a = Bump")
    case True
    then have "i = at_ip a" by (auto simp: ip_mark_def split: if_splits)
    moreover have "count_or_zero (readCount m C now' (ip_suffix (at_ip a)) c) < lm_maxPerIP m"
      using assms(4) i \<open>i = at_ip a\<close> by (auto simp: shouldBlock_def split: if_splits)
    ultimately show ?thesis
      using bump_bounded [of c now' "ip_suffix i" "ip_mark i" log "lm_maxPerIP m" a] assms(1,3,5) i True
      by (auto simp: counts_def)
  next
    case False
    then have "ip_mark i a = Skip" by (auto simp: ip_mark_def split: if_splits)
    then show ?thesis using old by (simp add: tally_skip)
  qed
qed

lemma counts_same:
  assumes "counts log now c" and "ok c'" and "\<And>t k. prefix (lm_keyPrefix m) k \<Longrightarrow> view c' t k = view c t k" and "now \<le> now'"
  shows "counts log now' c'"
  using assms by (auto simp: counts_def)

lemma limiter_run_ok:
  assumes "limiter_run m C sha peek ok view handlers now log st" and "at_user ` set log \<subseteq> names"
  shows "counts log now (snd st) \<and> limited log"
  using assms
proof (induction rule: limiter_run.induct)
  case (start c now u)
  then show ?case by (simp add: counts_def limited_def held_def)
next
  case (other now log u c c' u')
  then show ?case using counts_same [of log now c c' now] by auto
next
  case (blocked now log st now' handler ip body)
  then obtain b where "shouldBlock m C sha now' ip (peekUsername peek body) (snd st) = Some b" by blast
  then have "snd (Middleware m C sha peek handler now' ip body st) = st"
    by (cases b) (simp add: Middleware_def)
  then show ?case using blocked counts_same [of log now "snd st" "snd st" now'] by (auto simp: counts_def)
next
  case (request now log u c now' ip body handler reply u' c')
  let ?a = "\<lparr>at_ip = ip, at_user = peekUsername peek body, at_time = now', at_status = reply_status reply\<rparr>"
  have ih: "counts log now c" "limited log" and name: "peekUsername peek body \<in> names"
    using request by auto
  have c': "counts log now c'" using counts_same [OF ih(1) request.hyps(6,7)] by simp
  have "limited (?a # log)"
    using limited_step [OF ih(1,2) request.hyps(2), of ?a] request.hyps(3) name by simp
  moreover have "counts (?a # log) now' (snd (snd (Middleware m C sha peek handler now' ip body (u, c))))"
    using counts_fail [OF c' request.hyps(2), of ?a] counts_success [OF c' request.hyps(2), of ?a]
      counts_other [OF c' request.hyps(2), of ?a] name request.hyps(3,5)
    by (simp add: Middleware_def Let_def delete_in_def split del: if_split) (simp split: if_split)
  ultimately show ?case by simp
qed

end

section \<open>The limiter on the in-memory cache\<close>

lemma memory_limiter:
  "0 < lm_window m \<Longrightarrow> inj_on sha names \<Longrightarrow> login_limiter inmemory_cache im_wf im_view m sha names"
  using im.shared_cache_axioms by (simp add: login_limiter_def login_limiter_axioms_def)

interpretation plain_limiter: login_limiter inmemory_cache im_wf im_view "NewLoginRateLimitMiddleware []" id
    "\<lambda>_ :: unit. ('' Bob'', '''')" UNIV
  by (rule memory_limiter) (simp_all add: NewLoginRateLimitMiddleware_def defaultLoginRateLimitWindow_def
      minute_def second_def)

definition one_guess :: LoginRateLimitMiddleware where
  "one_guess = NewLoginRateLimitMiddleware [WithLoginRateLimitPerUsername 1]"

definition wrong_password :: "unit body \<Rightarrow> unit \<times> InMemory \<Rightarrow> unit reply \<times> unit \<times> InMemory" where
  "wrong_password body st = (Rejected (HTTPError 401 ''invalid credentials''), st)"

definition guess :: attempt where
  "guess = \<lparr>at_ip = ''10.0.0.1'', at_user = ''bob'', at_time = 1, at_status = 401\<rparr>"

definition guessed :: "unit \<times> InMemory" where
  "guessed = snd (Middleware one_guess inmemory_cache id (\<lambda>_. ('' Bob'', '''')) wrong_password 1 ''10.0.0.1''
     (Document () '''') ((), NewInMemory))"

lemmas limiter_defs = one_guess_def NewLoginRateLimitMiddleware_def WithLoginRateLimitPerUsername_def
  defaultLoginRateLimitWindow_def defaultLoginRateLimitMaxPerIP_def defaultLoginRateLimitMaxPerUsername_def
  loginRateLimitKeyPrefix_def minute_def second_def

lemma peek_bob: "peekUsername (\<lambda>_. ('' Bob'', '''')) (Document () '''') = ''bob''"
  by code_simp

lemma guessed_run:
  "limiter_run one_guess inmemory_cache id (\<lambda>_. ('' Bob'', '''')) im_wf im_view {wrong_password} 1 [guess] guessed"
proof -
  have "limiter_run one_guess inmemory_cache id (\<lambda>_. ('' Bob'', '''')) im_wf im_view {wrong_password} 0 [] ((), NewInMemory)"
    by (rule limiter_run.start) simp_all
  moreover have "shouldBlock one_guess inmemory_cache id 1 ''10.0.0.1'' (peekUsername (\<lambda>_. ('' Bob'', '''')) (Document () '''')) NewInMemory = None"
    by (simp add: shouldBlock_def readCount_def im.get count_or_zero_def limiter_defs)
  ultimately show ?thesis
    using limiter_run.request [of one_guess inmemory_cache id "\<lambda>_. ('' Bob'', '''')" im_wf im_view "{wrong_password}" 0 "[]"
        "()" NewInMemory 1 "''10.0.0.1''" "Document () ''''" wrong_password "Rejected (HTTPError 401 ''invalid credentials'')" "()" NewInMemory]
    by (simp add: wrong_password_def guess_def guessed_def peek_bob reply_status_def)
qed



end
