(* ===== verification/Sign_In.thy ===== *)
theory Sign_In
  imports Access_Tokens Login_Limiter
begin

text \<open>
  The ways into a session: the password login (\<open>internal/api/auth/login\<close>), the second factor
  (\<open>internal/api/auth/twofactorverify\<close>), the ticket exchange (\<open>internal/api/auth/ssoexchange\<close>) and the
  single-use tokens for URLs (\<open>internal/api/auth/shorttoken\<close> and \<open>processShortLivedToken\<close> of
  \<open>internal/api/middlewares/auth.go\<close>).

  A handler takes what it reads from outside as arguments: the time, the random secret it draws, the
  client's address, the body.  It returns its reply and the new state, the account store and the
  shared cache.  Audit records and logs are left out.  A handler that reads from the cache and writes
  to it later is composed of a part up to the read and a part after it, which is how two requests
  interleave.
\<close>

section \<open>What the handlers are built from\<close>

record 'u SignIn =
  si_users :: "'u Users"
  si_crypto :: Crypto
  si_activeCost :: int
  si_captcha :: "(string \<Rightarrow> string \<Rightarrow> error option) option"
  si_rbac :: "(uint \<Rightarrow> bool result) option"
  si_nudge :: "NudgeConfig option"
  si_GenerateTokenForUser :: "User \<Rightarrow> duration \<Rightarrow> string result"
  si_GenerateMFAEnrollmentToken :: "User \<Rightarrow> duration \<Rightarrow> string result"
  si_enrollmentTokenTTL :: duration

record loginResponse =
  lr_Token :: string
  lr_ExpiresIn :: int
  lr_User :: User
  lr_MFAEnrollmentRequired :: bool
  lr_MFANudge :: "View option"
  lr_RedirectTo :: string

datatype grant = LoginGrant loginResponse | ChallengeGrant string int string

definition hour :: duration where "hour = 3600 * second"
definition DefaultTokenDuration :: duration where "DefaultTokenDuration = 24 * hour"
definition RememberMeDuration :: duration where "RememberMeDuration = 7 * 24 * hour"
definition ChallengeTokenDuration :: duration where "ChallengeTokenDuration = 5 * minute"

section \<open>Password login\<close>

record loginInput =
  li_Login :: string
  li_Email :: string
  li_Password :: string
  li_Remember :: string
  li_Captcha :: string

definition ErrLoginIsRequired :: error where
  "ErrLoginIsRequired = HTTPError 422 ''login or email fields are required''"
definition ErrPasswordIsRequired :: error where
  "ErrPasswordIsRequired = HTTPError 422 ''password field is required''"

definition loginInput_Validate :: "loginInput \<Rightarrow> error option" where
  "loginInput_Validate l =
     (if li_Login l = '''' \<and> li_Email l = '''' then Some ErrLoginIsRequired
      else if li_Password l = '''' then Some ErrPasswordIsRequired else None)"

definition RememberMe :: "loginInput \<Rightarrow> bool" where
  "RememberMe l \<longleftrightarrow> li_Remember l = ''on'' \<or> li_Remember l = ''true''"

definition IsEmailLogin :: "loginInput \<Rightarrow> bool" where
  "IsEmailLogin l \<longleftrightarrow> li_Email l \<noteq> ''''"

definition newLoginResponseFromUser :: "User \<Rightarrow> string \<Rightarrow> duration \<Rightarrow> loginResponse" where
  "newLoginResponseFromUser user token expiresIn =
     \<lparr>lr_Token = token, lr_ExpiresIn = expiresIn div second, lr_User = user, lr_MFAEnrollmentRequired = False,
      lr_MFANudge = None, lr_RedirectTo = ''''\<rparr>"

definition EvaluateMFANudge ::
    "'u SignIn \<Rightarrow> time \<Rightarrow> User \<Rightarrow> bool \<Rightarrow> 'u \<Rightarrow> View option \<times> User \<times> 'u" where
  "EvaluateMFANudge h now user isAdmin u =
     (case si_nudge h of
        None \<Rightarrow> (None, user, u)
      | Some cfg \<Rightarrow>
          let r = Compute cfg now \<lparr>snap_TwoFactorEnabled = User_TwoFactorEnabled user, snap_IsAdmin = isAdmin,
                    snap_FirstShownAt = MFAFirstShownAt user, snap_SnoozedUntil = MFASnoozedUntil user\<rparr>
          in if rec_PersistFirstShown r
             then (case Users_Save (si_users h) now (SetMFAFirstShownAt (Some (rec_FirstShownAt r)) user) u of
                     (_, user', u') \<Rightarrow> (NewView r, user', u'))
             else (NewView r, user, u))"

definition evaluateMFANudge :: "'u SignIn \<Rightarrow> time \<Rightarrow> User \<Rightarrow> 'u \<Rightarrow> View option \<times> User \<times> 'u" where
  "evaluateMFANudge h now user u =
     (case si_rbac h of
        None \<Rightarrow> (None, user, u)
      | Some can \<Rightarrow>
         (case can (User_ID user) of
            Inl _ \<Rightarrow> (None, user, u)
          | Inr isAdmin \<Rightarrow> EvaluateMFANudge h now user isAdmin u))"

definition issueMFAEnrollmentSession :: "'u SignIn \<Rightarrow> User \<Rightarrow> View option \<Rightarrow> grant reply" where
  "issueMFAEnrollmentSession h user nudge =
     (case si_GenerateMFAEnrollmentToken h user (si_enrollmentTokenTTL h) of
        Inl e \<Rightarrow> Rejected (WithMessage e ''failed to generate enrollment token'')
      | Inr token \<Rightarrow> Accepted (LoginGrant
          ((newLoginResponseFromUser user token (si_enrollmentTokenTTL h))
             \<lparr>lr_MFAEnrollmentRequired := True, lr_MFANudge := nudge\<rparr>)))"

definition completeLogin :: "'u SignIn \<Rightarrow> time \<Rightarrow> User \<Rightarrow> bool \<Rightarrow> 'u \<Rightarrow> grant reply \<times> 'u" where
  "completeLogin h now user remember u =
     (let duration = (if remember then RememberMeDuration else DefaultTokenDuration)
      in case evaluateMFANudge h now user u of
           (nudge, user', u') \<Rightarrow>
             if (case nudge of None \<Rightarrow> False | Some v \<Rightarrow> view_HardFail v)
             then (issueMFAEnrollmentSession h user' nudge, u')
             else case si_GenerateTokenForUser h user' duration of
                    Inl e \<Rightarrow> (Rejected (WithMessage e ''failed to generate token''), u')
                  | Inr token \<Rightarrow> (Accepted (LoginGrant
                      ((newLoginResponseFromUser user' token DefaultTokenDuration)\<lparr>lr_MFANudge := nudge\<rparr>)), u'))"

definition rehashPasswordIfNeeded ::
    "'u SignIn \<Rightarrow> time \<Rightarrow> User \<Rightarrow> string \<Rightarrow> bool \<Rightarrow> 'u \<Rightarrow> User \<times> 'u" where
  "rehashPasswordIfNeeded h now user password needsRehash u =
     (let rehash = needsRehash \<or>
            (case cr_bcrypt_Cost (si_crypto h) (User_Password user) of
               Inl _ \<Rightarrow> False | Inr storedCost \<Rightarrow> storedCost < ActiveBcryptCost (si_activeCost h))
      in if \<not> rehash then (user, u)
         else case HashPassword (si_crypto h) (si_activeCost h) password of
                Inl _ \<Rightarrow> (user, u)
              | Inr upgradedHash \<Rightarrow>
                  snd (Users_Save (si_users h) now (user\<lparr>User_Password := upgradedHash\<rparr>) u))"

definition IssueTwoFactorChallenge ::
    "Crypto \<Rightarrow> 'c Cache \<Rightarrow> time \<Rightarrow> string result \<Rightarrow> User \<Rightarrow> bool \<Rightarrow> 'c \<Rightarrow> string result \<times> 'c" where
  "IssueTwoFactorChallenge cr C now random user remember c =
     (case random of
        Inl e \<Rightarrow> (Inl (HTTPError 500 ''failed to generate challenge token''), c)
      | Inr secret \<Rightarrow>
          let challengeToken = ChallengeTokenPrefix @ secret;
              payload = \<lparr>Challenge_UserID = User_ID user, Challenge_Login = User_Login user,
                Challenge_Email = User_Email user, Challenge_Remember = remember, Challenge_Attempts = 0,
                Challenge_ExpiresAt = Unix (now + ChallengeTokenDuration)\<rparr>
          in case Cache_Set C now (ChallengeCacheKey cr challengeToken) (AnyJSON (Challenge payload))
                    [WithExpiration ChallengeTokenDuration] c of
               (Some e, c') \<Rightarrow> (Inl (HTTPError 500 ''failed to store challenge''), c')
             | (None, c') \<Rightarrow> (Inr challengeToken, c'))"

definition issueTwoFactorChallenge ::
    "'u SignIn \<Rightarrow> 'c Cache \<Rightarrow> time \<Rightarrow> string result \<Rightarrow> User \<Rightarrow> bool \<Rightarrow> 'c \<Rightarrow> grant reply \<times> 'c" where
  "issueTwoFactorChallenge h C now random user remember c =
     (case IssueTwoFactorChallenge (si_crypto h) C now random user remember c of
        (Inl e, c') \<Rightarrow> (Rejected e, c')
      | (Inr token, c') \<Rightarrow> (Accepted (ChallengeGrant token (ChallengeTokenDuration div second) ''''), c'))"

definition login_filter :: "loginInput \<Rightarrow> FindUser" where
  "login_filter input =
     (if IsEmailLogin input then \<lparr>FindUser_IDs = [], FindUser_Logins = [], FindUser_Emails = [li_Email input]\<rparr>
      else \<lparr>FindUser_IDs = [], FindUser_Logins = [li_Login input], FindUser_Emails = []\<rparr>)"

definition login_ServeHTTP ::
    "'u SignIn \<Rightarrow> 'c Cache \<Rightarrow> time \<Rightarrow> string result \<Rightarrow> string \<Rightarrow> loginInput body \<Rightarrow> 'u \<times> 'c \<Rightarrow> grant reply \<times> 'u \<times> 'c" where
  "login_ServeHTTP h C now random ip body st =
     (case json_Decode body of
        None \<Rightarrow> (Rejected (HTTPError 400 ''invalid request body''), st)
      | Some input \<Rightarrow>
         (case loginInput_Validate input of
            Some e \<Rightarrow> (Rejected e, st)
          | None \<Rightarrow>
             (case (case si_captcha h of None \<Rightarrow> None | Some verify \<Rightarrow> verify (li_Captcha input) ip) of
                Some e \<Rightarrow> (Rejected e, st)
              | None \<Rightarrow>
                 (case Users_Find (si_users h) (Some (login_filter input)) [] one_user (fst st) of
                    Inl e \<Rightarrow> (Rejected (WithMessage e ''failed to find user''), st)
                  | Inr [] \<Rightarrow> (Rejected (HTTPError 401 ''invalid credentials''), st)
                  | Inr (user # _) \<Rightarrow>
                     (case VerifyPassword (si_crypto h) (User_Password user) (li_Password input) of
                        Inl _ \<Rightarrow> (Rejected (HTTPError 401 ''invalid credentials''), st)
                      | Inr needsRehash \<Rightarrow>
                         (case rehashPasswordIfNeeded h now user (li_Password input) needsRehash (fst st) of
                            (user', u') \<Rightarrow>
                              if User_TwoFactorEnabled user'
                              then (case issueTwoFactorChallenge h C now random user' (RememberMe input) (snd st) of
                                      (reply, c') \<Rightarrow> (reply, u', c'))
                              else (case completeLogin h now user' (RememberMe input) u' of
                                      (reply, u'') \<Rightarrow> (reply, u'', snd st))))))))"

text \<open>The login route is the handler behind the limiter.\<close>

definition login_peek :: "loginInput \<Rightarrow> string \<times> string" where
  "login_peek input = (li_Login input, li_Email input)"

definition login_route ::
    "LoginRateLimitMiddleware \<Rightarrow> 'u SignIn \<Rightarrow> 'c Cache \<Rightarrow> time \<Rightarrow> string result \<Rightarrow> string \<Rightarrow> loginInput body \<Rightarrow>
     'u \<times> 'c \<Rightarrow> grant reply \<times> 'u \<times> 'c" where
  "login_route m h C now random ip body st =
     Middleware m C (cr_SHA256 (si_crypto h)) login_peek (login_ServeHTTP h C now random ip) now ip body st"

section \<open>Second factor\<close>

definition maxVerifyAttempts :: int where "maxVerifyAttempts = 5"

definition errInvalidChallenge :: error where
  "errInvalidChallenge = HTTPError 401 ''invalid or expired challenge''"
definition errInvalidCode :: error where
  "errInvalidCode = HTTPError 401 ''invalid verification code''"

record verifyInput =
  vi_ChallengeToken :: string
  vi_Code :: string

text \<open>\<open>Validate\<close> trims the fields in place.\<close>

definition verifyInput_Validate :: "verifyInput \<Rightarrow> verifyInput result" where
  "verifyInput_Validate i =
     (let i' = \<lparr>vi_ChallengeToken = TrimSpace (vi_ChallengeToken i), vi_Code = TrimSpace (vi_Code i)\<rparr>
      in if vi_ChallengeToken i' = '''' then Inl (HTTPError 422 ''challenge_token field is required'')
         else if vi_Code i' = '''' then Inl (HTTPError 422 ''code field is required'')
         else Inr i')"

definition loadChallenge :: "'c Cache \<Rightarrow> time \<Rightarrow> string \<Rightarrow> 'c \<Rightarrow> ChallengePayload result \<times> 'c" where
  "loadChallenge C now key c =
     (case Cache_Get C now key c of
        Inl e \<Rightarrow> (Inl (if e = ErrNotFound then errInvalidChallenge else WithMessage e ''failed to load challenge''), c)
      | Inr raw \<Rightarrow>
         (case UnmarshalChallengePayload raw of
            Inl _ \<Rightarrow> (Inl errInvalidChallenge, snd (Cache_Delete C key c))
          | Inr payload \<Rightarrow> (Inr payload, c)))"

definition verify_loadUser ::
    "'u SignIn \<Rightarrow> 'c Cache \<Rightarrow> string \<Rightarrow> ChallengePayload \<Rightarrow> 'u \<times> 'c \<Rightarrow> User result \<times> 'c" where
  "verify_loadUser h C key payload st =
     (case Users_Find (si_users h) (Some (FindUserByIDs [Challenge_UserID payload])) [] one_user (fst st) of
        Inl e \<Rightarrow> (Inl (WithMessage e ''failed to load user for challenge''), snd st)
      | Inr [] \<Rightarrow> (Inl errInvalidChallenge, snd (Cache_Delete C key (snd st)))
      | Inr (user # _) \<Rightarrow>
          if \<not> User_TwoFactorEnabled user \<or> User_TwoFactorSecret user = None
          then (Inl errInvalidChallenge, snd (Cache_Delete C key (snd st)))
          else (Inr user, snd st))"

definition verify_recovery :: "'u SignIn \<Rightarrow> time \<Rightarrow> User \<Rightarrow> string \<Rightarrow> 'u \<Rightarrow> (string \<times> bool) result \<times> User \<times> 'u" where
  "verify_recovery h now user code u =
     (case User_TwoFactorRecoveryCodes user of
        None \<Rightarrow> (Inr ('''', False), user, u)
      | Some codes \<Rightarrow>
         (case ConsumeRecoveryCode (si_crypto h) codes code of
            (updated, used) \<Rightarrow>
              if used
              then (case Users_Save (si_users h) now (user\<lparr>User_TwoFactorRecoveryCodes := Some updated\<rparr>) u of
                      (Some e, user', u') \<Rightarrow> (Inl (WithMessage e ''failed to persist recovery code use''), user', u')
                    | (None, user', u') \<Rightarrow> (Inr (''recovery_code'', True), user', u'))
              else (Inr ('''', False), user, u)))"

definition verifyCode :: "'u SignIn \<Rightarrow> time \<Rightarrow> User \<Rightarrow> string \<Rightarrow> 'u \<Rightarrow> (string \<times> bool) result \<times> User \<times> 'u" where
  "verifyCode h now user code u =
     (case User_TwoFactorSecret user of
        None \<Rightarrow> verify_recovery h now user code u
      | Some secret \<Rightarrow>
         (case ValidateTOTP (si_crypto h) now secret code (User_TwoFactorLastUsedStep user) of
            Inl e \<Rightarrow> (Inl e, user, u)
          | Inr (valid, step) \<Rightarrow>
              if valid
              then (case Users_Save (si_users h) now (user\<lparr>User_TwoFactorLastUsedStep := Some step\<rparr>) u of
                      (Some e, user', u') \<Rightarrow> (Inl (WithMessage e ''failed to persist totp step''), user', u')
                    | (None, user', u') \<Rightarrow> (Inr (''totp'', True), user', u'))
              else verify_recovery h now user code u))"

definition handleFailedAttempt :: "'c Cache \<Rightarrow> time \<Rightarrow> string \<Rightarrow> ChallengePayload \<Rightarrow> 'c \<Rightarrow> 'c" where
  "handleFailedAttempt C now key payload c =
     (let remaining = Challenge_ExpiresAt payload - Unix now
      in if remaining \<le> 0 then snd (Cache_Delete C key c)
         else let payload' = payload\<lparr>Challenge_Attempts := Challenge_Attempts payload + 1\<rparr>
              in if Challenge_Attempts payload' \<ge> maxVerifyAttempts then snd (Cache_Delete C key c)
                 else snd (Cache_Set C now key (AnyJSON (Challenge payload')) [WithExpiration (remaining * second)] c))"

text \<open>The part after the challenge is loaded.\<close>

definition verify_finish ::
    "'u SignIn \<Rightarrow> 'c Cache \<Rightarrow> time \<Rightarrow> string \<Rightarrow> ChallengePayload \<Rightarrow> string \<Rightarrow> 'u \<times> 'c \<Rightarrow> grant reply \<times> 'u \<times> 'c" where
  "verify_finish h C now key payload code st =
     (case verify_loadUser h C key payload st of
        (Inl e, c) \<Rightarrow> (Rejected e, fst st, c)
      | (Inr user, c) \<Rightarrow>
         (case verifyCode h now user code (fst st) of
            (Inl e, user', u') \<Rightarrow> (Rejected (WithMessage e ''failed to verify code''), u', c)
          | (Inr (method, verified), user', u') \<Rightarrow>
              if \<not> verified then (Rejected errInvalidCode, u', handleFailedAttempt C now key payload c)
              else case Cache_Delete C key c of
                     (Some e, c') \<Rightarrow> (Rejected (WithMessage e ''failed to consume challenge''), u', c')
                   | (None, c') \<Rightarrow>
                       let duration = (if Challenge_Remember payload then RememberMeDuration else DefaultTokenDuration)
                       in case si_GenerateTokenForUser h user' duration of
                            Inl e \<Rightarrow> (Rejected (WithMessage e ''failed to generate token''), u', c')
                          | Inr token \<Rightarrow> (Accepted (LoginGrant (newLoginResponseFromUser user' token duration)), u', c')))"

text \<open>The part up to the load: the key, the payload and the code the rest works with.\<close>

definition verify_begin ::
    "'u SignIn \<Rightarrow> 'c Cache \<Rightarrow> time \<Rightarrow> verifyInput body \<Rightarrow> 'c \<Rightarrow> (string \<times> ChallengePayload \<times> string) result \<times> 'c" where
  "verify_begin h C now body c =
     (case json_Decode body of
        None \<Rightarrow> (Inl (HTTPError 400 ''invalid request body''), c)
      | Some input0 \<Rightarrow>
         (case verifyInput_Validate input0 of
            Inl e \<Rightarrow> (Inl e, c)
          | Inr input \<Rightarrow>
              if \<not> IsChallengeToken (vi_ChallengeToken input) then (Inl errInvalidChallenge, c)
              else let key = ChallengeCacheKey (si_crypto h) (vi_ChallengeToken input)
                   in case loadChallenge C now key c of
                        (Inl e, c') \<Rightarrow> (Inl e, c')
                      | (Inr payload, c') \<Rightarrow> (Inr (key, payload, vi_Code input), c')))"

definition verify_ServeHTTP ::
    "'u SignIn \<Rightarrow> 'c Cache \<Rightarrow> time \<Rightarrow> verifyInput body \<Rightarrow> 'u \<times> 'c \<Rightarrow> grant reply \<times> 'u \<times> 'c" where
  "verify_ServeHTTP h C now body st =
     (case verify_begin h C now body (snd st) of
        (Inl e, c) \<Rightarrow> (Rejected e, fst st, c)
      | (Inr (key, payload, code), c) \<Rightarrow> verify_finish h C now key payload code (fst st, c))"

section \<open>Ticket exchange\<close>

definition errInvalidTicket :: error where
  "errInvalidTicket = HTTPError 401 ''invalid or expired ticket''"

definition exchange_Validate :: "string \<Rightarrow> error option" where
  "exchange_Validate ticket = (if ticket = '''' then Some (HTTPError 422 ''ticket is required'') else None)"

definition consumeTicket ::
    "'u SignIn \<Rightarrow> 'c Cache \<Rightarrow> time \<Rightarrow> string \<Rightarrow> string \<Rightarrow> 'c \<Rightarrow> SSOTicketPayload result \<times> 'c" where
  "consumeTicket h C now ip ticket c =
     (if \<not> IsSSOTicket ticket then (Inl errInvalidTicket, c)
      else case Cache_Pull C now (SSOTicketCacheKey (si_crypto h) ticket) c of
             (Inl e, c') \<Rightarrow> (Inl (if e = ErrNotFound then errInvalidTicket else WithMessage e ''failed to consume ticket''), c')
           | (Inr raw, c') \<Rightarrow>
              (case UnmarshalSSOTicketPayload raw of
                 Inl _ \<Rightarrow> (Inl errInvalidTicket, c')
               | Inr payload \<Rightarrow>
                   if Ticket_ExpiresAt payload \<le> 0 \<or> Unix now > Ticket_ExpiresAt payload then (Inl errInvalidTicket, c')
                   else if Ticket_ClientIP payload \<noteq> '''' \<and> Ticket_ClientIP payload \<noteq> ip then (Inl errInvalidTicket, c')
                   else (Inr payload, c')))"

definition exchange_loadUser :: "'u SignIn \<Rightarrow> uint \<Rightarrow> 'u \<Rightarrow> User result" where
  "exchange_loadUser h userID u =
     (case Users_Find (si_users h) (Some (FindUserByIDs [userID])) [] one_user u of
        Inl e \<Rightarrow> Inl (WithMessage e ''failed to load user'')
      | Inr [] \<Rightarrow> Inl errInvalidTicket
      | Inr (user # _) \<Rightarrow> Inr user)"

definition with_redirect :: "string \<Rightarrow> grant reply \<Rightarrow> grant reply" where
  "with_redirect url r =
     (case r of
        Rejected e \<Rightarrow> Rejected e
      | Accepted (LoginGrant l) \<Rightarrow> Accepted (LoginGrant (l\<lparr>lr_RedirectTo := url\<rparr>))
      | Accepted (ChallengeGrant t n _) \<Rightarrow> Accepted (ChallengeGrant t n url))"

definition exchange_ServeHTTP ::
    "'u SignIn \<Rightarrow> 'c Cache \<Rightarrow> time \<Rightarrow> string result \<Rightarrow> string \<Rightarrow> string body \<Rightarrow> 'u \<times> 'c \<Rightarrow> grant reply \<times> 'u \<times> 'c" where
  "exchange_ServeHTTP h C now random ip body st =
     (case json_Decode body of
        None \<Rightarrow> (Rejected (HTTPError 400 ''invalid request''), st)
      | Some ticket \<Rightarrow>
         (case exchange_Validate ticket of
            Some e \<Rightarrow> (Rejected e, st)
          | None \<Rightarrow>
             (case consumeTicket h C now ip ticket (snd st) of
                (Inl e, c) \<Rightarrow> (Rejected e, fst st, c)
              | (Inr payload, c) \<Rightarrow>
                 (case exchange_loadUser h (Ticket_UserID payload) (fst st) of
                    Inl e \<Rightarrow> (Rejected e, fst st, c)
                  | Inr user \<Rightarrow>
                     (case (case si_rbac h of None \<Rightarrow> Inl (Panic ''nil rbac'') | Some can \<Rightarrow> can (User_ID user)) of
                        Inl e \<Rightarrow> (Rejected (WithMessage e ''failed to check permissions''), fst st, c)
                      | Inr isAdmin \<Rightarrow>
                          if isAdmin \<and> Ticket_IssuerID payload \<noteq> User_ID user then (Rejected errInvalidTicket, fst st, c)
                          else if User_TwoFactorEnabled user
                          then (case issueTwoFactorChallenge h C now random user False c of
                                  (reply, c') \<Rightarrow> (with_redirect (Ticket_RedirectTo payload) reply, fst st, c'))
                          else
                           (case EvaluateMFANudge h now user isAdmin (fst st) of
                              (nudge, user', u') \<Rightarrow>
                                if (case nudge of None \<Rightarrow> False | Some v \<Rightarrow> view_HardFail v)
                                then (with_redirect (Ticket_RedirectTo payload) (issueMFAEnrollmentSession h user' nudge), u', c)
                                else case si_GenerateTokenForUser h user' DefaultTokenDuration of
                                       Inl e \<Rightarrow> (Rejected (WithMessage e ''failed to generate token''), u', c)
                                     | Inr token \<Rightarrow> (with_redirect (Ticket_RedirectTo payload) (Accepted (LoginGrant
                                         ((newLoginResponseFromUser user' token DefaultTokenDuration)\<lparr>lr_MFANudge := nudge\<rparr>))), u', c)))))))"

section \<open>Single-use tokens for URLs\<close>

definition maxTokenTTL :: duration where "maxTokenTTL = 10 * second"

definition shorttoken_ttl :: "duration \<Rightarrow> duration" where
  "shorttoken_ttl ttl = (if ttl \<le> 0 \<or> ttl > maxTokenTTL then maxTokenTTL else ttl)"

definition shorttoken_ServeHTTP ::
    "Crypto \<Rightarrow> 'c Cache \<Rightarrow> duration \<Rightarrow> time \<Rightarrow> string result \<Rightarrow> AuthSession option \<Rightarrow> 'c \<Rightarrow> (string \<times> int) reply \<times> 'c" where
  "shorttoken_ServeHTTP cr C ttl now random session c =
     (if \<not> IsAuthenticated session then (Rejected (HTTPError 401 ''user not authenticated''), c)
      else case random of
        Inl e \<Rightarrow> (Rejected (HTTPError 500 ''failed to generate token''), c)
      | Inr secret \<Rightarrow>
          let s = the session; user = the (session_User s); pat = the (session_Token s);
              token = ShortLivedTokenPrefix @ secret;
              payload = \<lparr>Short_UserID = User_ID user, Short_Login = User_Login user, Short_Email = User_Email user,
                Short_PATID = (if IsTokenSession session then PAT_ID pat else 0),
                Short_Abilities = (if IsTokenSession session
                  then (case PAT_Abilities pat of None \<Rightarrow> [] | Some abilities \<Rightarrow> abilities) else [])\<rparr>
          in case Cache_Set C now (ShortLivedCacheKey cr token) (AnyJSON (ShortLived payload))
                    [WithExpiration (shorttoken_ttl ttl)] c of
               (Some e, c') \<Rightarrow> (Rejected (HTTPError 500 ''failed to store token''), c')
             | (None, c') \<Rightarrow> (Accepted (token, shorttoken_ttl ttl div second), c'))"

text \<open>The read of the entry, and the rest: the deletion, whose error is logged, and the session.\<close>

definition shortlived_begin :: "Crypto \<Rightarrow> 'c Cache \<Rightarrow> time \<Rightarrow> string \<Rightarrow> 'c \<Rightarrow> any result" where
  "shortlived_begin cr C now token c =
     (case Cache_Get C now (ShortLivedCacheKey cr token) c of
        Inl e \<Rightarrow> Inl (if e = ErrNotFound then HTTPError 401 ''invalid or expired short-lived token''
                     else WithMessage e ''failed to load short-lived token from cache'')
      | Inr raw \<Rightarrow> Inr raw)"

definition shortlived_session :: "User \<Rightarrow> ShortLivedPayload \<Rightarrow> AuthSession" where
  "shortlived_session user payload =
     \<lparr>session_Login = User_Login user, session_Email = User_Email user, session_User = Some user,
      session_Token = (if Short_PATID payload \<noteq> 0
        then Some (no_token\<lparr>PAT_ID := Short_PATID payload, PAT_Abilities := Some (Short_Abilities payload)\<rparr>) else None),
      session_ShortLived = True, session_MFAEnrollmentOnly = False\<rparr>"

definition shortlived_finish ::
    "'u SignIn \<Rightarrow> 'c Cache \<Rightarrow> string \<Rightarrow> any \<Rightarrow> 'u \<times> 'c \<Rightarrow> AuthSession result \<times> 'c" where
  "shortlived_finish h C token raw st =
     (let c = snd (Cache_Delete C (ShortLivedCacheKey (si_crypto h) token) (snd st))
      in case UnmarshalShortLivedPayload raw of
           Inl _ \<Rightarrow> (Inl (HTTPError 401 ''invalid or expired short-lived token''), c)
         | Inr payload \<Rightarrow>
            (case Users_Find (si_users h) (Some (FindUserByIDs [Short_UserID payload])) [] one_user (fst st) of
               Inl e \<Rightarrow> (Inl (WithMessage e ''failed to load user for short-lived token''), c)
             | Inr [] \<Rightarrow> (Inl (HTTPError 401 ''user not found''), c)
             | Inr (user # _) \<Rightarrow> (Inr (shortlived_session user payload), c)))"

definition processShortLivedToken ::
    "'u SignIn \<Rightarrow> 'c Cache \<Rightarrow> time \<Rightarrow> string \<Rightarrow> 'u \<times> 'c \<Rightarrow> AuthSession result \<times> 'c" where
  "processShortLivedToken h C now token st =
     (case shortlived_begin (si_crypto h) C now token (snd st) of
        Inl e \<Rightarrow> (Inl e, snd st)
      | Inr raw \<Rightarrow> shortlived_finish h C token raw st)"

section \<open>Facts about the handlers\<close>

lemma peek_trailing: "\<not> json_blank rest \<Longrightarrow> peekUsername peek (Document input rest) = ''''"
  by (simp add: peekUsername_def json_Unmarshal_def)

lemma login_first_value:
  "login_ServeHTTP h C now random ip (Document input rest) st = login_ServeHTTP h C now random ip (Document input rest') st"
  by (simp add: login_ServeHTTP_def json_Decode_def)

lemma recordFailure_user_keys:
  assumes "im_wf c" and "0 \<le> now"
  shows "im_view (recordFailure m inmemory_cache sha now ip '''' c) t (lm_keyPrefix m @ user_suffix sha u) =
    im_view c t (lm_keyPrefix m @ user_suffix sha u)"
  using assms by (auto simp: recordFailure_def increment_def Let_def im.Set_eq im.view_set ip_suffix_def user_suffix_def)

lemma shouldBlock_empty:
  assumes "0 < lm_maxPerIP m" and "0 < lm_maxPerUser m" and "im_wf c" and "\<And>k. im_view c now k = None"
  shows "shouldBlock m inmemory_cache sha now ip username c = None"
  using assms by (simp add: shouldBlock_def readCount_def im.get count_or_zero_def)

text \<open>A rejected code leaves the accounts as they were, and the reply does not depend on the cache.\<close>

lemma verifyCode_rejected: "verifyCode h now user code u = (Inr (mth, False), user', u') \<Longrightarrow> user' = user \<and> u' = u"
  by (auto simp: verifyCode_def verify_recovery_def split: option.splits sum.splits prod.splits if_splits)

lemma verify_finish_rejected:
  assumes "fst (verify_finish h C now key payload code (u, c)) = Rejected errInvalidCode"
  shows "verify_finish h C now key payload code (u, c') =
    (Rejected errInvalidCode, u, handleFailedAttempt C now key payload c')"
proof -
  have ne: "errInvalidChallenge \<noteq> errInvalidCode" "\<And>e m. WithMessage e m \<noteq> errInvalidCode"
    by (simp_all add: errInvalidCode_def errInvalidChallenge_def)
  obtain user where user: "verify_loadUser h C key payload (u, c) = (Inr user, c)"
    using assms ne
    by (auto simp: verify_finish_def verify_loadUser_def split: sum.splits list.splits if_splits)
  then have user': "verify_loadUser h C key payload (u, c') = (Inr user, c')"
    by (auto simp: verify_loadUser_def split: sum.splits list.splits if_splits)
  have "\<exists>mth u' user'. verifyCode h now user code u = (Inr (mth, False), user', u')"
    using assms ne user
    by (auto simp: verify_finish_def Let_def split: sum.splits prod.splits if_splits option.splits)
  then obtain mth u' user'' where "verifyCode h now user code u = (Inr (mth, False), user'', u')" by blast
  then show ?thesis
    using verifyCode_rejected user' by (fastforce simp: verify_finish_def)
qed

section \<open>A small panel\<close>

definition plain_crypto :: Crypto where
  "plain_crypto = \<lparr>cr_bcrypt_Compare = (\<lambda>hash p. hash = p), cr_bcrypt_Generate = (\<lambda>p _. Inr p),
     cr_bcrypt_Cost = (\<lambda>_. Inr 10), cr_preHash = id, cr_SHA256 = id, cr_Decrypt = Inr,
     cr_GenerateCode = (\<lambda>secret step. Inr (secret @ decimal (nat step)))\<rparr>"

definition bob :: User where
  "bob = \<lparr>User_ID = 1, User_Login = ''bob'', User_Email = ''bob@example.com'', User_Password = ''hunter2'',
     User_RememberToken = None, User_Name = None, User_CreatedAt = None, User_UpdatedAt = None,
     User_TwoFactorEnabled = True, User_TwoFactorSecret = Some ''S'', User_TwoFactorRecoveryCodes = None,
     User_TwoFactorLastUsedStep = None, User_mfa_first_shown_at = None, User_mfa_snoozed_until = None,
     User_password_changed_at = None\<rparr>"

definition accounts :: UserRepository where
  "accounts = \<lparr>ur_users = [(1, bob)], ur_nextID = 1\<rparr>"

definition desk :: "UserRepository SignIn" where
  "desk = \<lparr>si_users = UserService inmemory_users, si_crypto = plain_crypto, si_activeCost = 0, si_captcha = None,
     si_rbac = None, si_nudge = None, si_GenerateTokenForUser = (\<lambda>u _. Inr (User_Login u)),
     si_GenerateMFAEnrollmentToken = (\<lambda>u _. Inr (User_Login u)), si_enrollmentTokenTTL = hour\<rparr>"

definition bob_guess :: loginInput where
  "bob_guess = \<lparr>li_Login = ''bob'', li_Email = '''', li_Password = ''123456'', li_Remember = '''', li_Captcha = ''''\<rparr>"

text \<open>The account of \<open>bob\<close> has used up its guesses.\<close>

definition locked_cache :: InMemory where
  "locked_cache = \<lparr>im_items = [(''auth:login-fail:user:bob'', \<lparr>item_value = AnyInt 5, item_expiration = 900000000001\<rparr>)]\<rparr>"

definition support_role :: Role where
  "support_role = \<lparr>Role_ID = 0, Role_Name = ''support'', Role_Title = None, Role_Level = None, Role_Scope = None,
     Role_CreatedAt = None, Role_UpdatedAt = None\<rparr>"

lemma accounts_wf: "ur_wf accounts"
  by (simp add: ur_wf_def accounts_def bob_def wf_map_def)

lemma bob_in: "user_in accounts 1 = Some bob"
  by (simp add: user_in_def accounts_def)

lemma locked_wf: "im_wf locked_cache"
  by (simp add: im_wf_def locked_cache_def wf_map_def)

lemma locked_view: "im_view locked_cache 2 k = (if k = ''auth:login-fail:user:bob'' then Some (AnyInt 5) else None)"
  by (simp add: im_view_def locked_cache_def isExpired_def)

lemma locked_blocks:
  "shouldBlock (NewLoginRateLimitMiddleware []) inmemory_cache id 2 ip name locked_cache =
     (if name = ''bob'' then Some (900, errLoginRateLimitedByUsername) else None)"
  by (simp add: shouldBlock_def readCount_def im.get locked_wf locked_view count_or_zero_def
      limiter_defs ip_suffix_def user_suffix_def)

lemma find_bob:
  "Users_Find (UserService inmemory_users) (Some \<lparr>FindUser_IDs = [], FindUser_Logins = [''bob''], FindUser_Emails = []\<rparr>) []
     one_user accounts = Inr [bob]"
proof -
  have "ToLower ''bob'' = ''bob''" by code_simp
  then show ?thesis
    by (simp add: UserService_def UserService_Find_def inmemory_users_def UserRepository_Find_def accounts_def user_matches_def
        sortUsers_def one_user_def applyPagination_one bob_def)
qed

lemma bob_guess_fails:
  "login_ServeHTTP desk inmemory_cache 2 random ip (Document bob_guess '''') (accounts, c) =
     (Rejected (HTTPError 401 ''invalid credentials''), accounts, c)"
  using find_bob
  by (simp add: login_ServeHTTP_def json_Decode_def loginInput_Validate_def bob_guess_def login_filter_def IsEmailLogin_def
      desk_def plain_crypto_def VerifyPassword_def bob_def)

section \<open>Properties\<close>

text \<open>
  C35. The account limit does not hold for a body with text after its JSON document: the limiter
  decodes the whole body, fails and takes the request to name no account, while the login handler
  decodes the first value and checks the password of that account.  However many failures the account
  has, a wrong guess sent this way is answered like any other, and no account's counter changes.
\<close>

theorem trailing_text_evades:
  assumes "\<not> json_blank rest" and "im_wf c" and "0 \<le> now"
    and "shouldBlock m inmemory_cache (cr_SHA256 (si_crypto h)) now ip '''' c = None"
    and "login_ServeHTTP h inmemory_cache now random ip (Document input '''') (u, c) = (Rejected (HTTPError 401 e), u, c)"
  shows "fst (login_route m h inmemory_cache now random ip (Document input rest) (u, c)) = Rejected (HTTPError 401 e) \<and>
    (\<forall>t username. im_view (snd (snd (login_route m h inmemory_cache now random ip (Document input rest) (u, c)))) t
         (lm_keyPrefix m @ user_suffix (cr_SHA256 (si_crypto h)) username) =
       im_view c t (lm_keyPrefix m @ user_suffix (cr_SHA256 (si_crypto h)) username))"
  using assms login_first_value [of h inmemory_cache now random ip input rest _ "''''"]
  by (simp add: login_route_def Middleware_def peek_trailing reply_status_def recordFailure_user_keys)

theorem trailing_text_evades_witness:
  "fst (login_route (NewLoginRateLimitMiddleware []) desk inmemory_cache 2 (Inr ''x'') ''10.0.0.1'' (Document bob_guess '''')
     (accounts, locked_cache)) = Rejected (HTTPError 429 errLoginRateLimitedByUsername) \<and>
   fst (login_route (NewLoginRateLimitMiddleware []) desk inmemory_cache 2 (Inr ''x'') ''10.0.0.1'' (Document bob_guess ''x'')
     (accounts, locked_cache)) = Rejected (HTTPError 401 ''invalid credentials'')"
proof -
  have name: "peekUsername login_peek (Document bob_guess '''') = ''bob''" by code_simp
  have sha: "cr_SHA256 (si_crypto desk) = id" by (simp add: desk_def plain_crypto_def)
  have "fst (login_route (NewLoginRateLimitMiddleware []) desk inmemory_cache 2 (Inr ''x'') ''10.0.0.1'' (Document bob_guess '''')
     (accounts, locked_cache)) = Rejected (HTTPError 429 errLoginRateLimitedByUsername)"
    by (simp add: login_route_def Middleware_def locked_blocks name sha)
  moreover have "\<not> json_blank ''x''" by (simp add: json_blank_def)
  ultimately show ?thesis
    using trailing_text_evades [OF _ locked_wf, of "''x''" 2 "NewLoginRateLimitMiddleware []" desk "''10.0.0.1''" "Inr ''x''"
        bob_guess accounts "''invalid credentials''"] bob_guess_fails [of "Inr ''x''" "''10.0.0.1''" locked_cache]
    by (simp add: locked_blocks sha)
qed

text \<open>
  Saving a role resets the limiter and destroys pending sign-ins: the caching layer of the
  access-control repository answers a pattern invalidation on a cache other than Redis by clearing
  the cache it shares with the sign-in code.  Afterwards no address and no account is limited, and
  every second-factor challenge, ticket and single-use token is gone.
\<close>

theorem role_save_resets_limiter:
  assumes "Cached_SaveRole (panel_rbac ttl hash j1 j2 j3) role (s, c) = (Inr role', (s', c'))" and "im_wf c"
    and "0 < lm_maxPerIP m" and "0 < lm_maxPerUser m"
  shows "shouldBlock m inmemory_cache sha now ip username c' = None \<and>
    fst (loadChallenge inmemory_cache now key c') = Inl errInvalidChallenge \<and>
    fst (consumeTicket h inmemory_cache now ip ticket c') = Inl errInvalidTicket \<and>
    fst (processShortLivedToken h inmemory_cache now token (u, c')) = Inl (HTTPError 401 ''invalid or expired short-lived token'')"
proof -
  have "c' = invalidateRoleCache (panel_rbac ttl hash j1 j2 j3) c"
    using assms(1) by (auto simp: Cached_SaveRole_def split: prod.splits sum.splits)
  then have empty: "im_wf c'" "\<And>t k. im_view c' t k = None"
    by (simp_all add: invalidateRoleCache_def InvalidatePatternBestEffort_def InvalidatePattern_def im.Clear_eq)
  have get: "Cache_Get inmemory_cache now k c' = Inl ErrNotFound" for k
    using empty by (simp add: im.get)
  obtain x where "Cache_Pull inmemory_cache now (SSOTicketCacheKey (si_crypto h) ticket) c' = (Inl ErrNotFound, x)"
    using im.Pull_eq [OF empty(1), of now] get by metis
  then have "fst (consumeTicket h inmemory_cache now ip ticket c') = Inl errInvalidTicket"
    by (simp add: consumeTicket_def)
  then show ?thesis
    using shouldBlock_empty [OF assms(3,4) empty(1)] empty(2)
    by (simp add: get loadChallenge_def processShortLivedToken_def shortlived_begin_def)
qed

theorem role_save_resets_limiter_witness:
  "\<exists>role' s' c'. Cached_SaveRole plain_panel support_role (NewRBACRepository, locked_cache) = (Inr role', (s', c')) \<and>
     shouldBlock (NewLoginRateLimitMiddleware []) inmemory_cache id 2 ''10.0.0.1'' ''bob'' locked_cache \<noteq> None \<and>
     shouldBlock (NewLoginRateLimitMiddleware []) inmemory_cache id 2 ''10.0.0.1'' ''bob'' c' = None"
proof -
  have "saveable support_role NewRBACRepository"
    by (simp add: saveable_def support_role_def NewRBACRepository_def counter_room_def)
  then obtain role' s' where "SaveRole inmemory_roles support_role NewRBACRepository = (Inr role', s')"
    using SaveRole_wf [OF rbac_wf_new] by blast
  then have save: "Cached_SaveRole plain_panel support_role (NewRBACRepository, locked_cache) =
      (Inr role', (s', invalidateRoleCache plain_panel locked_cache))"
    by (simp add: Cached_SaveRole_def)
  have "shouldBlock (NewLoginRateLimitMiddleware []) inmemory_cache id 2 ''10.0.0.1'' ''bob''
      (invalidateRoleCache plain_panel locked_cache) = None"
    by (rule role_save_resets_limiter [OF save locked_wf, THEN conjunct1]) (simp_all add: limiter_defs)
  with save show ?thesis by (auto simp: locked_blocks)
qed

end
