(* ===== verification/Auth_Middleware.thy ===== *)
theory Auth_Middleware
  imports Sign_In
begin

text \<open>
  Who a request is: the authentication middleware \<open>internal/api/middlewares/auth.go\<close>, the guards that
  run after it (\<open>IsAdminMiddleware\<close> there, \<open>personal_access.go\<close>, \<open>token_admin_guard.go\<close>,
  \<open>shorttoken_scope.go\<close>, \<open>mfa_enrollment_scope.go\<close>) and the handlers that end a credential or make one
  (\<open>internal/api/auth/logout\<close>, \<open>internal/api/tokens/posttoken\<close>, \<open>deletetoken\<close>).

  A handler takes the session of the request's context, \<open>None\<close> when there is none, and the state:
  accounts, personal access tokens and cache.  A middleware takes a handler to a handler, so that the
  chain of a route reads as in the router.  The signed tokens of \<open>pkg/auth/paseto.go\<close> and \<open>jwt.go\<close> are
  a parameter, \<open>am_ValidateToken\<close>, which returns the claims of a valid token.
\<close>

type_synonym ('u, 'p, 'c) panel = "'u \<times> 'p \<times> 'c"
type_synonym ('a, 's) handler = "AuthSession option \<Rightarrow> 's \<Rightarrow> 'a reply \<times> 's"

section \<open>Text\<close>

fun Split :: "char \<Rightarrow> string \<Rightarrow> string list" where
  "Split sep [] = [[]]"
| "Split sep (c # s) = (if c = sep then [] # Split sep s
     else case Split sep s of [] \<Rightarrow> [[c]] | w # ws \<Rightarrow> (c # w) # ws)"

definition IsNumeric :: "string \<Rightarrow> bool" where
  "IsNumeric s = (s \<noteq> [] \<and> list_all (\<lambda>c. 48 \<le> (of_char c :: nat) \<and> of_char c \<le> (57 :: nat)) s)"

definition decimal_value :: "string \<Rightarrow> int" where
  "decimal_value s = foldl (\<lambda>n c. 10 * n + (int (of_char c) - 48)) 0 s"

definition Atoi :: "string \<Rightarrow> int result" where
  "Atoi s =
     (let negative = (s \<noteq> [] \<and> hd s = CHR ''-'');
          digits = (if s \<noteq> [] \<and> (hd s = CHR ''-'' \<or> hd s = CHR ''+'') then tl s else s);
          n = (if negative then - decimal_value digits else decimal_value digits)
      in if \<not> IsNumeric digits then Inl (Errorf ''invalid syntax'')
         else if n < - (2 ^ 63) \<or> 2 ^ 63 \<le> n then Inl (Errorf ''value out of range'')
         else Inr n)"

section \<open>The middleware\<close>

datatype tokenType = tokenTypeUnknown | tokenTypePersonalAccess | tokenTypeUserAuth | tokenTypeShortLived
datatype tokenSource = tokenSourceUnknown | tokenSourceHeader | tokenSourceQuery | tokenSourceCookie

text \<open>The parts of a request that carry a credential; an absent header or parameter is empty text.\<close>

record request =
  req_Authorization :: string
  req_token :: string
  req_cookie :: "string option"

record Claims =
  claims_Subject :: "string result"
  claims_ExpirationTime :: "time option result"
  claims_Scope :: "string result"
  claims_IssuedAt :: "time option result"

definition ScopeMFAEnrollment :: string where "ScopeMFAEnrollment = ''mfa_enrollment''"

text \<open>\<open>am_cache\<close> is the cache of the short-lived tokens, which a test may leave \<open>nil\<close>; without
  \<open>am_revocation\<close> the denylist is \<open>NoopRevocation\<close>.\<close>

record ('u, 'p, 'c) AuthMiddleware =
  am_signin :: "'u SignIn"
  am_tokens :: "'p Tokens"
  am_cache :: "'c Cache option"
  am_revocation :: "'c Cache option"
  am_ValidateToken :: "time \<Rightarrow> string \<Rightarrow> Claims result"

abbreviation am_users :: "('u, 'p, 'c) AuthMiddleware \<Rightarrow> 'u Users" where
  "am_users m \<equiv> si_users (am_signin m)"

abbreviation am_crypto :: "('u, 'p, 'c) AuthMiddleware \<Rightarrow> Crypto" where
  "am_crypto m \<equiv> si_crypto (am_signin m)"

definition extractToken :: "request \<Rightarrow> string \<times> tokenSource" where
  "extractToken r =
     (let parts = Split (CHR '' '') (req_Authorization r)
      in if req_Authorization r \<noteq> '''' \<and> length parts = 2 \<and> ToLower (parts ! 0) = ''bearer'' then (parts ! 1, tokenSourceHeader)
         else if req_token r \<noteq> '''' then (req_token r, tokenSourceQuery)
         else case req_cookie r of
                Some v \<Rightarrow> if v \<noteq> '''' then (v, tokenSourceCookie) else ('''', tokenSourceUnknown)
              | None \<Rightarrow> ('''', tokenSourceUnknown))"

definition sourceAllowsTokenType :: "tokenSource \<Rightarrow> tokenType \<Rightarrow> bool" where
  "sourceAllowsTokenType source kind =
     (kind = tokenTypeUnknown \<or>
      (case source of
         tokenSourceHeader \<Rightarrow> True
       | tokenSourceQuery \<Rightarrow> kind = tokenTypeShortLived
       | tokenSourceCookie \<Rightarrow> kind = tokenTypeUserAuth \<or> kind = tokenTypeShortLived
       | tokenSourceUnknown \<Rightarrow> False))"

definition before_pipe :: "string \<Rightarrow> string" where
  "before_pipe token = takeWhile (\<lambda>c. c \<noteq> CHR ''|'') token"

definition detectTokenType :: "('u, 'p, 'c) AuthMiddleware \<Rightarrow> string \<Rightarrow> tokenType" where
  "detectTokenType m token =
     (if am_cache m \<noteq> None \<and> IsShortLivedToken token then tokenTypeShortLived
      else if prefix ''v4.local.'' token \<or> prefix ''v4.public.'' token \<or> prefix ''eyJ'' token then tokenTypeUserAuth
      else if CHR ''|'' \<in> set token \<and> before_pipe token \<noteq> '''' \<and> IsNumeric (before_pipe token) then tokenTypePersonalAccess
      else tokenTypeUnknown)"

definition IsRevoked :: "('u, 'p, 'c) AuthMiddleware \<Rightarrow> time \<Rightarrow> string \<Rightarrow> 'c \<Rightarrow> bool result" where
  "IsRevoked m now identifier c =
     (case am_revocation m of None \<Rightarrow> Inr False | Some C \<Rightarrow> CacheRevocation_IsRevoked C now identifier c)"

definition patRevocationIdentifier :: "uint \<Rightarrow> string" where
  "patRevocationIdentifier i = ''pat:'' @ decimal (unat i)"

definition rejectPATIfCreatedBeforePasswordChange :: "User \<Rightarrow> PersonalAccessToken \<Rightarrow> error option" where
  "rejectPATIfCreatedBeforePasswordChange user token =
     (case (PasswordChangedAt user, PAT_CreatedAt token) of
        (Some cutoff, Some created) \<Rightarrow> if created < cutoff then Some (HTTPError 401 ''invalid personal access token'') else None
      | _ \<Rightarrow> None)"

definition rejectIfIssuedBeforePasswordChange :: "User \<Rightarrow> Claims \<Rightarrow> error option" where
  "rejectIfIssuedBeforePasswordChange user claims =
     (case PasswordChangedAt user of
        None \<Rightarrow> None
      | Some cutoff \<Rightarrow>
         (case claims_IssuedAt claims of
            Inr (Some issuedAt) \<Rightarrow> if issuedAt < cutoff then Some (HTTPError 401 ''invalid or expired token'') else None
          | _ \<Rightarrow> None))"

definition processPersonalAccessToken ::
    "('u, 'p, 'c) AuthMiddleware \<Rightarrow> time \<Rightarrow> string \<Rightarrow> ('u, 'p, 'c) panel \<Rightarrow> AuthSession result" where
  "processPersonalAccessToken m now token st =
     (case st of (u, p, c) \<Rightarrow>
      if CHR ''|'' \<notin> set token then Inl (HTTPError 401 ''invalid personal access token format'')
      else let tokenPart = tl (dropWhile (\<lambda>c. c \<noteq> CHR ''|'') token)
      in case Atoi (before_pipe token) of
        Inl _ \<Rightarrow> Inl (HTTPError 401 ''invalid personal access token ID'')
      | Inr n \<Rightarrow>
         if n \<le> 0 then Inl (HTTPError 401 ''invalid personal access token ID'')
         else let i = (word_of_int n :: uint)
         in case Tokens_Find (am_tokens m) (Some (FindPersonalAccessTokenByIDs [i])) [] one_token p of
           Inl e \<Rightarrow> Inl (WithMessage e ''failed to load personal access token from repository'')
         | Inr [] \<Rightarrow> Inl (HTTPError 401 ''personal access token not found'')
         | Inr (dbToken # _) \<Rightarrow>
            (case IsRevoked m now (TokenIdentifier (am_crypto m) (patRevocationIdentifier i)) c of
               Inl e \<Rightarrow> Inl (WithMessage e ''failed to check pat revocation'')
             | Inr True \<Rightarrow> Inl (HTTPError 401 ''personal access token not found'')
             | Inr False \<Rightarrow>
                if PAT_Token dbToken \<noteq> cr_SHA256 (am_crypto m) tokenPart then Inl (HTTPError 401 ''invalid personal access token'')
                else if PAT_TokenableType dbToken \<noteq> EntityTypeUser then Inl (HTTPError 401 ''unsupported personal access token type'')
                else case Users_Find (am_users m) (Some (FindUserByIDs [PAT_TokenableID dbToken])) [] one_user u of
                  Inl e \<Rightarrow> Inl (WithMessage e ''failed to load user by personal access token'')
                | Inr [] \<Rightarrow> Inl (HTTPError 401 ''user not found for personal access token'')
                | Inr (user # _) \<Rightarrow>
                   (case rejectPATIfCreatedBeforePasswordChange user dbToken of
                      Some e \<Rightarrow> Inl e
                    | None \<Rightarrow> Inr \<lparr>session_Login = User_Login user, session_Email = User_Email user, session_User = Some user,
                        session_Token = Some dbToken, session_ShortLived = False, session_MFAEnrollmentOnly = False\<rparr>)))"

definition subject_prefix :: string where "subject_prefix = ''user:login:''"

definition processUserAuthToken ::
    "('u, 'p, 'c) AuthMiddleware \<Rightarrow> time \<Rightarrow> string \<Rightarrow> 'u \<Rightarrow> AuthSession result" where
  "processUserAuthToken m now token u =
     (case am_ValidateToken m now token of
        Inl _ \<Rightarrow> Inl (HTTPError 401 ''invalid or expired token'')
      | Inr claims \<Rightarrow>
         (case claims_Subject claims of
            Inl _ \<Rightarrow> Inl (HTTPError 401 ''invalid token subject'')
          | Inr subject \<Rightarrow>
             if \<not> prefix subject_prefix subject then Inl (HTTPError 401 ''invalid token subject'')
             else let login = TrimPrefix subject subject_prefix
             in if login = '''' then Inl (HTTPError 401 ''invalid token subject'')
             else case Users_Find (am_users m) (Some \<lparr>FindUser_IDs = [], FindUser_Logins = [login], FindUser_Emails = []\<rparr>) []
                    one_user u of
               Inl e \<Rightarrow> Inl (WithMessage e ''failed to load user by login from token'')
             | Inr [] \<Rightarrow> Inl (HTTPError 401 ''user not found'')
             | Inr (user # _) \<Rightarrow>
                (case rejectIfIssuedBeforePasswordChange user claims of
                   Some e \<Rightarrow> Inl e
                 | None \<Rightarrow> Inr \<lparr>session_Login = User_Login user, session_Email = User_Email user, session_User = Some user,
                     session_Token = None, session_ShortLived = False,
                     session_MFAEnrollmentOnly = (claims_Scope claims = Inr ScopeMFAEnrollment)\<rparr>)))"

definition process_token ::
    "('u, 'p, 'c) AuthMiddleware \<Rightarrow> time \<Rightarrow> tokenType \<Rightarrow> string \<Rightarrow> ('u, 'p, 'c) panel \<Rightarrow>
     AuthSession result \<times> ('u, 'p, 'c) panel" where
  "process_token m now kind token st =
     (case kind of
        tokenTypeUserAuth \<Rightarrow> (processUserAuthToken m now token (fst st), st)
      | tokenTypePersonalAccess \<Rightarrow> (processPersonalAccessToken m now token st, st)
      | tokenTypeShortLived \<Rightarrow>
         (case st of (u, p, c) \<Rightarrow>
          case processShortLivedToken (am_signin m) (the (am_cache m)) now token (u, c) of (r, c') \<Rightarrow> (r, u, p, c'))
      | tokenTypeUnknown \<Rightarrow> (Inl (HTTPError 401 ''invalid or expired token''), st))"

definition finishRejected :: "bool \<Rightarrow> string \<Rightarrow> ('a, 's) handler \<Rightarrow> ('a, 's) handler" where
  "finishRejected optional sentinel next ctx st =
     (if optional then next ctx st else (Rejected (HTTPError 401 sentinel), st))"

definition isOptionalUnauthorized :: "error \<Rightarrow> bool" where
  "isOptionalUnauthorized e \<longleftrightarrow> error_status e = 401"

definition auth_middleware ::
    "('u, 'p, 'c) AuthMiddleware \<Rightarrow> time \<Rightarrow> request \<Rightarrow> bool \<Rightarrow> ('a, ('u, 'p, 'c) panel) handler \<Rightarrow>
     ('a, ('u, 'p, 'c) panel) handler" where
  "auth_middleware m now r optional next ctx st =
     (case extractToken r of (token, source) \<Rightarrow>
      if token = '''' then finishRejected optional ''missing authentication token'' next ctx st
      else let kind = detectTokenType m token
      in if \<not> sourceAllowsTokenType source kind then finishRejected optional ''missing authentication token'' next ctx st
      else if kind = tokenTypeUnknown then (Rejected (HTTPError 401 ''invalid or expired token''), st)
      else case process_token m now kind token st of
        (Inl e, st') \<Rightarrow> if optional \<and> isOptionalUnauthorized e then next ctx st' else (Rejected e, st')
      | (Inr session, st') \<Rightarrow>
         (case IsRevoked m now (TokenIdentifier (am_crypto m) token) (snd (snd st')) of
            Inl e \<Rightarrow> (Rejected (WithMessage e ''failed to check token revocation''), st')
          | Inr True \<Rightarrow> finishRejected optional ''token has been revoked'' next ctx st'
          | Inr False \<Rightarrow> next (Some session) st'))"

section \<open>The guards\<close>

definition is_admin_middleware :: "(uint \<Rightarrow> bool result) \<Rightarrow> ('a, 's) handler \<Rightarrow> ('a, 's) handler" where
  "is_admin_middleware can next ctx st =
     (if \<not> IsAuthenticated ctx then (Rejected (HTTPError 401 ''user not authenticated''), st)
      else case can (User_ID (the (session_User (the ctx)))) of
        Inl e \<Rightarrow> (Rejected (HTTPError 500 ''failed to check admin status''), st)
      | Inr False \<Rightarrow> (Rejected (HTTPError 403 ''admin permissions required''), st)
      | Inr True \<Rightarrow> next ctx st)"

text \<open>A \<open>nil\<close> list of required abilities is the empty list; the router wraps no such route.\<close>

definition personal_access_middleware :: "PATAbility list \<Rightarrow> ('a, 's) handler \<Rightarrow> ('a, 's) handler" where
  "personal_access_middleware abilities next ctx st =
     (if \<not> IsTokenSession ctx then next ctx st
      else if abilities = [] then (Rejected (HTTPError 500 ''no abilities specified for this endpoint''), st)
      else case PAT_Abilities (the (session_Token (the ctx))) of
        None \<Rightarrow> (Rejected (HTTPError 403 ''token abilities are not configured''), st)
      | Some granted \<Rightarrow>
         if length granted < length abilities then (Rejected (HTTPError 403 ''insufficient token abilities''), st)
         else case find (\<lambda>ability. ability \<notin> set granted) abilities of
           Some ability \<Rightarrow> (Rejected (HTTPError 403 (''missing required ability: '' @ ability)), st)
         | None \<Rightarrow> next ctx st)"

definition token_admin_guard :: "('a, 's) handler \<Rightarrow> ('a, 's) handler" where
  "token_admin_guard next ctx st =
     (if IsTokenSession ctx then (Rejected (HTTPError 403 ''personal access tokens cannot access this administrative endpoint''), st)
      else next ctx st)"

definition short_lived_scope :: "bool \<Rightarrow> ('a, 's) handler \<Rightarrow> ('a, 's) handler" where
  "short_lived_scope allowShortLived next ctx st =
     (if ctx \<noteq> None \<and> session_ShortLived (the ctx) \<and> \<not> allowShortLived
      then (Rejected (HTTPError 403 ''short-lived token is not accepted on this endpoint''), st) else next ctx st)"

definition mfa_enrollment_scope :: "bool \<Rightarrow> bool \<Rightarrow> ('a, 's) handler \<Rightarrow> ('a, 's) handler" where
  "mfa_enrollment_scope enforce allowMFAEnrollment next ctx st =
     (if enforce \<and> ctx \<noteq> None \<and> session_MFAEnrollmentOnly (the ctx) \<and> \<not> allowMFAEnrollment
      then (Rejected (HTTPError 403 ''session is restricted to two-factor enrollment''), st) else next ctx st)"

section \<open>Ending a session\<close>

definition defaultRevocationTTL :: duration where "defaultRevocationTTL = 30 * 24 * hour"

definition revocationTTL :: "('u, 'p, 'c) AuthMiddleware \<Rightarrow> time \<Rightarrow> string \<Rightarrow> duration" where
  "revocationTTL m now bearer =
     (case am_ValidateToken m now bearer of
        Inl _ \<Rightarrow> defaultRevocationTTL
      | Inr claims \<Rightarrow>
         (case claims_ExpirationTime claims of
            Inr (Some exp) \<Rightarrow> if exp - now \<le> 0 then 0 else exp - now
          | _ \<Rightarrow> defaultRevocationTTL))"

definition extractBearerToken :: "request \<Rightarrow> string" where
  "extractBearerToken r =
     (let parts = Split (CHR '' '') (req_Authorization r)
      in if req_Authorization r \<noteq> '''' \<and> length parts = 2 \<and> ToLower (parts ! 0) = ''bearer'' then parts ! 1
         else if req_token r \<noteq> '''' then req_token r
         else case req_cookie r of Some v \<Rightarrow> v | None \<Rightarrow> '''')"

definition logout_ServeHTTP ::
    "('u, 'p, 'c) AuthMiddleware \<Rightarrow> 'c Cache \<Rightarrow> time \<Rightarrow> request \<Rightarrow> (unit, ('u, 'p, 'c) panel) handler" where
  "logout_ServeHTTP m C now r ctx st =
     (if \<not> IsAuthenticated ctx then (Rejected (HTTPError 401 ''user not authenticated''), st)
      else let bearer = extractBearerToken r
      in if bearer = '''' then (Accepted (), st)
      else case st of (u, p, c) \<Rightarrow>
        (case CacheRevocation_Revoke C now (TokenIdentifier (am_crypto m) bearer) (revocationTTL m now bearer) c of
           (Some e, c') \<Rightarrow> (Rejected (WithMessage e ''failed to revoke token''), u, p, c')
         | (None, c') \<Rightarrow> (Accepted (), u, p, c')))"

section \<open>Making and revoking personal access tokens\<close>

definition maxNameLength :: nat where "maxNameLength = 255"
definition maxAbilitiesCount :: nat where "maxAbilitiesCount = 100"

text \<open>\<open>CurrentPassword\<close> of the input is read nowhere and left out.\<close>

record tokenInput =
  ti_TokenName :: string
  ti_Abilities :: "string list option"

definition hasDuplicateAbilities :: "string list \<Rightarrow> bool" where
  "hasDuplicateAbilities abilities = (\<not> distinct abilities)"

definition tokenInput_Validate :: "tokenInput \<Rightarrow> error option" where
  "tokenInput_Validate i =
     (if ti_TokenName i = '''' then Some (HTTPError 422 ''name field is required'')
      else if length (ti_TokenName i) > maxNameLength then Some (HTTPError 422 ''name must not exceed 255 characters'')
      else case ti_Abilities i of
        None \<Rightarrow> Some (HTTPError 422 ''abilities field is required'')
      | Some abilities \<Rightarrow>
         if abilities = [] then Some (HTTPError 422 ''at least one ability must be provided'')
         else if length abilities > maxAbilitiesCount then Some (HTTPError 422 ''too many abilities provided (maximum 100)'')
         else if \<not> list_all ValidateAbility abilities then Some (HTTPError 422 ''invalid ability provided'')
         else if hasDuplicateAbilities abilities then Some (HTTPError 422 ''duplicate abilities are not allowed'')
         else None)"

definition validateAdminAbilities :: "(uint \<Rightarrow> bool result) \<Rightarrow> User \<Rightarrow> string list \<Rightarrow> error option" where
  "validateAdminAbilities can user abilities =
     (case can (User_ID user) of
        Inl e \<Rightarrow> Some (WithMessage e ''failed to check user permissions'')
      | Inr isAdmin \<Rightarrow>
         if \<not> isAdmin \<and> list_ex (\<lambda>ability. ability \<in> set GetAdminAbilities) abilities
         then Some (HTTPError 422 ''admin abilities require admin role'') else None)"

definition newTokenResponse :: "PersonalAccessToken \<Rightarrow> string \<Rightarrow> string" where
  "newTokenResponse token plainToken = decimal (unat (PAT_ID token)) @ ''|'' @ plainToken"

definition posttoken_ServeHTTP ::
    "('u, 'p, 'c) AuthMiddleware \<Rightarrow> (uint \<Rightarrow> bool result) \<Rightarrow> time \<Rightarrow> string result \<Rightarrow> tokenInput body \<Rightarrow>
     (string, ('u, 'p, 'c) panel) handler" where
  "posttoken_ServeHTTP m can now random b ctx st =
     (if \<not> IsAuthenticated ctx then (Rejected (HTTPError 401 ''user not authenticated''), st)
      else if IsTokenSession ctx then (Rejected (HTTPError 403 ''token sessions cannot create new tokens''), st)
      else case json_Decode b of
        None \<Rightarrow> (Rejected (HTTPError 400 ''invalid request body''), st)
      | Some input \<Rightarrow>
      (case tokenInput_Validate input of
        Some e \<Rightarrow> (Rejected e, st)
      | None \<Rightarrow>
      (case validateAdminAbilities can (the (session_User (the ctx))) (the (ti_Abilities input)) of
        Some e \<Rightarrow> (Rejected e, st)
      | None \<Rightarrow>
      (case random of
        Inl e \<Rightarrow> (Rejected (HTTPError 500 ''failed to generate token''), st)
      | Inr plainToken \<Rightarrow>
         let token = \<lparr>PAT_ID = 0, PAT_TokenableType = EntityTypeUser, PAT_TokenableID = User_ID (the (session_User (the ctx))),
               PAT_Name = ti_TokenName input, PAT_Token = cr_SHA256 (am_crypto m) plainToken,
               PAT_Abilities = Some (ParseAbilities (the (ti_Abilities input))), PAT_LastUsedAt = None,
               PAT_CreatedAt = Some now, PAT_UpdatedAt = Some now\<rparr>
         in case st of (u, p, c) \<Rightarrow>
           (case Tokens_Save (am_tokens m) now token p of
              (Some e, _, p') \<Rightarrow> (Rejected (HTTPError 500 ''failed to save token''), u, p', c)
            | (None, token', p') \<Rightarrow> (Accepted (newTokenResponse token' plainToken), u, p', c))))))"

definition patRevocationTTL :: duration where "patRevocationTTL = 365 * 24 * hour"

text \<open>The identifier in the path, \<open>None\<close> when it is not a number.  A failure to reach the denylist is
  logged and otherwise ignored.\<close>

definition deletetoken_ServeHTTP ::
    "('u, 'p, 'c) AuthMiddleware \<Rightarrow> 'c Cache \<Rightarrow> time \<Rightarrow> uint option \<Rightarrow> (unit, ('u, 'p, 'c) panel) handler" where
  "deletetoken_ServeHTTP m C now ident ctx st =
     (if \<not> IsAuthenticated ctx then (Rejected (HTTPError 401 ''user not authenticated''), st)
      else case ident of
        None \<Rightarrow> (Rejected (HTTPError 422 ''invalid token id''), st)
      | Some i \<Rightarrow>
      (case st of (u, p, c) \<Rightarrow>
      (case Tokens_Find (am_tokens m) (Some (FindPersonalAccessTokenByIDs [i])) [] None p of
        Inl e \<Rightarrow> (Rejected (WithMessage e ''failed to find token''), st)
      | Inr [] \<Rightarrow> (Rejected (HTTPError 404 ''token not found''), st)
      | Inr (token # _) \<Rightarrow>
         if PAT_TokenableID token \<noteq> User_ID (the (session_User (the ctx))) then (Rejected (HTTPError 404 ''token not found''), st)
         else case Tokens_Delete (am_tokens m) i p of
           (Some e, p') \<Rightarrow> (Rejected (WithMessage e ''failed to delete token''), u, p', c)
         | (None, p') \<Rightarrow>
            (Accepted (), u, p', snd (CacheRevocation_Revoke C now
               (TokenIdentifier (am_crypto m) (patRevocationIdentifier i)) patRevocationTTL c)))))"

end
