(* ===== verification/Profile.thy ===== *)
theory Profile
  imports Auth_Middleware
begin

text \<open>
  The account's own settings: the password policy (\<open>pkg/auth/policy.go\<close>, \<open>blocklist.go\<close>), the profile
  (\<open>internal/api/profile/getprofile\<close>, \<open>putprofile\<close>), and enrolling, confirming, disabling and postponing
  the second factor with its recovery codes (\<open>internal/api/profile/twofactor\<close>, \<open>pkg/twofactor/recovery.go\<close>).

  The handlers take the session and the account store.  What the two-factor manager draws at random
  and its cipher are arguments.  Audit records and the events for plugins are left out.
\<close>

section \<open>Passwords\<close>

text \<open>The policy that the process has: the entries of the blocklist and the operator's override.\<close>

record PasswordPolicy =
  passwordBlocklist :: "string list"
  allowWeakPasswords :: bool

definition MinPasswordLength :: nat where "MinPasswordLength = 12"
definition MaxPasswordLength :: nat where "MaxPasswordLength = 128"

definition ResetPasswordPolicy :: PasswordPolicy where
  "ResetPasswordPolicy = \<lparr>passwordBlocklist = [], allowWeakPasswords = False\<rparr>"

definition SetPasswordBlocklist :: "string list option \<Rightarrow> PasswordPolicy \<Rightarrow> PasswordPolicy" where
  "SetPasswordBlocklist b policy = policy\<lparr>passwordBlocklist := (case b of None \<Rightarrow> [] | Some entries \<Rightarrow> entries)\<rparr>"

definition SetAllowWeakPasswords :: "bool \<Rightarrow> PasswordPolicy \<Rightarrow> PasswordPolicy" where
  "SetAllowWeakPasswords allow policy = policy\<lparr>allowWeakPasswords := allow\<rparr>"

definition MapBlocklist_Contains :: "string list \<Rightarrow> string \<Rightarrow> bool" where
  "MapBlocklist_Contains entries lowered = List.member entries lowered"

definition ValidatePassword :: "PasswordPolicy \<Rightarrow> string \<Rightarrow> error option" where
  "ValidatePassword policy password =
     (if password = '''' then Some (HTTPError 422 ''password is required'')
      else if length password < MinPasswordLength then Some (HTTPError 422 ''password must be at least 12 characters long'')
      else if length password > MaxPasswordLength then Some (HTTPError 422 ''password must not exceed 128 characters'')
      else if \<not> allowWeakPasswords policy \<and> MapBlocklist_Contains (passwordBlocklist policy) (ToLower password)
      then Some (HTTPError 422 ''password is too common, please choose another'')
      else None)"

section \<open>The account of the session\<close>

definition FindUserByLogins :: "string list \<Rightarrow> FindUser" where
  "FindUserByLogins logins = \<lparr>FindUser_IDs = [], FindUser_Logins = logins, FindUser_Emails = []\<rparr>"

definition find_by_login :: "'u SignIn \<Rightarrow> string \<Rightarrow> 'u \<Rightarrow> User result" where
  "find_by_login h login u =
     (case Users_Find (si_users h) (Some (FindUserByLogins [login])) [] one_user u of
        Inl e \<Rightarrow> Inl (WithMessage e ''failed to find user'')
      | Inr [] \<Rightarrow> Inl (HTTPError 404 ''user not found'')
      | Inr (user # _) \<Rightarrow> Inr user)"

text \<open>\<open>h.userRepo.Save\<close> as the last step of a handler.\<close>

definition save_and_reply :: "'u SignIn \<Rightarrow> time \<Rightarrow> string \<Rightarrow> User \<Rightarrow> 'a \<Rightarrow> 'u \<Rightarrow> 'a reply \<times> 'u" where
  "save_and_reply h now failure user answer u =
     (case Users_Save (si_users h) now user u of
        (Some e, _, u') \<Rightarrow> (Rejected (WithMessage e failure), u')
      | (None, _, u') \<Rightarrow> (Accepted answer, u'))"

section \<open>Profile\<close>

record profileResponse =
  profile_ID :: uint
  profile_Login :: string
  profile_Email :: string
  profile_Name :: "string option"
  profile_Roles :: "string list"
  profile_TwoFactorEnabled :: bool
  profile_MFANudge :: "View option"

definition newProfileResponseFromUser :: "User \<Rightarrow> RestrictedRole list \<Rightarrow> View option \<Rightarrow> profileResponse" where
  "newProfileResponseFromUser user roles nudge =
     \<lparr>profile_ID = User_ID user, profile_Login = User_Login user, profile_Email = User_Email user, profile_Name = User_Name user,
      profile_Roles = map (Role_Name \<circ> RestrictedRole_Role) roles, profile_TwoFactorEnabled = User_TwoFactorEnabled user,
      profile_MFANudge = nudge\<rparr>"

definition nudge_snapshot :: "User \<Rightarrow> bool \<Rightarrow> Snapshot" where
  "nudge_snapshot user isAdmin =
     \<lparr>snap_TwoFactorEnabled = User_TwoFactorEnabled user, snap_IsAdmin = isAdmin,
      snap_FirstShownAt = MFAFirstShownAt user, snap_SnoozedUntil = MFASnoozedUntil user\<rparr>"

definition mfaNudge :: "'u SignIn \<Rightarrow> time \<Rightarrow> User \<Rightarrow> View option" where
  "mfaNudge h now user =
     (case (si_nudge h, si_rbac h) of
        (Some cfg, Some can) \<Rightarrow>
          (case can (User_ID user) of
             Inl _ \<Rightarrow> None
           | Inr isAdmin \<Rightarrow> NewView (Compute cfg now (nudge_snapshot user isAdmin)))
      | _ \<Rightarrow> None)"

definition getprofile_ServeHTTP ::
    "'u SignIn \<Rightarrow> (uint \<Rightarrow> RestrictedRole list result) \<Rightarrow> time \<Rightarrow> (profileResponse, 'u) handler" where
  "getprofile_ServeHTTP h rolesOf now ctx u =
     (if \<not> IsAuthenticated ctx then (Rejected (HTTPError 401 ''user not authenticated''), u)
      else let user = the (session_User (the ctx))
      in case rolesOf (User_ID user) of
        Inl e \<Rightarrow> (Rejected (WithMessage e ''failed to get user roles''), u)
      | Inr roles \<Rightarrow> (Accepted (newProfileResponseFromUser user roles (mfaNudge h now user)), u))"

definition sessionTokenDuration :: duration where "sessionTokenDuration = 24 * hour"

record updateProfileInput =
  up_Name :: "string option"
  up_Password :: "string option"
  up_CurrentPassword :: "string option"

text \<open>\<open>Validate\<close> trims the name in place.\<close>

definition updateProfileInput_Validate :: "PasswordPolicy \<Rightarrow> updateProfileInput \<Rightarrow> updateProfileInput result" where
  "updateProfileInput_Validate policy input =
     (let nameValue = map_option TrimSpace (up_Name input)
      in if nameValue = Some '''' then Inl (HTTPError 422 ''name cannot be empty'')
         else if (case nameValue of None \<Rightarrow> False | Some name \<Rightarrow> length name > maxNameLength)
         then Inl (HTTPError 422 ''name must not exceed 255 characters'')
         else case (case up_Password input of None \<Rightarrow> None | Some password \<Rightarrow> ValidatePassword policy password) of
           Some e \<Rightarrow> Inl e
         | None \<Rightarrow>
            if up_CurrentPassword input = Some '''' then Inl (HTTPError 422 ''current password cannot be empty'')
            else Inr (input\<lparr>up_Name := nameValue\<rparr>))"

definition applyPasswordChange :: "'u SignIn \<Rightarrow> time \<Rightarrow> updateProfileInput \<Rightarrow> string \<Rightarrow> User \<Rightarrow> User result" where
  "applyPasswordChange h now input password user =
     (case up_CurrentPassword input of
        None \<Rightarrow> Inl (HTTPError 400 ''current password is required for password change'')
      | Some current \<Rightarrow>
         (case VerifyPassword (si_crypto h) (User_Password user) current of
            Inl _ \<Rightarrow> Inl (HTTPError 400 ''current password is incorrect'')
          | Inr _ \<Rightarrow>
             (case HashPassword (si_crypto h) (si_activeCost h) password of
                Inl e \<Rightarrow> Inl (WithMessage e ''failed to hash password'')
              | Inr hashedPassword \<Rightarrow> Inr (SetPasswordChangedAt (Some now) (user\<lparr>User_Password := hashedPassword\<rparr>)))))"

text \<open>
  The body is decoded into a pointer, which the document \<open>null\<close> sets to \<open>nil\<close>; validating that input is
  a panic.  The answer carries the new session token after a change of the password.
\<close>

definition putprofile_ServeHTTP ::
    "'u SignIn \<Rightarrow> PasswordPolicy \<Rightarrow> time \<Rightarrow> updateProfileInput option body \<Rightarrow> (string option, 'u) handler" where
  "putprofile_ServeHTTP h policy now b ctx u =
     (if \<not> IsAuthenticated ctx then (Rejected (HTTPError 401 ''user not authenticated''), u)
      else case json_Decode b of
        None \<Rightarrow> (Rejected (HTTPError 400 ''invalid request''), u)
      | Some None \<Rightarrow> (Rejected (Panic ''nil pointer dereference''), u)
      | Some (Some input0) \<Rightarrow>
      (case updateProfileInput_Validate policy input0 of
        Inl e \<Rightarrow> (Rejected (HTTPError 400 ''invalid input''), u)
      | Inr input \<Rightarrow>
      (case find_by_login h (session_Login (the ctx)) u of
        Inl e \<Rightarrow> (Rejected e, u)
      | Inr user0 \<Rightarrow>
      (case (case up_Password input of None \<Rightarrow> Inr user0 | Some password \<Rightarrow> applyPasswordChange h now input password user0) of
        Inl e \<Rightarrow> (Rejected e, u)
      | Inr user1 \<Rightarrow>
         let user2 = (case up_Name input of None \<Rightarrow> user1 | Some name \<Rightarrow> user1\<lparr>User_Name := Some name\<rparr>)
         in case Users_Save (si_users h) now user2 u of
           (Some e, _, u') \<Rightarrow> (Rejected (WithMessage e ''failed to update profile''), u')
         | (None, user', u') \<Rightarrow>
            if up_Password input = None then (Accepted None, u')
            else case si_GenerateTokenForUser h user' sessionTokenDuration of
              Inl e \<Rightarrow> (Rejected (WithMessage e ''failed to generate token''), u')
            | Inr token \<Rightarrow> (Accepted (Some token), u')))))"

section \<open>Recovery codes\<close>

definition RecoveryCodeCount :: nat where "RecoveryCodeCount = 10"
definition recoveryGroupLen :: nat where "recoveryGroupLen = 5"
definition recoveryGroups :: nat where "recoveryGroups = 2"
definition recoveryAlphabet :: string where "recoveryAlphabet = ''abcdefghjkmnpqrstuvwxyz23456789''"

text \<open>A draw is what \<open>rand.Int\<close> returns for the size of the alphabet.\<close>

fun randomFromAlphabet :: "nat result list \<Rightarrow> string result" where
  "randomFromAlphabet [] = Inr ''''"
| "randomFromAlphabet (Inl e # draws) = Inl (WithMessage e ''failed to generate random recovery code'')"
| "randomFromAlphabet (Inr n # draws) =
     (case randomFromAlphabet draws of Inl e \<Rightarrow> Inl e | Inr out \<Rightarrow> Inr (recoveryAlphabet ! n # out))"

fun recovery_loop :: "Crypto \<Rightarrow> nat result list list \<Rightarrow> (string list \<times> (string \<times> bool) list) result" where
  "recovery_loop cr [] = Inr ([], [])"
| "recovery_loop cr (draws # rest) =
     (case randomFromAlphabet draws of
        Inl e \<Rightarrow> Inl e
      | Inr raw \<Rightarrow>
         (case cr_bcrypt_Generate cr raw DefaultBcryptCost of
            Inl e \<Rightarrow> Inl (WithMessage e ''failed to hash recovery code'')
          | Inr hash \<Rightarrow>
             (case recovery_loop cr rest of
                Inl e \<Rightarrow> Inl e
              | Inr (plain, stored) \<Rightarrow>
                  Inr ((take recoveryGroupLen raw @ ''-'' @ drop recoveryGroupLen raw) # plain, (hash, False) # stored))))"

text \<open>\<open>random i j\<close> is the draw for letter \<open>j\<close> of code \<open>i\<close>.\<close>

definition GenerateRecoveryCodes ::
    "Crypto \<Rightarrow> (nat \<Rightarrow> nat \<Rightarrow> nat result) \<Rightarrow> (string list \<times> (string \<times> bool) list) result" where
  "GenerateRecoveryCodes cr random =
     recovery_loop cr (map (\<lambda>i. map (random i) [0..<recoveryGroupLen * recoveryGroups]) [0..<RecoveryCodeCount])"

section \<open>Second factor\<close>

definition EnsureSecondFactorChangeAllowedForSession :: "AuthSession option \<Rightarrow> error option" where
  "EnsureSecondFactorChangeAllowedForSession ctx =
     (if IsTokenSession ctx then Some (HTTPError 403 ''personal access tokens cannot manage two-factor authentication'') else None)"

text \<open>The first two checks of the handlers below.\<close>

definition second_factor_session :: "AuthSession option \<Rightarrow> error option" where
  "second_factor_session ctx =
     (if \<not> IsAuthenticated ctx then Some (HTTPError 401 ''user not authenticated'')
      else EnsureSecondFactorChangeAllowedForSession ctx)"

text \<open>\<open>generated\<close> is what \<open>GenerateSecret\<close> returns for a login: a secret and its provisioning URI.\<close>

definition setup_ServeHTTP ::
    "'u SignIn \<Rightarrow> (string \<Rightarrow> string result) \<Rightarrow> time \<Rightarrow> (string \<Rightarrow> (string \<times> string) result) \<Rightarrow> (string \<times> string, 'u) handler" where
  "setup_ServeHTTP h EncryptSecret now generated ctx u =
     (case second_factor_session ctx of
        Some e \<Rightarrow> (Rejected e, u)
      | None \<Rightarrow>
      (case find_by_login h (session_Login (the ctx)) u of
        Inl e \<Rightarrow> (Rejected e, u)
      | Inr user \<Rightarrow>
         if User_TwoFactorEnabled user then (Rejected (HTTPError 409 ''two-factor authentication is already enabled''), u)
         else case generated (User_Login user) of
           Inl e \<Rightarrow> (Rejected (WithMessage e ''failed to generate two-factor secret''), u)
         | Inr (secret, otpauthURI) \<Rightarrow>
            (case EncryptSecret secret of
               Inl e \<Rightarrow> (Rejected (WithMessage e ''failed to encrypt two-factor secret''), u)
             | Inr encrypted \<Rightarrow>
                save_and_reply h now ''failed to store pending two-factor secret''
                  (user\<lparr>User_TwoFactorSecret := Some encrypted, User_TwoFactorRecoveryCodes := None, User_TwoFactorLastUsedStep := None\<rparr>)
                  (secret, otpauthURI) u)))"

definition confirmInput_Validate :: "string \<Rightarrow> string result" where
  "confirmInput_Validate code =
     (if TrimSpace code = '''' then Inl (HTTPError 422 ''code field is required'') else Inr (TrimSpace code))"

definition loadPendingEnrollment :: "'u SignIn \<Rightarrow> string \<Rightarrow> 'u \<Rightarrow> User result" where
  "loadPendingEnrollment h login u =
     (case find_by_login h login u of
        Inl e \<Rightarrow> Inl e
      | Inr user \<Rightarrow>
         if User_TwoFactorEnabled user then Inl (HTTPError 409 ''two-factor authentication is already enabled'')
         else if User_TwoFactorSecret user = None then Inl (HTTPError 409 ''no pending two-factor enrollment; call setup first'')
         else Inr user)"

definition confirm_ServeHTTP ::
    "'u SignIn \<Rightarrow> time \<Rightarrow> (nat \<Rightarrow> nat \<Rightarrow> nat result) \<Rightarrow> string body \<Rightarrow> (string list, 'u) handler" where
  "confirm_ServeHTTP h now random b ctx u =
     (case second_factor_session ctx of
        Some e \<Rightarrow> (Rejected e, u)
      | None \<Rightarrow>
      (case json_Decode b of
        None \<Rightarrow> (Rejected (HTTPError 400 ''invalid request body''), u)
      | Some code0 \<Rightarrow>
      (case confirmInput_Validate code0 of
        Inl e \<Rightarrow> (Rejected e, u)
      | Inr code \<Rightarrow>
      (case loadPendingEnrollment h (session_Login (the ctx)) u of
        Inl e \<Rightarrow> (Rejected e, u)
      | Inr user \<Rightarrow>
      (case ValidateTOTP (si_crypto h) now (the (User_TwoFactorSecret user)) code None of
        Inl e \<Rightarrow> (Rejected (WithMessage e ''failed to validate code''), u)
      | Inr (valid, usedStep) \<Rightarrow>
         if \<not> valid then (Rejected (HTTPError 422 ''invalid verification code''), u)
         else case GenerateRecoveryCodes (si_crypto h) random of
           Inl e \<Rightarrow> (Rejected (WithMessage e ''failed to generate recovery codes''), u)
         | Inr (plainCodes, encodedCodes) \<Rightarrow>
            save_and_reply h now ''failed to enable two-factor authentication''
              (user\<lparr>User_TwoFactorEnabled := True, User_TwoFactorLastUsedStep := Some usedStep,
                    User_TwoFactorRecoveryCodes := Some encodedCodes\<rparr>) plainCodes u)))))"

text \<open>The upgrade of an old hash that the next two handlers save along.\<close>

definition upgraded :: "'u SignIn \<Rightarrow> string \<Rightarrow> bool \<Rightarrow> User \<Rightarrow> User" where
  "upgraded h password needsRehash user =
     (if \<not> needsRehash then user
      else case HashPassword (si_crypto h) (si_activeCost h) password of
        Inl _ \<Rightarrow> user
      | Inr upgradedHash \<Rightarrow> user\<lparr>User_Password := upgradedHash\<rparr>)"

record disableInput =
  di_Password :: string
  di_Code :: string

definition disableInput_Validate :: "disableInput \<Rightarrow> disableInput result" where
  "disableInput_Validate input =
     (if di_Password input = '''' then Inl (HTTPError 422 ''password field is required'')
      else if TrimSpace (di_Code input) = '''' then Inl (HTTPError 422 ''code field is required'')
      else Inr (input\<lparr>di_Code := TrimSpace (di_Code input)\<rparr>))"

definition codeIsValid :: "'u SignIn \<Rightarrow> time \<Rightarrow> User \<Rightarrow> string \<Rightarrow> bool" where
  "codeIsValid h now user code =
     ((case User_TwoFactorSecret user of
         None \<Rightarrow> False
       | Some secret \<Rightarrow>
          (case ValidateTOTP (si_crypto h) now secret code (User_TwoFactorLastUsedStep user) of Inr (valid, _) \<Rightarrow> valid | Inl _ \<Rightarrow> False)) \<or>
      (case User_TwoFactorRecoveryCodes user of
         None \<Rightarrow> False | Some codes \<Rightarrow> snd (ConsumeRecoveryCode (si_crypto h) codes code)))"

definition disable_ServeHTTP :: "'u SignIn \<Rightarrow> time \<Rightarrow> disableInput body \<Rightarrow> (unit, 'u) handler" where
  "disable_ServeHTTP h now b ctx u =
     (case second_factor_session ctx of
        Some e \<Rightarrow> (Rejected e, u)
      | None \<Rightarrow>
      (case json_Decode b of
        None \<Rightarrow> (Rejected (HTTPError 400 ''invalid request body''), u)
      | Some input0 \<Rightarrow>
      (case disableInput_Validate input0 of
        Inl e \<Rightarrow> (Rejected e, u)
      | Inr input \<Rightarrow>
      (case find_by_login h (session_Login (the ctx)) u of
        Inl e \<Rightarrow> (Rejected e, u)
      | Inr user0 \<Rightarrow>
         if \<not> User_TwoFactorEnabled user0 then (Rejected (HTTPError 409 ''two-factor authentication is not enabled''), u)
         else case VerifyPassword (si_crypto h) (User_Password user0) (di_Password input) of
           Inl _ \<Rightarrow> (Rejected (HTTPError 401 ''invalid credentials''), u)
         | Inr needsRehash \<Rightarrow>
            let user = upgraded h (di_Password input) needsRehash user0
            in if \<not> codeIsValid h now user (di_Code input) then (Rejected (HTTPError 401 ''invalid verification code''), u)
               else save_and_reply h now ''failed to disable two-factor authentication''
                 (user\<lparr>User_TwoFactorEnabled := False, User_TwoFactorSecret := None, User_TwoFactorRecoveryCodes := None,
                       User_TwoFactorLastUsedStep := None\<rparr>) () u))))"

definition recoverycodes_ServeHTTP ::
    "'u SignIn \<Rightarrow> time \<Rightarrow> (nat \<Rightarrow> nat \<Rightarrow> nat result) \<Rightarrow> string body \<Rightarrow> (string list, 'u) handler" where
  "recoverycodes_ServeHTTP h now random b ctx u =
     (case second_factor_session ctx of
        Some e \<Rightarrow> (Rejected e, u)
      | None \<Rightarrow>
      (case json_Decode b of
        None \<Rightarrow> (Rejected (HTTPError 400 ''invalid request body''), u)
      | Some password \<Rightarrow>
         if password = '''' then (Rejected (HTTPError 422 ''password field is required''), u)
         else case find_by_login h (session_Login (the ctx)) u of
           Inl e \<Rightarrow> (Rejected e, u)
         | Inr user0 \<Rightarrow>
            if \<not> User_TwoFactorEnabled user0 then (Rejected (HTTPError 409 ''two-factor authentication is not enabled''), u)
            else case VerifyPassword (si_crypto h) (User_Password user0) password of
              Inl _ \<Rightarrow> (Rejected (HTTPError 401 ''invalid credentials''), u)
            | Inr needsRehash \<Rightarrow>
               let user = upgraded h password needsRehash user0
               in case GenerateRecoveryCodes (si_crypto h) random of
                 Inl e \<Rightarrow> (Rejected (WithMessage e ''failed to generate recovery codes''), u)
               | Inr (plainCodes, encodedCodes) \<Rightarrow>
                  save_and_reply h now ''failed to store recovery codes''
                    (user\<lparr>User_TwoFactorRecoveryCodes := Some encodedCodes\<rparr>) plainCodes u))"

definition SnoozeDuration :: duration where "SnoozeDuration = 24 * hour"

text \<open>The account that is saved is the one the authentication middleware loaded.\<close>

definition snooze_ServeHTTP ::
    "'u SignIn \<Rightarrow> NudgeConfig \<Rightarrow> (uint \<Rightarrow> bool result) \<Rightarrow> time \<Rightarrow> (View option, 'u) handler" where
  "snooze_ServeHTTP h cfg can now ctx u =
     (if \<not> IsAuthenticated ctx then (Rejected (HTTPError 401 ''user not authenticated''), u)
      else case Users_Save (si_users h) now (SetMFASnoozedUntil (Some (now + SnoozeDuration)) (the (session_User (the ctx)))) u of
        (Some e, _, u') \<Rightarrow> (Rejected (WithMessage e ''failed to persist MFA snooze''), u')
      | (None, user, u') \<Rightarrow>
         (case can (User_ID user) of
            Inl e \<Rightarrow> (Rejected (WithMessage e ''failed to check admin status''), u')
          | Inr isAdmin \<Rightarrow> (Accepted (NewView (Compute cfg now (nudge_snapshot user isAdmin))), u')))"

end
