(* ===== verification/Route_Table.thy ===== *)
theory Route_Table
  imports Auth_Middleware
begin

text \<open>
  The routes of the API, \<open>internal/api/router.go\<close>: the table of \<open>apiRoutes\<close> with the access flags of each
  route, the chain of middlewares the loop after the table builds, and the chain of the plugin routes
  (\<open>registerPluginRoutes\<close> and the last part of \<open>HTTPHandler.ServeHTTP\<close> of \<open>pkg/plugin/http_handler.go\<close>).

  A route names the package of its handler; the handler itself is an argument of the chain.  The CORS
  middleware adds headers and the recovery middleware answers a panic, neither decides who gets
  through, and both are left out of the chain.
\<close>

section \<open>The table\<close>

record Route =
  route_Method :: string
  route_Path :: string
  route_Handler :: string
  route_AllowGuestAccess :: bool
  route_AdminOnly :: bool
  route_AllowShortLivedToken :: bool
  route_AllowMFAEnrollmentToken :: bool
  route_CheckPATAbilities :: "PATAbility list"

text \<open>The flags a composite literal leaves out are false, the abilities \<open>nil\<close>.\<close>

definition route :: "string \<Rightarrow> string \<Rightarrow> string \<Rightarrow> Route" where
  "route verb path handler = \<lparr>route_Method = verb, route_Path = path, route_Handler = handler, route_AllowGuestAccess = False,
     route_AdminOnly = False, route_AllowShortLivedToken = False, route_AllowMFAEnrollmentToken = False,
     route_CheckPATAbilities = []\<rparr>"

definition routes_health :: "Route list" where
  "routes_health = [
     (route ''GET'' ''/api/health'' ''gethealth.NewGetHealthHandler'')\<lparr>route_AllowGuestAccess := True\<rparr>,
     (route ''GET'' ''/api/config/public'' ''publicconfig'')\<lparr>route_AllowGuestAccess := True, route_AllowMFAEnrollmentToken := True\<rparr>,
     (route ''GET'' ''/api/version'' ''getversion'')\<lparr>route_AdminOnly := True\<rparr>]"

definition routes_auth :: "Route list" where
  "routes_auth = [
     (route ''POST'' ''/api/auth/login'' ''login'')\<lparr>route_AllowGuestAccess := True\<rparr>,
     (route ''POST'' ''/api/auth/2fa/verify'' ''twofactorverify'')\<lparr>route_AllowGuestAccess := True\<rparr>,
     (route ''POST'' ''/api/auth/logout'' ''logout'')\<lparr>route_AllowMFAEnrollmentToken := True\<rparr>,
     route ''POST'' ''/api/auth/short-lived-token'' ''shorttoken'',
     (route ''POST'' ''/api/auth/sso/tickets'' ''ssomint'')\<lparr>route_AdminOnly := True, route_CheckPATAbilities := [PATAbilitySSOIssue]\<rparr>,
     (route ''POST'' ''/api/auth/sso/exchange'' ''ssoexchange'')\<lparr>route_AllowGuestAccess := True\<rparr>]"

definition routes_profile :: "Route list" where
  "routes_profile = [
     route ''GET'' ''/api/user'' ''getuser'',
     (route ''GET'' ''/api/profile'' ''getprofile'')\<lparr>route_AllowMFAEnrollmentToken := True\<rparr>,
     route ''PUT'' ''/api/profile'' ''putprofile'',
     (route ''POST'' ''/api/profile/2fa/setup'' ''twofactorsetup'')\<lparr>route_AllowMFAEnrollmentToken := True\<rparr>,
     (route ''POST'' ''/api/profile/2fa/confirm'' ''twofactorconfirm'')\<lparr>route_AllowMFAEnrollmentToken := True\<rparr>,
     route ''DELETE'' ''/api/profile/2fa'' ''twofactordisable'',
     route ''POST'' ''/api/profile/2fa/recovery-codes'' ''twofactorrecoverycodes'',
     route ''POST'' ''/api/profile/2fa/snooze'' ''twofactorsnooze'']"

definition routes_tokens :: "Route list" where
  "routes_tokens = [
     route ''GET'' ''/api/tokens'' ''gettokens'',
     route ''POST'' ''/api/tokens'' ''posttoken'',
     route ''DELETE'' ''/api/tokens/{id}'' ''deletetoken'',
     route ''GET'' ''/api/tokens/abilities'' ''tokensgetabilities'']"

definition routes_servers :: "Route list" where
  "routes_servers = [
     (route ''GET'' ''/api/servers'' ''getservers'')\<lparr>route_CheckPATAbilities := [PATAbilityServerList]\<rparr>,
     (route ''POST'' ''/api/servers'' ''postserver'')\<lparr>route_AdminOnly := True, route_CheckPATAbilities := [PATAbilityServerCreate]\<rparr>,
     route ''GET'' ''/api/servers/summary'' ''getsummary'',
     (route ''GET'' ''/api/servers/search'' ''searchservers'')\<lparr>route_AdminOnly := True\<rparr>,
     (route ''GET'' ''/api/servers/{id}'' ''getserver'')\<lparr>route_CheckPATAbilities := [PATAbilityServerList]\<rparr>,
     (route ''DELETE'' ''/api/servers/{id}'' ''deleteserver'')\<lparr>route_AdminOnly := True, route_CheckPATAbilities := [PATAbilityServerCreate]\<rparr>,
     (route ''PUT'' ''/api/servers/{id}'' ''putserver'')\<lparr>route_AdminOnly := True, route_CheckPATAbilities := [PATAbilityServerCreate]\<rparr>,
     route ''GET'' ''/api/servers/{server}/abilities'' ''getserverabilities'']"

definition routes_server_control :: "Route list" where
  "routes_server_control = [
     route ''GET'' ''/api/servers/{server}/status'' ''getstatus'',
     route ''GET'' ''/api/servers/{server}/query'' ''getquery'',
     (route ''GET'' ''/api/servers/{server}/rcon/features'' ''getrconfeatures'')\<lparr>route_CheckPATAbilities := [PATAbilityServerRconConsole]\<rparr>,
     (route ''GET'' ''/api/servers/{server}/rcon/fast_rcon'' ''getfastrcon'')\<lparr>route_CheckPATAbilities := [PATAbilityServerRconConsole]\<rparr>,
     (route ''POST'' ''/api/servers/{server}/rcon'' ''rconpostcommand'')\<lparr>route_CheckPATAbilities := [PATAbilityServerRconConsole]\<rparr>,
     (route ''GET'' ''/api/servers/{server}/rcon/players'' ''rcongetplayers'')\<lparr>route_CheckPATAbilities := [PATAbilityServerRconConsole]\<rparr>,
     (route ''POST'' ''/api/servers/{server}/rcon/players/message'' ''notImplementedHandler'')\<lparr>route_CheckPATAbilities := [PATAbilityServerRconConsole]\<rparr>,
     (route ''POST'' ''/api/servers/{server}/rcon/players/{command}'' ''rconkickplayer'')\<lparr>route_CheckPATAbilities := [PATAbilityServerRconConsole]\<rparr>,
     (route ''GET'' ''/api/servers/{server}/console'' ''getconsole'')\<lparr>route_CheckPATAbilities := [PATAbilityServerConsole]\<rparr>,
     (route ''POST'' ''/api/servers/{server}/console'' ''postconsole'')\<lparr>route_CheckPATAbilities := [PATAbilityServerConsole]\<rparr>]"

definition routes_files_read_write :: "Route list" where
  "routes_files_read_write = [
     route ''GET'' ''/api/file-manager/{server}/initialize'' ''initialize'',
     route ''GET'' ''/api/file-manager/{server}/content'' ''content'',
     route ''GET'' ''/api/file-manager/{server}/tree'' ''filemanagertree'',
     route ''POST'' ''/api/file-manager/{server}/delete'' ''filemanagerdelete'',
     route ''POST'' ''/api/file-manager/{server}/upload'' ''upload'',
     route ''POST'' ''/api/file-manager/{server}/upload/sessions'' ''uploadsessioncreate'',
     route ''PUT'' ''/api/file-manager/{server}/upload/sessions/{uploadID}/chunks/{index}'' ''uploadsessionputchunk'',
     route ''GET'' ''/api/file-manager/{server}/upload/sessions/{uploadID}'' ''uploadsessionget'',
     route ''POST'' ''/api/file-manager/{server}/upload/sessions/{uploadID}/complete'' ''uploadsessioncomplete'',
     route ''DELETE'' ''/api/file-manager/{server}/upload/sessions/{uploadID}'' ''uploadsessionabort'',
     route ''POST'' ''/api/file-manager/{server}/update-file'' ''filemanagerupdatefile'',
     route ''GET'' ''/api/file-manager/{server}/download'' ''filemanagerdownload'',
     route ''GET'' ''/api/file-manager/{server}/download-archive'' ''filemanagerdownloadarchive'']"

definition routes_files_change :: "Route list" where
  "routes_files_change = [
     route ''POST'' ''/api/file-manager/{server}/rename'' ''filemanagerrename'',
     route ''POST'' ''/api/file-manager/{server}/chmod'' ''filemanagerchmod'',
     route ''POST'' ''/api/file-manager/{server}/create-directory'' ''filemanagercreatedirectory'',
     route ''POST'' ''/api/file-manager/{server}/create-file'' ''filemanagercreatefile'',
     route ''GET'' ''/api/file-manager/{server}/stream-file'' ''filemanagerstreamfile'',
     route ''POST'' ''/api/file-manager/{server}/paste'' ''filemanagerpaste'',
     route ''POST'' ''/api/file-manager/{server}/hash'' ''filemanagerhash'',
     route ''POST'' ''/api/file-manager/{server}/archive'' ''filemanagercreatearchive'',
     route ''POST'' ''/api/file-manager/{server}/extract'' ''filemanagerextractarchive'',
     route ''POST'' ''/api/file-manager/{server}/archive-operations/{operationID}/cancel'' ''filemanagercancelarchive'']"

definition routes_server_tasks :: "Route list" where
  "routes_server_tasks = [
     (route ''GET'' ''/api/servers/{server}/tasks'' ''getservertasks'')\<lparr>route_CheckPATAbilities := [PATAbilityServerTasksManage]\<rparr>,
     (route ''POST'' ''/api/servers/{server}/tasks'' ''postservertask'')\<lparr>route_CheckPATAbilities := [PATAbilityServerTasksManage]\<rparr>,
     (route ''PUT'' ''/api/servers/{server}/tasks/{id}'' ''putservertask'')\<lparr>route_CheckPATAbilities := [PATAbilityServerTasksManage]\<rparr>,
     (route ''DELETE'' ''/api/servers/{server}/tasks/{id}'' ''deleteservertask'')\<lparr>route_CheckPATAbilities := [PATAbilityServerTasksManage]\<rparr>,
     (route ''GET'' ''/api/servers/{server}/tasks/{id}/executions'' ''getservertaskexecutions'')\<lparr>route_CheckPATAbilities := [PATAbilityServerTasksManage]\<rparr>]"

definition routes_server_settings :: "Route list" where
  "routes_server_settings = [
     (route ''GET'' ''/api/servers/{server}/settings'' ''getserversettings'')\<lparr>route_CheckPATAbilities := [PATAbilityServerSettingsManage]\<rparr>,
     (route ''PUT'' ''/api/servers/{server}/settings'' ''putserversettings'')\<lparr>route_CheckPATAbilities := [PATAbilityServerSettingsManage]\<rparr>,
     (route ''POST'' ''/api/servers/{server}/start'' ''postcommand'')\<lparr>route_CheckPATAbilities := [PATAbilityServerStart]\<rparr>,
     (route ''POST'' ''/api/servers/{server}/stop'' ''postcommand'')\<lparr>route_CheckPATAbilities := [PATAbilityServerStop]\<rparr>,
     (route ''POST'' ''/api/servers/{server}/restart'' ''postcommand'')\<lparr>route_CheckPATAbilities := [PATAbilityServerRestart]\<rparr>,
     (route ''POST'' ''/api/servers/{server}/update'' ''postcommand'')\<lparr>route_CheckPATAbilities := [PATAbilityServerUpdate]\<rparr>,
     (route ''POST'' ''/api/servers/{server}/install'' ''postcommand'')\<lparr>route_CheckPATAbilities := [PATAbilityServerUpdate]\<rparr>,
     (route ''POST'' ''/api/servers/{server}/reinstall'' ''postcommand'')\<lparr>route_CheckPATAbilities := [PATAbilityServerUpdate]\<rparr>,
     route ''GET'' ''/api/user/servers_abilities'' ''getabilities'']"

definition routes_letsencrypt :: "Route list" where
  "routes_letsencrypt = [
     (route ''GET'' ''/api/admin/letsencrypt/status'' ''letsencryptgetstatus'')\<lparr>route_AdminOnly := True\<rparr>]"

definition routes_users :: "Route list" where
  "routes_users = [
     (route ''GET'' ''/api/users'' ''getusers'')\<lparr>route_AdminOnly := True, route_CheckPATAbilities := [PATAbilityUserRead]\<rparr>,
     (route ''POST'' ''/api/users'' ''postusers'')\<lparr>route_AdminOnly := True, route_CheckPATAbilities := [PATAbilityUserManage]\<rparr>,
     (route ''GET'' ''/api/users/{id}'' ''usersgetuser'')\<lparr>route_AdminOnly := True, route_CheckPATAbilities := [PATAbilityUserRead]\<rparr>,
     (route ''PUT'' ''/api/users/{id}'' ''putuser'')\<lparr>route_AdminOnly := True, route_CheckPATAbilities := [PATAbilityUserManage]\<rparr>,
     (route ''DELETE'' ''/api/users/{id}'' ''deleteuser'')\<lparr>route_AdminOnly := True\<rparr>,
     (route ''GET'' ''/api/users/{id}/servers'' ''getuserservers'')\<lparr>route_AdminOnly := True, route_CheckPATAbilities := [PATAbilityUserRead]\<rparr>,
     (route ''GET'' ''/api/users/{id}/servers/{server}/permissions'' ''getserverperms'')\<lparr>route_AdminOnly := True, route_CheckPATAbilities := [PATAbilityUserRead]\<rparr>,
     (route ''PUT'' ''/api/users/{id}/servers/{server}/permissions'' ''putserverperms'')\<lparr>route_AdminOnly := True, route_CheckPATAbilities := [PATAbilityUserManage]\<rparr>,
     (route ''PUT'' ''/api/users/{id}/servers/{server}'' ''putuserserver'')\<lparr>route_AdminOnly := True, route_CheckPATAbilities := [PATAbilityUserManage]\<rparr>,
     (route ''DELETE'' ''/api/users/{id}/servers/{server}'' ''deleteuserserver'')\<lparr>route_AdminOnly := True, route_CheckPATAbilities := [PATAbilityUserManage]\<rparr>]"

definition routes_nodes_read :: "Route list" where
  "routes_nodes_read = [
     (route ''GET'' ''/api/dedicated_servers/certificates.zip'' ''getcertificateszip'')\<lparr>route_AdminOnly := True, route_AllowShortLivedToken := True\<rparr>,
     (route ''GET'' ''/api/nodes/certificates.zip'' ''getcertificateszip'')\<lparr>route_AdminOnly := True, route_AllowShortLivedToken := True\<rparr>,
     (route ''GET'' ''/api/dedicated_servers/setup'' ''nodesetup'')\<lparr>route_AdminOnly := True\<rparr>,
     (route ''GET'' ''/api/nodes/setup'' ''nodesetup'')\<lparr>route_AdminOnly := True\<rparr>,
     (route ''GET'' ''/api/nodes/setup-key'' ''setupkey.NewGetHandler'')\<lparr>route_AdminOnly := True\<rparr>,
     (route ''POST'' ''/api/nodes/setup-key'' ''setupkey.NewPostHandler'')\<lparr>route_AdminOnly := True\<rparr>,
     (route ''DELETE'' ''/api/nodes/setup-key'' ''setupkey.NewDeleteHandler'')\<lparr>route_AdminOnly := True\<rparr>,
     (route ''GET'' ''/api/dedicated_servers'' ''getnodes'')\<lparr>route_AdminOnly := True, route_CheckPATAbilities := [PATAbilityNodeRead]\<rparr>,
     (route ''GET'' ''/api/nodes'' ''getnodes'')\<lparr>route_AdminOnly := True, route_CheckPATAbilities := [PATAbilityNodeRead]\<rparr>,
     (route ''GET'' ''/api/dedicated_servers/summary'' ''nodesSummaryHandler'')\<lparr>route_AdminOnly := True\<rparr>,
     (route ''GET'' ''/api/nodes/summary'' ''nodesSummaryHandler'')\<lparr>route_AdminOnly := True\<rparr>,
     (route ''GET'' ''/api/dedicated_servers/{id}'' ''getnode'')\<lparr>route_AdminOnly := True, route_CheckPATAbilities := [PATAbilityNodeRead]\<rparr>,
     (route ''GET'' ''/api/nodes/{id}'' ''getnode'')\<lparr>route_AdminOnly := True, route_CheckPATAbilities := [PATAbilityNodeRead]\<rparr>]"

definition routes_nodes_write :: "Route list" where
  "routes_nodes_write = [
     (route ''PUT'' ''/api/dedicated_servers/{id}'' ''putnode'')\<lparr>route_AdminOnly := True\<rparr>,
     (route ''PUT'' ''/api/nodes/{id}'' ''putnode'')\<lparr>route_AdminOnly := True\<rparr>,
     (route ''DELETE'' ''/api/dedicated_servers/{id}'' ''deletenode'')\<lparr>route_AdminOnly := True\<rparr>,
     (route ''DELETE'' ''/api/nodes/{id}'' ''deletenode'')\<lparr>route_AdminOnly := True\<rparr>,
     (route ''GET'' ''/api/dedicated_servers/{node}/busy_ports'' ''getbusyports'')\<lparr>route_AdminOnly := True, route_CheckPATAbilities := [PATAbilityNodeRead]\<rparr>,
     (route ''GET'' ''/api/nodes/{node}/busy_ports'' ''getbusyports'')\<lparr>route_AdminOnly := True, route_CheckPATAbilities := [PATAbilityNodeRead]\<rparr>,
     (route ''GET'' ''/api/dedicated_servers/{node}/ip_list'' ''getiplist'')\<lparr>route_AdminOnly := True, route_CheckPATAbilities := [PATAbilityNodeRead]\<rparr>,
     (route ''GET'' ''/api/nodes/{node}/ip_list'' ''getiplist'')\<lparr>route_AdminOnly := True, route_CheckPATAbilities := [PATAbilityNodeRead]\<rparr>,
     (route ''GET'' ''/api/dedicated_servers/{id}/daemon'' ''getdaemonstatus'')\<lparr>route_AdminOnly := True\<rparr>,
     (route ''GET'' ''/api/nodes/{id}/daemon'' ''getdaemonstatus'')\<lparr>route_AdminOnly := True\<rparr>,
     (route ''GET'' ''/api/dedicated_servers/{id}/logs.zip'' ''getlogszip'')\<lparr>route_AdminOnly := True, route_AllowShortLivedToken := True\<rparr>,
     (route ''GET'' ''/api/nodes/{id}/logs.zip'' ''getlogszip'')\<lparr>route_AdminOnly := True, route_AllowShortLivedToken := True\<rparr>]"

definition routes_games :: "Route list" where
  "routes_games = [
     (route ''GET'' ''/api/games'' ''getgames'')\<lparr>route_AdminOnly := True, route_CheckPATAbilities := [PATAbilityGameRead]\<rparr>,
     (route ''GET'' ''/api/games/{code}'' ''getgame'')\<lparr>route_AdminOnly := True, route_CheckPATAbilities := [PATAbilityGameRead]\<rparr>,
     (route ''POST'' ''/api/games'' ''postgames'')\<lparr>route_AdminOnly := True\<rparr>,
     (route ''PUT'' ''/api/games/{code}'' ''putgame'')\<lparr>route_AdminOnly := True\<rparr>,
     (route ''DELETE'' ''/api/games/{code}'' ''deletegame'')\<lparr>route_AdminOnly := True\<rparr>,
     (route ''GET'' ''/api/games/{code}/mods'' ''gamesgetgamemods'')\<lparr>route_AdminOnly := True, route_CheckPATAbilities := [PATAbilityGameRead]\<rparr>,
     (route ''POST'' ''/api/games/upgrade'' ''upgradegames'')\<lparr>route_AdminOnly := True\<rparr>,
     (route ''POST'' ''/api/games/import/pelican-egg'' ''importpelicanegg'')\<lparr>route_AdminOnly := True\<rparr>,
     (route ''POST'' ''/api/games/import/gameap'' ''importgameap'')\<lparr>route_AdminOnly := True\<rparr>,
     (route ''GET'' ''/api/games/{code}/export'' ''exportgame'')\<lparr>route_AdminOnly := True\<rparr>]"

definition routes_daemon_tasks :: "Route list" where
  "routes_daemon_tasks = [
     (route ''GET'' ''/api/gdaemon_tasks'' ''getdaemontasks'')\<lparr>route_AdminOnly := True\<rparr>,
     (route ''GET'' ''/api/gdaemon_tasks/{id}'' ''getdaemontask'')\<lparr>route_CheckPATAbilities := [PATAbilityGDaemonTaskRead]\<rparr>,
     (route ''GET'' ''/api/gdaemon_tasks/{id}/output'' ''getdaemontask'')\<lparr>route_AdminOnly := True\<rparr>,
     (route ''POST'' ''/api/gdaemon_tasks/{id}/cancel'' ''canceldaemontask'')\<lparr>route_AdminOnly := True\<rparr>]"

definition routes_game_mods :: "Route list" where
  "routes_game_mods = [
     (route ''GET'' ''/api/game_mods'' ''getgamemods'')\<lparr>route_AdminOnly := True, route_CheckPATAbilities := [PATAbilityGameRead]\<rparr>,
     (route ''POST'' ''/api/game_mods'' ''postgamemod'')\<lparr>route_AdminOnly := True\<rparr>,
     (route ''GET'' ''/api/game_mods/get_list_for_game/{game}'' ''getlistforgame'')\<lparr>route_AdminOnly := True, route_CheckPATAbilities := [PATAbilityGameRead]\<rparr>,
     (route ''GET'' ''/api/game_mods/{id}'' ''getgamemod'')\<lparr>route_AdminOnly := True, route_CheckPATAbilities := [PATAbilityGameRead]\<rparr>,
     (route ''PUT'' ''/api/game_mods/{id}'' ''putgamemod'')\<lparr>route_AdminOnly := True\<rparr>,
     (route ''DELETE'' ''/api/game_mods/{id}'' ''deletegamemod'')\<lparr>route_AdminOnly := True\<rparr>]"

definition routes_client_certificates :: "Route list" where
  "routes_client_certificates = [
     (route ''GET'' ''/api/client_certificates'' ''getclientcertificates'')\<lparr>route_AdminOnly := True\<rparr>,
     (route ''POST'' ''/api/client_certificates'' ''postclientcertificates'')\<lparr>route_AdminOnly := True\<rparr>,
     (route ''DELETE'' ''/api/client_certificates/{id}'' ''deleteclientcertificates'')\<lparr>route_AdminOnly := True\<rparr>]"

definition routes_plugin_store :: "Route list" where
  "routes_plugin_store = [
     (route ''GET'' ''/api/plugin-store/categories'' ''getcategories'')\<lparr>route_AdminOnly := True\<rparr>,
     (route ''GET'' ''/api/plugin-store/labels'' ''getlabels'')\<lparr>route_AdminOnly := True\<rparr>,
     (route ''GET'' ''/api/plugin-store/plugins'' ''getplugins'')\<lparr>route_AdminOnly := True\<rparr>,
     (route ''GET'' ''/api/plugin-store/plugins/{id}'' ''getplugin'')\<lparr>route_AdminOnly := True\<rparr>,
     (route ''GET'' ''/api/plugin-store/plugins/{id}/versions'' ''getpluginversions'')\<lparr>route_AdminOnly := True\<rparr>,
     (route ''GET'' ''/api/plugin-store/plugins/{id}/icon'' ''getpluginicon'')\<lparr>route_AdminOnly := True\<rparr>,
     (route ''POST'' ''/api/plugin-store/plugins/{id}/install'' ''installplugin'')\<lparr>route_AdminOnly := True\<rparr>,
     (route ''POST'' ''/api/plugin-store/plugins/{id}/update'' ''updateplugin'')\<lparr>route_AdminOnly := True\<rparr>,
     (route ''DELETE'' ''/api/admin/plugins/{id}'' ''pluginuninstall'')\<lparr>route_AdminOnly := True\<rparr>]"

definition routes_plugin_admin :: "Route list" where
  "routes_plugin_admin = [
     (route ''POST'' ''/api/admin/plugins/upload/dry-run'' ''pluginuploaddryrun'')\<lparr>route_AdminOnly := True\<rparr>,
     (route ''POST'' ''/api/admin/plugins/upload/install'' ''pluginuploadinstall'')\<lparr>route_AdminOnly := True\<rparr>,
     (route ''POST'' ''/api/admin/plugins/{id}/upload'' ''pluginuploadupdate'')\<lparr>route_AdminOnly := True\<rparr>,
     (route ''GET'' ''/api/admin/plugins/loaded'' ''pluginsloaded'')\<lparr>route_AdminOnly := True\<rparr>,
     (route ''POST'' ''/api/admin/plugins/{id}/reload'' ''pluginreload'')\<lparr>route_AdminOnly := True\<rparr>,
     (route ''PUT'' ''/api/admin/plugins/{id}/permissions'' ''pluginupdatepermissions'')\<lparr>route_AdminOnly := True\<rparr>]"

definition routes_websocket :: "Route list" where
  "routes_websocket = [
     (route ''GET'' ''/api/ws/tasks/{id}'' ''wstaskstatus'')\<lparr>route_AllowShortLivedToken := True\<rparr>,
     (route ''GET'' ''/api/ws/servers/{server}/file-manager/archive-operations'' ''wsfmarchive'')\<lparr>route_AllowShortLivedToken := True\<rparr>,
     (route ''GET'' ''/api/ws/servers/{server}/console'' ''wsconsole'')\<lparr>route_AllowShortLivedToken := True\<rparr>,
     (route ''GET'' ''/api/ws/servers/{server}/attach'' ''wsattach'')\<lparr>route_AllowShortLivedToken := True\<rparr>,
     (route ''GET'' ''/api/ws/nodes/{id}/metrics'' ''wsnodemetrics'')\<lparr>route_AdminOnly := True, route_AllowShortLivedToken := True\<rparr>,
     (route ''GET'' ''/api/ws/nodes/metrics'' ''wsnodesmetrics'')\<lparr>route_AdminOnly := True, route_AllowShortLivedToken := True\<rparr>,
     (route ''GET'' ''/api/ws/servers/{server}/metrics'' ''wsservermetrics'')\<lparr>route_AllowShortLivedToken := True\<rparr>]"

definition apiRoutes :: "Route list" where
  "apiRoutes = concat [routes_health, routes_auth, routes_profile, routes_tokens, routes_servers, routes_server_control,
     routes_files_read_write, routes_files_change, routes_server_tasks, routes_server_settings, routes_letsencrypt,
     routes_users, routes_nodes_read, routes_nodes_write, routes_games, routes_daemon_tasks, routes_game_mods,
     routes_client_certificates, routes_plugin_store, routes_plugin_admin, routes_websocket]"

section \<open>The chains\<close>

definition route_guards ::
    "(uint \<Rightarrow> bool result) \<Rightarrow> bool \<Rightarrow> Route \<Rightarrow> ('a, 's) handler \<Rightarrow> ('a, 's) handler" where
  "route_guards can enforce r handler0 =
     (let handler1 = (if route_CheckPATAbilities r \<noteq> [] then personal_access_middleware (route_CheckPATAbilities r) handler0
                      else handler0);
          handler2 = (if route_AdminOnly r
                      then if route_CheckPATAbilities r = [] then token_admin_guard (is_admin_middleware can handler1)
                           else is_admin_middleware can handler1
                      else handler1);
          handler3 = short_lived_scope (route_AllowShortLivedToken r) handler2
      in mfa_enrollment_scope enforce (route_AllowMFAEnrollmentToken r) handler3)"

definition api_chain ::
    "('u, 'p, 'c) AuthMiddleware \<Rightarrow> (uint \<Rightarrow> bool result) \<Rightarrow> bool \<Rightarrow> time \<Rightarrow> request \<Rightarrow> Route \<Rightarrow>
     ('a, ('u, 'p, 'c) panel) handler \<Rightarrow> ('a, ('u, 'p, 'c) panel) handler" where
  "api_chain m can enforce now rq r handler =
     auth_middleware m now rq (route_AllowGuestAccess r) (route_guards can enforce r handler)"

text \<open>A plugin route that was found, on a plugin that is enabled, for a client within its rate.\<close>

record PluginRoute =
  plugin_AdminOnly :: bool
  plugin_RequiresAuth :: bool

definition plugin_dispatch ::
    "('u, 'p, 'c) AuthMiddleware \<Rightarrow> (uint \<Rightarrow> bool result) \<Rightarrow> bool \<Rightarrow> time \<Rightarrow> request \<Rightarrow> PluginRoute \<Rightarrow>
     ('a, ('u, 'p, 'c) panel) handler \<Rightarrow> ('a, ('u, 'p, 'c) panel) handler" where
  "plugin_dispatch m can anonymousRoutes now rq r handler0 =
     (let handler1 = (if plugin_AdminOnly r then is_admin_middleware can handler0 else handler0)
      in if plugin_RequiresAuth r \<or> \<not> anonymousRoutes then auth_middleware m now rq False handler1 else handler1)"

definition plugin_chain ::
    "('u, 'p, 'c) AuthMiddleware \<Rightarrow> (uint \<Rightarrow> bool result) \<Rightarrow> bool \<Rightarrow> time \<Rightarrow> request \<Rightarrow> PluginRoute \<Rightarrow>
     ('a, ('u, 'p, 'c) panel) handler \<Rightarrow> ('a, ('u, 'p, 'c) panel) handler" where
  "plugin_chain m can anonymousRoutes now rq r handler =
     auth_middleware m now rq True (plugin_dispatch m can anonymousRoutes now rq r handler)"

text \<open>The handler that reports the session it was reached with.\<close>

definition reached :: "(AuthSession option, 's) handler" where
  "reached ctx st = (Accepted ctx, st)"

section \<open>What the chain lets through\<close>

lemma auth_middleware_passes:
  assumes "auth_middleware m now rq optional next ctx st = (Accepted a, st')"
  shows "\<exists>ctx' st0. next ctx' st0 = (Accepted a, st') \<and> (optional \<and> ctx' = ctx \<or> ctx' \<noteq> None)"
  using assms
  by (cases st) (auto simp: auth_middleware_def finishRejected_def Let_def split: prod.splits if_splits sum.splits bool.splits)

lemma personal_access_passes:
  assumes "personal_access_middleware abilities next ctx st = (Accepted a, st')"
  shows "next ctx st = (Accepted a, st') \<and> (IsTokenSession ctx \<longrightarrow>
    (\<exists>granted. PAT_Abilities (the (session_Token (the ctx))) = Some granted \<and> set abilities \<subseteq> set granted))"
  using assms
  by (auto simp: personal_access_middleware_def find_None_iff split: if_splits option.splits)

lemma is_admin_passes:
  assumes "is_admin_middleware can next ctx st = (Accepted a, st')"
  shows "next ctx st = (Accepted a, st') \<and> IsAuthenticated ctx \<and> can (User_ID (the (session_User (the ctx)))) = Inr True"
  using assms by (auto simp: is_admin_middleware_def split: if_splits sum.splits bool.splits)

lemma token_admin_passes:
  assumes "token_admin_guard next ctx st = (Accepted a, st')"
  shows "next ctx st = (Accepted a, st') \<and> \<not> IsTokenSession ctx"
  using assms by (auto simp: token_admin_guard_def split: if_splits)

lemma short_lived_passes:
  assumes "short_lived_scope allow next ctx st = (Accepted a, st')"
  shows "next ctx st = (Accepted a, st') \<and> (ctx \<noteq> None \<and> session_ShortLived (the ctx) \<longrightarrow> allow)"
  using assms by (auto simp: short_lived_scope_def split: if_splits)

lemma mfa_enrollment_passes:
  assumes "mfa_enrollment_scope enforce allow next ctx st = (Accepted a, st')"
  shows "next ctx st = (Accepted a, st') \<and> (enforce \<and> ctx \<noteq> None \<and> session_MFAEnrollmentOnly (the ctx) \<longrightarrow> allow)"
  using assms by (auto simp: mfa_enrollment_scope_def split: if_splits)

lemma route_guards_pass:
  assumes "route_guards can enforce r handler ctx st = (Accepted a, st')"
  shows "handler ctx st = (Accepted a, st') \<and>
    (route_AdminOnly r \<longrightarrow> IsAuthenticated ctx \<and> can (User_ID (the (session_User (the ctx)))) = Inr True) \<and>
    (ctx \<noteq> None \<and> session_ShortLived (the ctx) \<longrightarrow> route_AllowShortLivedToken r) \<and>
    (enforce \<and> ctx \<noteq> None \<and> session_MFAEnrollmentOnly (the ctx) \<longrightarrow> route_AllowMFAEnrollmentToken r) \<and>
    (IsTokenSession ctx \<longrightarrow> (route_AdminOnly r \<longrightarrow> route_CheckPATAbilities r \<noteq> []) \<and>
       (route_CheckPATAbilities r \<noteq> [] \<longrightarrow>
         (\<exists>granted. PAT_Abilities (the (session_Token (the ctx))) = Some granted \<and>
            set (route_CheckPATAbilities r) \<subseteq> set granted)))"
  using assms
  by (fastforce simp: route_guards_def Let_def split: if_splits
      dest!: mfa_enrollment_passes short_lived_passes token_admin_passes is_admin_passes personal_access_passes)

lemma guest_routes:
  "map (\<lambda>r. (route_Method r, route_Path r)) (filter route_AllowGuestAccess apiRoutes) =
     [(''GET'', ''/api/health''), (''GET'', ''/api/config/public''), (''POST'', ''/api/auth/login''),
      (''POST'', ''/api/auth/2fa/verify''), (''POST'', ''/api/auth/sso/exchange'')]"
  by code_simp

lemma enrollment_routes:
  "map (\<lambda>r. (route_Method r, route_Path r)) (filter route_AllowMFAEnrollmentToken apiRoutes) =
     [(''GET'', ''/api/config/public''), (''POST'', ''/api/auth/logout''), (''GET'', ''/api/profile''),
      (''POST'', ''/api/profile/2fa/setup''), (''POST'', ''/api/profile/2fa/confirm'')]"
  by code_simp

lemma short_lived_routes:
  "list_all (\<lambda>r. route_AllowShortLivedToken r \<longrightarrow> route_Method r = ''GET'' \<and>
     (prefix ''/api/ws/'' (route_Path r) \<or> suffix ''.zip'' (route_Path r))) apiRoutes"
  by code_simp

lemma admin_route_abilities:
  "list_all (\<lambda>r. route_AdminOnly r \<longrightarrow> list_all (\<lambda>a. a \<notin> set GetUserAbilities) (route_CheckPATAbilities r)) apiRoutes"
  by code_simp

section \<open>Sample requests\<close>

text \<open>A token service that signs nothing: the claims of a token are read off its text.\<close>

definition plain_claims :: "string \<Rightarrow> Claims result" where
  "plain_claims token =
     (if token = ''v4.local.bob'' then Inr \<lparr>claims_Subject = Inr ''user:login:bob'', claims_ExpirationTime = Inr (Some (24 * hour)),
        claims_Scope = Inr '''', claims_IssuedAt = Inr (Some 0)\<rparr>
      else if token = ''v4.local.enrol'' then Inr \<lparr>claims_Subject = Inr ''user:login:bob'', claims_ExpirationTime = Inr (Some (24 * hour)),
        claims_Scope = Inr ScopeMFAEnrollment, claims_IssuedAt = Inr (Some 0)\<rparr>
      else Inl (Errorf ''invalid token''))"

definition gate :: "(UserRepository, PersonalAccessTokenRepository, InMemory) AuthMiddleware" where
  "gate = \<lparr>am_signin = desk, am_tokens = inmemory_tokens, am_cache = Some inmemory_cache, am_revocation = Some inmemory_cache,
     am_ValidateToken = (\<lambda>now. plain_claims)\<rparr>"

definition bearer :: "string \<Rightarrow> request" where
  "bearer token = \<lparr>req_Authorization = ''Bearer '' @ token, req_token = '''', req_cookie = None\<rparr>"

definition panel0 :: "(UserRepository, PersonalAccessTokenRepository, InMemory) panel" where
  "panel0 = (accounts, NewPersonalAccessTokenRepository, NewInMemory)"

definition session_of_bob :: "bool \<Rightarrow> AuthSession" where
  "session_of_bob scoped = \<lparr>session_Login = ''bob'', session_Email = User_Email bob, session_User = Some bob, session_Token = None,
     session_ShortLived = False, session_MFAEnrollmentOnly = scoped\<rparr>"

lemma Split_bearer: "CHR '' '' \<notin> set token \<Longrightarrow> Split (CHR '' '') (''Bearer '' @ token) = [''Bearer'', token]"
proof -
  assume "CHR '' '' \<notin> set token"
  then have "Split (CHR '' '') token = [token]" by (induction token) auto
  then show ?thesis by simp
qed

lemma extract_bearer [simp]: "CHR '' '' \<notin> set token \<Longrightarrow> extractToken (bearer token) = (token, tokenSourceHeader)"
proof -
  have "ToLower ''Bearer'' = ''bearer''" by code_simp
  then show "CHR '' '' \<notin> set token \<Longrightarrow> ?thesis"
    using Split_bearer [of token] by (simp add: extractToken_def bearer_def)
qed

lemma find_bob_login:
  "Users_Find (UserService inmemory_users) (Some \<lparr>FindUser_IDs = [], FindUser_Logins = [''bob''], FindUser_Emails = []\<rparr>) []
     one_user accounts = Inr [bob]"
  by code_simp

lemma gate_user_token:
  assumes "token = ''v4.local.bob'' \<and> \<not> scoped \<or> token = ''v4.local.enrol'' \<and> scoped"
  shows "auth_middleware gate now (bearer token) optional next ctx panel0 = next (Some (session_of_bob scoped)) panel0"
proof -
  have token: "CHR '' '' \<notin> set token" "token \<noteq> ''''" "detectTokenType gate token = tokenTypeUserAuth"
    using assms by (auto simp: detectTokenType_def IsShortLivedToken_def ShortLivedTokenPrefix_def)
  have user: "processUserAuthToken gate now token accounts = Inr (session_of_bob scoped)"
    using assms find_bob_login
    by (auto simp: processUserAuthToken_def gate_def desk_def plain_claims_def subject_prefix_def TrimPrefix_def Let_def
        rejectIfIssuedBeforePasswordChange_def PasswordChangedAt_def session_of_bob_def ScopeMFAEnrollment_def bob_def)
  have "IsRevoked gate now k NewInMemory = Inr False" for k
    by (simp add: IsRevoked_def gate_def CacheRevocation_IsRevoked_def im.get)
  then show ?thesis
    using token user
    by (simp add: auth_middleware_def Let_def sourceAllowsTokenType_def process_token_def panel0_def)
qed

lemma in_filtered:
  assumes "map f (filter P xs) = ys" and "x \<in> set xs" and "P x"
  shows "f x \<in> set ys"
  using assms by auto

lemma guest_route:
  assumes "r \<in> set apiRoutes" and "route_AllowGuestAccess r"
  shows "(route_Method r, route_Path r) \<in> {(''GET'', ''/api/health''), (''GET'', ''/api/config/public''),
       (''POST'', ''/api/auth/login''), (''POST'', ''/api/auth/2fa/verify''), (''POST'', ''/api/auth/sso/exchange'')}"
  using in_filtered [OF guest_routes assms] by (simp only: list.set)

lemma enrollment_route:
  assumes "r \<in> set apiRoutes" and "route_AllowMFAEnrollmentToken r"
  shows "(route_Method r, route_Path r) \<in> {(''GET'', ''/api/config/public''), (''POST'', ''/api/auth/logout''),
       (''GET'', ''/api/profile''), (''POST'', ''/api/profile/2fa/setup''), (''POST'', ''/api/profile/2fa/confirm'')}"
  using in_filtered [OF enrollment_routes assms] by (simp only: list.set)

lemma admin_needs_admin_ability:
  assumes "r \<in> set apiRoutes" and "route_AdminOnly r" and "route_CheckPATAbilities r \<noteq> []"
    and "set (route_CheckPATAbilities r) \<subseteq> set granted"
  shows "\<not> set granted \<subseteq> set GetUserAbilities"
proof -
  obtain a where a: "a \<in> set (route_CheckPATAbilities r)" using assms(3) by (cases "route_CheckPATAbilities r") auto
  have "\<forall>a \<in> set (route_CheckPATAbilities r). a \<notin> set GetUserAbilities"
    using admin_route_abilities assms(1,2) by (simp only: list_all_iff) blast
  then show ?thesis using a assms(4) by blast
qed

text \<open>Who reaches the handler of a route, without the table.\<close>

lemma api_chain_reached:
  assumes "api_chain m can enforce now rq r reached None st = (Accepted s, st')"
  shows "(s = None \<longrightarrow> route_AllowGuestAccess r)"
    and "route_AdminOnly r \<longrightarrow> IsAuthenticated s \<and> can (User_ID (the (session_User (the s)))) = Inr True"
    and "s \<noteq> None \<and> session_ShortLived (the s) \<longrightarrow> route_AllowShortLivedToken r"
    and "enforce \<and> s \<noteq> None \<and> session_MFAEnrollmentOnly (the s) \<longrightarrow> route_AllowMFAEnrollmentToken r"
    and "IsTokenSession s \<longrightarrow> (route_AdminOnly r \<longrightarrow> route_CheckPATAbilities r \<noteq> []) \<and>
         (route_CheckPATAbilities r \<noteq> [] \<longrightarrow>
           (\<exists>granted. PAT_Abilities (the (session_Token (the s))) = Some granted \<and>
              set (route_CheckPATAbilities r) \<subseteq> set granted))"
proof -
  obtain ctx st0 where guards: "route_guards can enforce r reached ctx st0 = (Accepted s, st')"
      and ctx: "route_AllowGuestAccess r \<and> ctx = None \<or> ctx \<noteq> None"
    using auth_middleware_passes [OF assms [unfolded api_chain_def]] by blast
  note g = route_guards_pass [OF guards]
  have s: "ctx = s" using g by (simp add: reached_def)
  show "(s = None \<longrightarrow> route_AllowGuestAccess r)" using ctx s by blast
  show "route_AdminOnly r \<longrightarrow> IsAuthenticated s \<and> can (User_ID (the (session_User (the s)))) = Inr True" using g s by blast
  show "s \<noteq> None \<and> session_ShortLived (the s) \<longrightarrow> route_AllowShortLivedToken r" using g s by blast
  show "enforce \<and> s \<noteq> None \<and> session_MFAEnrollmentOnly (the s) \<longrightarrow> route_AllowMFAEnrollmentToken r" using g s by blast
  show "IsTokenSession s \<longrightarrow> (route_AdminOnly r \<longrightarrow> route_CheckPATAbilities r \<noteq> []) \<and>
         (route_CheckPATAbilities r \<noteq> [] \<longrightarrow>
           (\<exists>granted. PAT_Abilities (the (session_Token (the s))) = Some granted \<and>
              set (route_CheckPATAbilities r) \<subseteq> set granted))"
    using g s by blast
qed

section \<open>Properties\<close>

text \<open>
  C4. The route table decides who reaches a handler.  Whatever a request carries, it reaches the handler
  of an API route without a session only on the five public routes, with a session confined to
  second-factor enrolment only on the five routes of that flow, with a single-use token only on the
  reads that upgrade to a WebSocket or download an archive; an administrative route is reached by
  administrators only; and a personal access token reaches a route that declares abilities only when it
  has them all, and no administrative route when its abilities are those of ordinary users.
\<close>

theorem route_policy:
  assumes "r \<in> set apiRoutes" and "api_chain m can enforce now rq r reached None st = (Accepted s, st')"
  shows "(s = None \<longrightarrow> (route_Method r, route_Path r) \<in> {(''GET'', ''/api/health''), (''GET'', ''/api/config/public''),
       (''POST'', ''/api/auth/login''), (''POST'', ''/api/auth/2fa/verify''), (''POST'', ''/api/auth/sso/exchange'')}) \<and>
    (s \<noteq> None \<and> session_MFAEnrollmentOnly (the s) \<and> enforce \<longrightarrow>
       (route_Method r, route_Path r) \<in> {(''GET'', ''/api/config/public''), (''POST'', ''/api/auth/logout''),
         (''GET'', ''/api/profile''), (''POST'', ''/api/profile/2fa/setup''), (''POST'', ''/api/profile/2fa/confirm'')}) \<and>
    (s \<noteq> None \<and> session_ShortLived (the s) \<longrightarrow>
       route_Method r = ''GET'' \<and> (prefix ''/api/ws/'' (route_Path r) \<or> suffix ''.zip'' (route_Path r))) \<and>
    (route_AdminOnly r \<longrightarrow> IsAuthenticated s \<and> can (User_ID (the (session_User (the s)))) = Inr True) \<and>
    (IsTokenSession s \<longrightarrow> set (route_CheckPATAbilities r) \<subseteq> set (case PAT_Abilities (the (session_Token (the s))) of
         None \<Rightarrow> [] | Some granted \<Rightarrow> granted)) \<and>
    (IsTokenSession s \<and> route_AdminOnly r \<longrightarrow>
       \<not> set (the (PAT_Abilities (the (session_Token (the s))))) \<subseteq> set GetUserAbilities)"
proof -
  note g = api_chain_reached [OF assms(2)]
  have abilities: "set (route_CheckPATAbilities r) \<subseteq>
      set (case PAT_Abilities (the (session_Token (the s))) of None \<Rightarrow> [] | Some granted \<Rightarrow> granted)" if "IsTokenSession s"
    using g(5) that by (cases "route_CheckPATAbilities r = []") auto
  have admin: "\<not> set (the (PAT_Abilities (the (session_Token (the s))))) \<subseteq> set GetUserAbilities"
    if "IsTokenSession s" and "route_AdminOnly r"
  proof -
    obtain granted where "PAT_Abilities (the (session_Token (the s))) = Some granted"
        "set (route_CheckPATAbilities r) \<subseteq> set granted" "route_CheckPATAbilities r \<noteq> []"
      using g(5) \<open>IsTokenSession s\<close> \<open>route_AdminOnly r\<close> by blast
    then show ?thesis using admin_needs_admin_ability [OF assms(1) \<open>route_AdminOnly r\<close>] by simp
  qed
  have short: "route_Method r = ''GET'' \<and> (prefix ''/api/ws/'' (route_Path r) \<or> suffix ''.zip'' (route_Path r))"
    if "route_AllowShortLivedToken r"
    using short_lived_routes assms(1) that by (simp only: list_all_iff)
  show ?thesis
  proof (intro conjI impI, goal_cases)
    case 1
    then show ?case using g(1) by (intro guest_route [OF assms(1)]) blast
  next
    case 2
    then show ?case using g(4) by (intro enrollment_route [OF assms(1)]) blast
  next
    case 3
    then show ?case using g(3) short [THEN conjunct1] by blast
  next
    case 4
    then show ?case using g(3) short [THEN conjunct2] by blast
  next
    case 5
    then show ?case using g(2) by blast
  next
    case 6
    then show ?case using g(2) by blast
  next
    case 7
    then show ?case by (rule abilities)
  next
    case 8
    then show ?case using admin by blast
  qed
qed

definition profile_route :: Route where
  "profile_route = (route ''GET'' ''/api/profile'' ''getprofile'')\<lparr>route_AllowMFAEnrollmentToken := True\<rparr>"

theorem route_policy_witness:
  "profile_route \<in> set apiRoutes \<and>
   api_chain gate (\<lambda>_. Inr False) True 1 (bearer ''v4.local.enrol'') profile_route reached None panel0 =
     (Accepted (Some (session_of_bob True)), panel0) \<and>
   (route_Method profile_route, route_Path profile_route) \<in> {(''GET'', ''/api/config/public''), (''POST'', ''/api/auth/logout''),
     (''GET'', ''/api/profile''), (''POST'', ''/api/profile/2fa/setup''), (''POST'', ''/api/profile/2fa/confirm'')}"
proof -
  have mem: "profile_route \<in> set apiRoutes"
    by (simp add: profile_route_def apiRoutes_def routes_profile_def)
  have chain: "api_chain gate (\<lambda>_. Inr False) True 1 (bearer ''v4.local.enrol'') profile_route reached None panel0 =
      (Accepted (Some (session_of_bob True)), panel0)"
    by (simp add: api_chain_def gate_user_token [where scoped = True] route_guards_def profile_route_def route_def Let_def
        mfa_enrollment_scope_def short_lived_scope_def reached_def session_of_bob_def)
  from mem chain route_policy [OF mem chain, THEN conjunct2, THEN conjunct1] show ?thesis
    by (simp add: session_of_bob_def)
qed

lemma unscoped_table:
  "list_all (\<lambda>r. route_Path r = ''/api/ws/servers/{server}/console'' \<or> route_Path r = ''/api/ws/servers/{server}/attach'' \<or>
     prefix ''/api/file-manager/'' (route_Path r) \<longrightarrow> \<not> route_AdminOnly r \<and> route_CheckPATAbilities r = []) apiRoutes"
  "list_all (\<lambda>r. route_Path r = ''/api/servers/{server}/console'' \<longrightarrow>
     \<not> route_AdminOnly r \<and> route_CheckPATAbilities r = [PATAbilityServerConsole]) apiRoutes"
  by code_simp+

text \<open>
  C38. The scope of a personal access token does not cover every way to the same power.  A token
  without a single ability is refused by the routes that read and write a server's console over HTTP,
  and it is let through to the WebSocket routes of the same console and to every route of the file
  manager, those that upload, overwrite and delete included: these routes declare no abilities.
\<close>

theorem token_scope_gaps:
  assumes "r \<in> set apiRoutes" and "IsTokenSession (Some s)" and "PAT_Abilities (the (session_Token s)) = Some []"
    and "\<not> session_ShortLived s" and "\<not> session_MFAEnrollmentOnly s"
  shows "(route_Path r = ''/api/servers/{server}/console'' \<longrightarrow>
      route_guards can enforce r handler (Some s) st = (Rejected (HTTPError 403 ''insufficient token abilities''), st)) \<and>
    (route_Path r = ''/api/ws/servers/{server}/console'' \<or> route_Path r = ''/api/ws/servers/{server}/attach'' \<or>
       prefix ''/api/file-manager/'' (route_Path r) \<longrightarrow>
      route_guards can enforce r handler (Some s) st = handler (Some s) st)"
proof -
  have http: "\<not> route_AdminOnly r \<and> route_CheckPATAbilities r = [PATAbilityServerConsole]"
    if "route_Path r = ''/api/servers/{server}/console''"
    using bspec [OF unscoped_table(2) [unfolded list_all_iff] assms(1)] that by blast
  have unscoped: "\<not> route_AdminOnly r \<and> route_CheckPATAbilities r = []"
    if "route_Path r = ''/api/ws/servers/{server}/console'' \<or> route_Path r = ''/api/ws/servers/{server}/attach'' \<or>
       prefix ''/api/file-manager/'' (route_Path r)"
    using bspec [OF unscoped_table(1) [unfolded list_all_iff] assms(1)] that by blast
  have pass: "route_guards can enforce r handler (Some s) st = (if route_CheckPATAbilities r \<noteq> []
      then personal_access_middleware (route_CheckPATAbilities r) handler else handler) (Some s) st" if "\<not> route_AdminOnly r"
    using assms(4,5) that by (simp add: route_guards_def Let_def mfa_enrollment_scope_def short_lived_scope_def)
  show ?thesis
  proof (intro conjI impI, goal_cases)
    case 1
    show ?case using http [OF 1] pass assms(2,3) by (simp add: personal_access_middleware_def)
  next
    case 2
    show ?case using unscoped [OF 2] pass by simp
  qed
qed

definition bare_token :: AuthSession where
  "bare_token = (session_of_bob False)\<lparr>session_Token := Some (no_token\<lparr>PAT_ID := 1, PAT_Abilities := Some []\<rparr>)\<rparr>"

theorem token_scope_gaps_witness:
  "(route ''POST'' ''/api/file-manager/{server}/delete'' ''filemanagerdelete'') \<in> set apiRoutes \<and>
   route_guards (\<lambda>_. Inr False) True (route ''POST'' ''/api/file-manager/{server}/delete'' ''filemanagerdelete'') reached
     (Some bare_token) panel0 = (Accepted (Some bare_token), panel0)"
proof -
  let ?r = "route ''POST'' ''/api/file-manager/{server}/delete'' ''filemanagerdelete''"
  have mem: "?r \<in> set apiRoutes"
    by (simp add: apiRoutes_def routes_files_read_write_def)
  have "route_guards (\<lambda>_. Inr False) True ?r reached (Some bare_token) panel0 = reached (Some bare_token) panel0"
    by (rule token_scope_gaps [OF mem, THEN conjunct2, THEN mp])
      (simp_all add: bare_token_def session_of_bob_def no_token_def IsTokenSession_def route_def)
  with mem show ?thesis by (simp add: reached_def)
qed

lemma auth_middleware_accepts:
  assumes "auth_middleware m now rq optional' reached None st = (Accepted (Some s), st')"
  shows "auth_middleware m now rq optional next ctx st = next (Some s) st'"
    and "process_token m now (detectTokenType m (fst (extractToken rq))) (fst (extractToken rq)) st = (Inr s, st')"
    and "sourceAllowsTokenType (snd (extractToken rq)) (detectTokenType m (fst (extractToken rq)))"
    and "detectTokenType m (fst (extractToken rq)) \<noteq> tokenTypeUnknown"
proof -
  obtain token source where x: "extractToken rq = (token, source)" by fastforce
  obtain p st1 where p: "process_token m now (detectTokenType m token) token st = (p, st1)" by (rule prod.exhaust)
  from assms x p have *: "token \<noteq> ''''" "sourceAllowsTokenType source (detectTokenType m token)"
      "detectTokenType m token \<noteq> tokenTypeUnknown" "p = Inr s" "st1 = st'"
      "IsRevoked m now (TokenIdentifier (am_crypto m) token) (snd (snd st')) = Inr False"
    by (auto simp: auth_middleware_def finishRejected_def reached_def Let_def split: if_splits sum.splits bool.splits)
  show "auth_middleware m now rq optional next ctx st = next (Some s) st'"
    using * x p by (simp add: auth_middleware_def)
  show "process_token m now (detectTokenType m (fst (extractToken rq))) (fst (extractToken rq)) st = (Inr s, st')"
      "sourceAllowsTokenType (snd (extractToken rq)) (detectTokenType m (fst (extractToken rq)))"
      "detectTokenType m (fst (extractToken rq)) \<noteq> tokenTypeUnknown"
    using * x p by simp_all
qed

lemma process_token_session:
  assumes "process_token m now kind token st = (Inr s, st')"
  shows "(session_ShortLived s \<longleftrightarrow> kind = tokenTypeShortLived)"
    and "kind \<noteq> tokenTypeShortLived \<Longrightarrow> st' = st"
    and "kind = tokenTypeUserAuth \<Longrightarrow> session_Token s = None"
    and "session_MFAEnrollmentOnly s \<Longrightarrow> kind = tokenTypeUserAuth"
proof -
  have short: "session_ShortLived s \<and> \<not> session_MFAEnrollmentOnly s" if "processShortLivedToken h C now token u = (Inr s, c)"
    for h C u c
    using that
    by (auto simp: processShortLivedToken_def shortlived_finish_def shortlived_session_def Let_def
        split: sum.splits list.splits)
  have pat: "\<not> session_ShortLived s \<and> \<not> session_MFAEnrollmentOnly s" if "processPersonalAccessToken m now token q = Inr s" for q
    using that
    by (auto simp: processPersonalAccessToken_def Let_def split: prod.splits sum.splits list.splits if_splits bool.splits option.splits)
  have user: "\<not> session_ShortLived s \<and> session_Token s = None" if "processUserAuthToken m now token u = Inr s" for u
    using that
    by (auto simp: processUserAuthToken_def Let_def split: sum.splits list.splits if_splits option.splits)
  show "(session_ShortLived s \<longleftrightarrow> kind = tokenTypeShortLived)" "kind \<noteq> tokenTypeShortLived \<Longrightarrow> st' = st"
      "kind = tokenTypeUserAuth \<Longrightarrow> session_Token s = None" "session_MFAEnrollmentOnly s \<Longrightarrow> kind = tokenTypeUserAuth"
    using assms by (auto simp: process_token_def split: tokenType.splits prod.splits dest: short pat user)
qed

text \<open>
  C39. The plugin routes are outside the confinement of sessions.  A session that the authentication
  middleware accepts, other than one of a single-use token, reaches the handler of a plugin route,
  administrative ones included when its account is an administrator, even when the session is confined
  to second-factor enrolment or comes from a personal access token with any abilities; an API route
  with the same demands refuses the first, and when it is administrative also the second.
\<close>

theorem plugin_routes_unscoped:
  assumes "auth_middleware m now rq False reached None st = (Accepted (Some s), st')" and "\<not> session_ShortLived s"
    and "IsAuthenticated (Some s)" and "can (User_ID (the (session_User s))) = Inr True"
  shows "plugin_chain m can anonymousRoutes now rq pr handler None st = handler (Some s) st \<and>
    (session_MFAEnrollmentOnly s \<longrightarrow> api_chain m can True now rq (route verb path name) handler None st =
       (Rejected (HTTPError 403 ''session is restricted to two-factor enrollment''), st)) \<and>
    (IsTokenSession (Some s) \<longrightarrow> api_chain m can True now rq ((route verb path name)\<lparr>route_AdminOnly := True\<rparr>) handler None st =
       (Rejected (HTTPError 403 ''personal access tokens cannot access this administrative endpoint''), st))"
proof -
  note a = auth_middleware_accepts [OF assms(1)]
  have st: "st' = st" and enrol: "session_MFAEnrollmentOnly s \<Longrightarrow> \<not> IsTokenSession (Some s)"
    using process_token_session [OF a(2)] assms(2) by (auto simp: IsTokenSession_def split: option.splits)
  then have "session_MFAEnrollmentOnly s \<Longrightarrow> IsTokenSession (Some s) \<Longrightarrow> False" by simp
  then show ?thesis
    using assms(2-4) a(1) st
    by (auto simp: plugin_chain_def plugin_dispatch_def Let_def is_admin_middleware_def api_chain_def route_guards_def
        route_def mfa_enrollment_scope_def short_lived_scope_def token_admin_guard_def)
qed

theorem plugin_routes_unscoped_witness:
  "plugin_chain gate (\<lambda>_. Inr True) False 1 (bearer ''v4.local.enrol'') \<lparr>plugin_AdminOnly = True, plugin_RequiresAuth = True\<rparr>
     reached None panel0 = (Accepted (Some (session_of_bob True)), panel0)"
proof -
  have "auth_middleware gate 1 (bearer ''v4.local.enrol'') False reached None panel0 = (Accepted (Some (session_of_bob True)), panel0)"
    by (simp add: gate_user_token [where scoped = True] reached_def)
  then have "plugin_chain gate (\<lambda>_. Inr True) False 1 (bearer ''v4.local.enrol'') \<lparr>plugin_AdminOnly = True, plugin_RequiresAuth = True\<rparr>
     reached None panel0 = reached (Some (session_of_bob True)) panel0"
    by (rule plugin_routes_unscoped [THEN conjunct1]) (simp_all add: session_of_bob_def IsAuthenticated_def bob_def)
  then show ?thesis by (simp add: reached_def)
qed

end
