(* ===== verification/Sign_In_Runs.thy ===== *)
theory Sign_In_Runs
  imports Sign_In
begin

text \<open>
  What holds of the sign-in handlers over many requests: how often a second-factor challenge, a
  ticket, a one-time code and a single-use token can be used, by requests that follow each other and
  by requests that overlap.
\<close>

section \<open>Runs of the second-factor check\<close>

text \<open>
  The life of one challenge: it is issued; then requests that present it are handled one after the
  other, in between which anything may happen to the accounts and to the cache, except that nobody
  else writes the entry of the challenge.  The indices count the replies that a code was wrong and
  the sessions granted.
\<close>

inductive verify_run ::
    "'u SignIn \<Rightarrow> 'c Cache \<Rightarrow> ('c \<Rightarrow> bool) \<Rightarrow> ('c \<Rightarrow> time \<Rightarrow> string \<Rightarrow> any option) \<Rightarrow> string \<Rightarrow>
     nat \<Rightarrow> nat \<Rightarrow> 'u \<times> 'c \<Rightarrow> bool" for h C ok view token where
  issued: "ok c \<Longrightarrow> 0 \<le> now \<Longrightarrow>
    IssueTwoFactorChallenge (si_crypto h) C now random user remember c = (Inr token, c') \<Longrightarrow>
    verify_run h C ok view token 0 0 (u, c')"
| other: "verify_run h C ok view token m n (u, c) \<Longrightarrow> ok c' \<Longrightarrow>
    (\<forall>t. view c' t (ChallengeCacheKey (si_crypto h) token) = view c t (ChallengeCacheKey (si_crypto h) token)) \<or>
    (\<forall>t. view c' t (ChallengeCacheKey (si_crypto h) token) = None) \<Longrightarrow>
    verify_run h C ok view token m n (u', c')"
| attempt: "verify_run h C ok view token m n st \<Longrightarrow> 0 \<le> now \<Longrightarrow> json_Decode body = Some input \<Longrightarrow>
    TrimSpace (vi_ChallengeToken input) = token \<Longrightarrow> verify_ServeHTTP h C now body st = (reply, st') \<Longrightarrow>
    verify_run h C ok view token
      (if reply = Rejected errInvalidCode then Suc m else m)
      (case reply of Accepted _ \<Rightarrow> Suc n | Rejected _ \<Rightarrow> n) st'"

lemma error_values [simp]:
  "errInvalidChallenge \<noteq> errInvalidCode" "errInvalidCode \<noteq> errInvalidChallenge"
  "WithMessage e m \<noteq> errInvalidCode" "errInvalidCode \<noteq> WithMessage e m"
  "HTTPError 422 m \<noteq> errInvalidCode"
  by (simp_all add: errInvalidCode_def errInvalidChallenge_def)

text \<open>What finishing a check does to the cache.\<close>

lemma verify_finish_cases:
  assumes "verify_finish h C now key p code (u, c) = (reply, (u', c'))" and "Cache_Delete C key c = (None, d)"
  obtains (wrong) "reply = Rejected errInvalidCode" "c' = handleFailedAttempt C now key p c"
  | (refused) e where "reply = Rejected e" "e \<noteq> errInvalidCode" "c' = c \<or> c' = d"
  | (granted) g where "reply = Accepted g" "c' = d"
  using assms
  by (auto simp: verify_finish_def verify_loadUser_def Let_def
      split: sum.splits prod.splits list.splits if_splits option.splits)

context shared_cache
begin

lemma failed_attempt:
  assumes "inv c" and "0 \<le> now" and "Challenge_Attempts p = int m"
  shows "inv (handleFailedAttempt C now key p c) \<and>
    (\<forall>t v. view (handleFailedAttempt C now key p c) t key = Some v \<longrightarrow>
      Suc m < 5 \<and> (\<exists>q. v = AnyJSON (Challenge q) \<and> Challenge_Attempts q = int (Suc m)))"
  using assms
  by (auto simp: handleFailedAttempt_def Let_def Delete_eq Set_eq view_delete view_set holds_until_def
      maxVerifyAttempts_def split: if_splits)

definition spent :: "string \<Rightarrow> nat \<Rightarrow> nat \<Rightarrow> 'c \<Rightarrow> bool" where
  "spent key m n c \<longleftrightarrow> inv c \<and> m \<le> 5 \<and> n \<le> 1 \<and>
     (\<forall>t v. view c t key = Some v \<longrightarrow> m < 5 \<and> n = 0 \<and> (\<exists>p. v = AnyJSON (Challenge p) \<and> Challenge_Attempts p = int m))"

lemma spent_delete: "spent key m n c \<Longrightarrow> spent key m n (delete_in C key c)"
  by (simp add: spent_def view_delete)

lemma spent_finish:
  assumes "spent key m n c" and "view c now key = Some (AnyJSON (Challenge p))" and "0 \<le> now"
    and "verify_finish h C now key p code (u, c) = (reply, (u', c'))"
  shows "spent key (if reply = Rejected errInvalidCode then Suc m else m)
    (case reply of Accepted _ \<Rightarrow> Suc n | Rejected _ \<Rightarrow> n) c'"
proof -
  have p: "inv c" "m < 5" "n = 0" "Challenge_Attempts p = int m"
    using assms(1,2) by (auto simp: spent_def)
  show ?thesis
    using assms(4) Delete_eq [OF p(1), of key]
  proof (cases rule: verify_finish_cases)
    case wrong
    then show ?thesis using failed_attempt [OF p(1) assms(3) p(4)] p by (auto simp: spent_def)
  next
    case (refused e)
    then show ?thesis using assms(1) spent_delete by auto
  next
    case (granted g)
    then show ?thesis using p by (simp add: spent_def view_delete)
  qed
qed

lemma spent_attempt:
  assumes "spent (ChallengeCacheKey (si_crypto h) token) m n (snd st)" and "0 \<le> now"
    and "json_Decode body = Some input" and "TrimSpace (vi_ChallengeToken input) = token"
    and "verify_ServeHTTP h C now body st = (reply, st')"
  shows "spent (ChallengeCacheKey (si_crypto h) token) (if reply = Rejected errInvalidCode then Suc m else m)
    (case reply of Accepted _ \<Rightarrow> Suc n | Rejected _ \<Rightarrow> n) (snd st')"
proof -
  let ?key = "ChallengeCacheKey (si_crypto h) token"
  have inv: "inv (snd st)" using assms(1) by (simp add: spent_def)
  consider (early) e where "e \<noteq> errInvalidCode" "verify_begin h C now body (snd st) = (Inl e, snd st)"
    | (loaded) p code where "view (snd st) now ?key = Some (AnyJSON (Challenge p))"
        "verify_begin h C now body (snd st) = (Inr (?key, p, code), snd st)"
  proof (cases "view (snd st) now ?key")
    case None
    then have "\<exists>e. e \<noteq> errInvalidCode \<and> verify_begin h C now body (snd st) = (Inl e, snd st)"
      using assms(3,4) get [OF inv, of now ?key]
      by (auto simp: verify_begin_def verifyInput_Validate_def Let_def loadChallenge_def)
    with early show thesis by blast
  next
    case (Some v)
    then obtain p where v: "v = AnyJSON (Challenge p)" using assms(1) by (auto simp: spent_def)
    show thesis
    proof (cases "verifyInput_Validate input")
      case (Inl e)
      then have "e \<noteq> errInvalidCode" by (auto simp: verifyInput_Validate_def Let_def split: if_splits)
      with Inl assms(3) early show thesis by (auto simp: verify_begin_def)
    next
      case (Inr i)
      then have "vi_ChallengeToken i = token"
        using assms(4) by (auto simp: verifyInput_Validate_def Let_def split: if_splits)
      then show thesis
        using Some v Inr assms(3) get [OF inv, of now ?key] early loaded
        by (cases "IsChallengeToken token")
          (auto simp: verify_begin_def Let_def loadChallenge_def UnmarshalChallengePayload_def)
    qed
  qed
  then show ?thesis
  proof cases
    case early
    then show ?thesis using assms(1,5) by (auto simp: verify_ServeHTTP_def)
  next
    case loaded
    then have "verify_finish h C now ?key p code (fst st, snd st) = (reply, (fst st', snd st'))"
      using assms(5) by (simp add: verify_ServeHTTP_def)
    from spent_finish [OF assms(1) loaded(1) assms(2) this] show ?thesis .
  qed
qed

lemma verify_run_spent:
  assumes "verify_run h C inv view token m n st"
  shows "spent (ChallengeCacheKey (si_crypto h) token) m n (snd st)"
  using assms
proof (induction rule: verify_run.induct)
  case (issued c now random user remember c' u)
  then show ?case
    by (auto simp: IssueTwoFactorChallenge_def Let_def Set_eq view_set holds_until_def spent_def
        split: sum.splits if_splits)
next
  case (other m n u c c' u')
  then show ?case by (auto simp: spent_def)
next
  case (attempt m n st now body input reply st')
  then show ?case using spent_attempt by blast
qed

end

section \<open>Overlapping checks\<close>

lemma overlapping_checks:
  assumes "im_wf c" and "0 \<le> now" and "Unix now < Challenge_ExpiresAt p"
    and "Challenge_Attempts p + 1 < maxVerifyAttempts"
    and "\<forall>code \<in> set codes. fst (verify_finish h inmemory_cache now key p code (u, c)) = Rejected errInvalidCode"
  shows "\<exists>c'. fold (\<lambda>code st. snd (verify_finish h inmemory_cache now key p code st)) codes (u, c) = (u, c') \<and> im_wf c' \<and>
    (codes \<noteq> [] \<longrightarrow> im_view c' now key = Some (AnyJSON (Challenge (p\<lparr>Challenge_Attempts := Challenge_Attempts p + 1\<rparr>))))"
  using assms(1,5)
proof (induction codes arbitrary: c)
  case Nil
  then show ?case by simp
next
  case (Cons code codes)
  let ?c = "handleFailedAttempt inmemory_cache now key p c"
  have step: "verify_finish h inmemory_cache now key p code (u, c) = (Rejected errInvalidCode, u, ?c)"
    using Cons.prems(2) verify_finish_rejected [of h inmemory_cache now key p code u c c] by simp
  have c: "im_wf ?c" "im_view ?c now key = Some (AnyJSON (Challenge (p\<lparr>Challenge_Attempts := Challenge_Attempts p + 1\<rparr>)))"
    using Cons.prems(1) assms(2-4)
    by (auto simp: handleFailedAttempt_def Let_def im.Set_eq im.view_set holds_until_def second_def)
  have "\<forall>x \<in> set codes. fst (verify_finish h inmemory_cache now key p x (u, ?c)) = Rejected errInvalidCode"
    using Cons.prems(2) verify_finish_rejected [of h inmemory_cache now key p _ u c ?c] by auto
  from Cons.IH [OF c(1) this] show ?case using step c by (cases codes) auto
qed

section \<open>Runs of the ticket exchange\<close>

text \<open>
  Requests that redeem one ticket, each of which touches the cache once, in whatever order, with
  other steps in between that do not write its entry; the index counts the redemptions.
\<close>

inductive ticket_run ::
    "'u SignIn \<Rightarrow> 'c Cache \<Rightarrow> ('c \<Rightarrow> bool) \<Rightarrow> ('c \<Rightarrow> time \<Rightarrow> string \<Rightarrow> any option) \<Rightarrow> string \<Rightarrow> nat \<Rightarrow> 'c \<Rightarrow> bool"
  for h C ok view ticket where
  minted: "ok c \<Longrightarrow> ticket_run h C ok view ticket 0 c"
| other: "ticket_run h C ok view ticket n c \<Longrightarrow> ok c' \<Longrightarrow>
    (\<forall>t. view c' t (SSOTicketCacheKey (si_crypto h) ticket) = view c t (SSOTicketCacheKey (si_crypto h) ticket)) \<or>
    (\<forall>t. view c' t (SSOTicketCacheKey (si_crypto h) ticket) = None) \<Longrightarrow>
    ticket_run h C ok view ticket n c'"
| redeem: "ticket_run h C ok view ticket n c \<Longrightarrow> consumeTicket h C now ip ticket c = (r, c') \<Longrightarrow>
    ticket_run h C ok view ticket (case r of Inl _ \<Rightarrow> n | Inr _ \<Rightarrow> Suc n) c'"

context shared_cache
begin

lemma consumeTicket_cases:
  assumes "consumeTicket h C now ip ticket c = (r, c')" and "inv c"
  obtains (malformed) e where "r = Inl e" "c' = c"
  | (pulled) "inv c'" "\<And>t. view c' t (SSOTicketCacheKey (si_crypto h) ticket) = None"
      "view c now (SSOTicketCacheKey (si_crypto h) ticket) = None \<Longrightarrow> r = Inl errInvalidTicket"
proof (cases "IsSSOTicket ticket")
  case False
  then show thesis using assms(1) malformed [of errInvalidTicket] by (simp add: consumeTicket_def)
next
  case True
  let ?k = "SSOTicketCacheKey (si_crypto h) ticket"
  obtain d where d: "Cache_Pull C now ?k c = (Cache_Get C now ?k c, d)" "inv d" "\<And>t. view d t ?k = None"
    using Pull_eq [OF assms(2)] inv_pull [OF assms(2)] view_pull [OF assms(2)] by metis
  have "c' = d"
    using assms(1) True d(1) by (auto simp: consumeTicket_def split: sum.splits if_splits)
  moreover have "r = Inl errInvalidTicket" if "view c now ?k = None"
    using assms True d(1) that get [OF assms(2), of now ?k] by (simp add: consumeTicket_def)
  ultimately show thesis using d pulled by blast
qed

lemma ticket_run_once:
  assumes "ticket_run h C inv view ticket n c"
  shows "inv c \<and> n \<le> 1 \<and> (n = 1 \<longrightarrow> (\<forall>t. view c t (SSOTicketCacheKey (si_crypto h) ticket) = None))"
  using assms
proof (induction rule: ticket_run.induct)
  case (redeem n c now ip r c')
  then have "inv c" by simp
  with redeem.hyps(2) show ?case
  proof (cases rule: consumeTicket_cases)
    case (malformed e)
    then show ?thesis using redeem.IH by simp
  next
    case pulled
    then show ?thesis using redeem.IH by (cases r) auto
  qed
qed auto

end

section \<open>Properties\<close>

definition bob_challenge :: ChallengePayload where
  "bob_challenge = \<lparr>Challenge_UserID = 1, Challenge_Login = ''bob'', Challenge_Email = ''bob@example.com'',
     Challenge_Remember = False, Challenge_Attempts = 0, Challenge_ExpiresAt = Unix (1 + ChallengeTokenDuration)\<rparr>"

definition challenged :: InMemory where
  "challenged = set_in inmemory_cache 1 (ChallengeCacheKey plain_crypto ''g2fa_s'') (AnyJSON (Challenge bob_challenge))
     [WithExpiration ChallengeTokenDuration] NewInMemory"

lemma bob_challenged:
  "IssueTwoFactorChallenge (si_crypto desk) inmemory_cache 1 (Inr ''s'') bob False NewInMemory = (Inr ''g2fa_s'', challenged)"
  by (simp add: IssueTwoFactorChallenge_def Let_def im.Set_eq ChallengeTokenPrefix_def bob_def desk_def challenged_def bob_challenge_def)

lemma challenged_wf [simp]: "im_wf challenged"
  by (simp add: challenged_def)

lemma challenged_view: "im_view challenged 1 (ChallengeCacheKey plain_crypto ''g2fa_s'') = Some (AnyJSON (Challenge bob_challenge))"
  by (simp add: challenged_def im.view_set holds_until_def ChallengeTokenDuration_def minute_def second_def)

lemma bob_wrong_code:
  "verify_finish desk inmemory_cache 1 key bob_challenge ''000000'' (accounts, c) =
     (Rejected errInvalidCode, accounts, handleFailedAttempt inmemory_cache 1 key bob_challenge c)"
proof -
  have "Users_Find (UserService inmemory_users) (Some (FindUserByIDs [1])) [] one_user accounts = Inr [bob]"
    using svc_users.find_id [OF accounts_wf, of 1] by (simp add: bob_in)
  moreover have "ValidateTOTP plain_crypto 1 ''S'' ''000000'' None = Inr (False, 0)"
    by (simp add: ValidateTOTP_def plain_crypto_def Unix_def second_def totpPeriod_def totpSkew_def upto.simps)
  ultimately show ?thesis
    by (simp add: verify_finish_def verify_loadUser_def desk_def bob_challenge_def verifyCode_def verify_recovery_def bob_def)
qed

definition wrong_guess :: "verifyInput body" where
  "wrong_guess = Document \<lparr>vi_ChallengeToken = ''g2fa_s'', vi_Code = ''000000''\<rparr> ''''"

lemma wrong_guess_reply:
  "verify_ServeHTTP desk inmemory_cache 1 wrong_guess (accounts, challenged) =
     (Rejected errInvalidCode, accounts, handleFailedAttempt inmemory_cache 1 (ChallengeCacheKey plain_crypto ''g2fa_s'') bob_challenge challenged)"
proof -
  have valid: "verifyInput_Validate \<lparr>vi_ChallengeToken = ''g2fa_s'', vi_Code = ''000000''\<rparr> =
      Inr \<lparr>vi_ChallengeToken = ''g2fa_s'', vi_Code = ''000000''\<rparr>" by code_simp
  have "loadChallenge inmemory_cache 1 (ChallengeCacheKey plain_crypto ''g2fa_s'') challenged = (Inr bob_challenge, challenged)"
    using challenged_view im.get [OF challenged_wf] by (simp add: loadChallenge_def UnmarshalChallengePayload_def)
  then show ?thesis
    using bob_wrong_code
    by (simp add: verify_ServeHTTP_def verify_begin_def wrong_guess_def json_Decode_def valid Let_def IsChallengeToken_def
        ChallengeTokenPrefix_def desk_def)
qed

text \<open>
  C3. A challenge is worth five guesses and one session: on every run in which the requests that
  present it do not overlap, at most five codes are rejected and at most one session is granted, and
  once either budget is spent the challenge is gone from the cache.
\<close>

theorem challenge_budget:
  assumes "verify_run h inmemory_cache im_wf im_view token m n st"
  shows "m \<le> 5 \<and> n \<le> 1 \<and>
    (m = 5 \<or> n = 1 \<longrightarrow> im_view (snd st) t (ChallengeCacheKey (si_crypto h) token) = None)"
proof -
  have "im.spent (ChallengeCacheKey (si_crypto h) token) m n (snd st)"
    by (rule im.verify_run_spent [OF assms])
  then show ?thesis
    by (cases "im_view (snd st) t (ChallengeCacheKey (si_crypto h) token)") (auto simp: im.spent_def)
qed

theorem challenge_budget_witness:
  "verify_run desk inmemory_cache im_wf im_view ''g2fa_s'' 1 0
     (snd (verify_ServeHTTP desk inmemory_cache 1 wrong_guess (accounts, challenged))) \<and> (1 :: nat) \<le> 5"
proof -
  have start: "verify_run desk inmemory_cache im_wf im_view ''g2fa_s'' 0 0 (accounts, challenged)"
    by (rule verify_run.issued [OF _ _ bob_challenged]) simp_all
  have trim: "TrimSpace ''g2fa_s'' = ''g2fa_s''" by code_simp
  have "verify_run desk inmemory_cache im_wf im_view ''g2fa_s'' 1 0
     (snd (verify_ServeHTTP desk inmemory_cache 1 wrong_guess (accounts, challenged)))"
    using verify_run.attempt [OF start _ _ _ wrong_guess_reply, of "\<lparr>vi_ChallengeToken = ''g2fa_s'', vi_Code = ''000000''\<rparr>"]
    by (simp add: wrong_guess_reply) (simp add: wrong_guess_def json_Decode_def trim)
  from this challenge_budget [OF this] show ?thesis by simp
qed

text \<open>
  C36. Guesses that overlap share one unit of the budget: when any number of requests have loaded the
  challenge before the first of them finishes, all their codes are checked, and if all are wrong the
  challenge stays in the cache with its counter raised by one.
\<close>

theorem overlapping_guesses:
  assumes "im_wf c" and "0 \<le> now" and "Unix now < Challenge_ExpiresAt p"
    and "Challenge_Attempts p + 1 < maxVerifyAttempts" and "codes \<noteq> []"
    and "\<forall>code \<in> set codes. fst (verify_finish h inmemory_cache now key p code (u, c)) = Rejected errInvalidCode"
    and "st = fold (\<lambda>code st. snd (verify_finish h inmemory_cache now key p code st)) codes (u, c)"
  shows "im_view (snd st) now key = Some (AnyJSON (Challenge (p\<lparr>Challenge_Attempts := Challenge_Attempts p + 1\<rparr>)))"
  using overlapping_checks [OF assms(1-4,6)] assms(5,7) by auto

theorem overlapping_guesses_witness:
  "im_view (snd (fold (\<lambda>code st. snd (verify_finish desk inmemory_cache 1 (ChallengeCacheKey plain_crypto ''g2fa_s'') bob_challenge code st))
     (replicate 1000 ''000000'') (accounts, challenged))) 1 (ChallengeCacheKey plain_crypto ''g2fa_s'') =
   Some (AnyJSON (Challenge (bob_challenge\<lparr>Challenge_Attempts := 1\<rparr>)))"
proof -
  have p: "Unix 1 < Challenge_ExpiresAt bob_challenge" "Challenge_Attempts bob_challenge = 0"
    by (simp_all add: bob_challenge_def Unix_def ChallengeTokenDuration_def minute_def second_def)
  have "im_view (snd (fold (\<lambda>code st. snd (verify_finish desk inmemory_cache 1 (ChallengeCacheKey plain_crypto ''g2fa_s'') bob_challenge code st))
     (replicate 1000 ''000000'') (accounts, challenged))) 1 (ChallengeCacheKey plain_crypto ''g2fa_s'') =
   Some (AnyJSON (Challenge (bob_challenge\<lparr>Challenge_Attempts := Challenge_Attempts bob_challenge + 1\<rparr>)))"
    by (rule overlapping_guesses [OF challenged_wf _ p(1), where codes = "replicate 1000 ''000000''" and h = desk and u = accounts])
      (auto simp: p maxVerifyAttempts_def bob_wrong_code simp del: fold_replicate)
  then show ?thesis by (simp only: p) simp
qed

definition bob_ticket :: SSOTicketPayload where
  "bob_ticket = \<lparr>Ticket_UserID = 1, Ticket_Login = ''bob'', Ticket_IssuerID = 9, Ticket_IssuerPATID = 0,
     Ticket_RedirectTo = '''', Ticket_ClientIP = '''', Ticket_ExpiresAt = 1800000000\<rparr>"

definition ticketed :: InMemory where
  "ticketed = set_in inmemory_cache 1 (SSOTicketCacheKey plain_crypto ''glsso_t'') (AnyJSON (Ticket bob_ticket)) [] NewInMemory"

text \<open>
  C11. A ticket is redeemed at most once: however the requests that present it interleave with each
  other and with other users of the cache, at most one of them gets its payload.
\<close>

theorem ticket_used_once:
  assumes "ticket_run h inmemory_cache im_wf im_view ticket n c"
  shows "n \<le> 1"
  using im.ticket_run_once [OF assms] by simp

theorem ticket_used_once_witness:
  "ticket_run desk inmemory_cache im_wf im_view ''glsso_t'' 1 (snd (consumeTicket desk inmemory_cache 1 ''10.0.0.1'' ''glsso_t'' ticketed)) \<and>
   (1 :: nat) \<le> 1"
proof -
  let ?k = "SSOTicketCacheKey plain_crypto ''glsso_t''"
  have wf: "im_wf ticketed" by (simp add: ticketed_def)
  have "im_view ticketed 1 ?k = Some (AnyJSON (Ticket bob_ticket))"
    by (simp add: ticketed_def im.view_set holds_until_def)
  then have "fst (consumeTicket desk inmemory_cache 1 ''10.0.0.1'' ''glsso_t'' ticketed) = Inr bob_ticket"
    using im.pull [OF wf, of 1 ?k]
    by (auto simp: consumeTicket_def IsSSOTicket_def SSOTicketPrefix_def desk_def UnmarshalSSOTicketPayload_def bob_ticket_def
        Unix_def second_def)
  then have "consumeTicket desk inmemory_cache 1 ''10.0.0.1'' ''glsso_t'' ticketed =
      (Inr bob_ticket, snd (consumeTicket desk inmemory_cache 1 ''10.0.0.1'' ''glsso_t'' ticketed))"
    by (metis prod.collapse)
  from ticket_run.redeem [where h = desk, OF ticket_run.minted [where ok = im_wf and view = im_view, OF wf] this]
  have "ticket_run desk inmemory_cache im_wf im_view ''glsso_t'' 1 (snd (consumeTicket desk inmemory_cache 1 ''10.0.0.1'' ''glsso_t'' ticketed))"
    by simp
  from this ticket_used_once [OF this] show ?thesis by simp
qed

text \<open>
  A single-use token for URLs can be used twice: a request that read the entry of the token before
  the first request deleted it gets the same session as the first, while a request that comes after
  the deletion is refused.
\<close>

theorem short_token_replayed:
  assumes "im_wf c" and "processShortLivedToken h inmemory_cache now token (u, c) = (Inr s, c1)"
    and "shortlived_begin (si_crypto h) inmemory_cache now' token c = Inr raw"
  shows "fst (shortlived_finish h inmemory_cache token raw (u, c1)) = Inr s \<and>
    fst (processShortLivedToken h inmemory_cache t token (u, c1)) = Inl (HTTPError 401 ''invalid or expired short-lived token'')"
proof -
  let ?k = "ShortLivedCacheKey (si_crypto h) token"
  obtain raw1 where raw1: "shortlived_begin (si_crypto h) inmemory_cache now token c = Inr raw1"
      "shortlived_finish h inmemory_cache token raw1 (u, c) = (Inr s, c1)"
    using assms(2) by (auto simp: processShortLivedToken_def split: sum.splits)
  have view: "im_view c now ?k = Some raw1" "im_view c now' ?k = Some raw"
    using raw1(1) assms(1,3) by (auto simp: shortlived_begin_def im.get split: option.splits sum.splits)
  have "raw1 = raw"
    using view im.fades [OF assms(1), of now now' ?k] im.fades [OF assms(1), of now' now ?k]
    by (cases "now \<le> now'") auto
  have c1: "c1 = delete_in inmemory_cache ?k c"
    using raw1(2) by (auto simp: shortlived_finish_def Let_def delete_in_def split: sum.splits list.splits)
  have "fst (shortlived_finish h inmemory_cache token raw (u, c1)) = fst (shortlived_finish h inmemory_cache token raw (u, c))"
    by (simp add: shortlived_finish_def Let_def split: sum.split list.split)
  moreover have "Cache_Get inmemory_cache t ?k c1 = Inl ErrNotFound"
    using assms(1) im.view_delete [OF assms(1), of ?k t ?k] by (simp add: c1 im.get)
  ultimately show ?thesis
    using raw1(2) \<open>raw1 = raw\<close> by (simp add: processShortLivedToken_def shortlived_begin_def)
qed

definition tokened :: InMemory where
  "tokened = set_in inmemory_cache 1 (ShortLivedCacheKey plain_crypto ''glst_u'')
     (AnyJSON (ShortLived \<lparr>Short_UserID = 1, Short_Login = ''bob'', Short_Email = '''', Short_PATID = 0, Short_Abilities = []\<rparr>))
     [WithExpiration maxTokenTTL] NewInMemory"

theorem short_token_replayed_witness:
  "\<exists>s c1 raw. processShortLivedToken desk inmemory_cache 2 ''glst_u'' (accounts, tokened) = (Inr s, c1) \<and>
     shortlived_begin plain_crypto inmemory_cache 2 ''glst_u'' tokened = Inr raw \<and>
     fst (shortlived_finish desk inmemory_cache ''glst_u'' raw (accounts, c1)) = Inr s"
proof -
  let ?p = "\<lparr>Short_UserID = 1, Short_Login = ''bob'', Short_Email = '''', Short_PATID = 0, Short_Abilities = []\<rparr>"
  have wf: "im_wf tokened" by (simp add: tokened_def)
  have "im_view tokened 2 (ShortLivedCacheKey plain_crypto ''glst_u'') = Some (AnyJSON (ShortLived ?p))"
    by (simp add: tokened_def im.view_set holds_until_def maxTokenTTL_def second_def)
  then have read: "shortlived_begin plain_crypto inmemory_cache 2 ''glst_u'' tokened = Inr (AnyJSON (ShortLived ?p))"
    by (simp add: shortlived_begin_def im.get wf)
  have "Users_Find (UserService inmemory_users) (Some (FindUserByIDs [1])) [] one_user accounts = Inr [bob]"
    using svc_users.find_id [OF accounts_wf, of 1] by (simp add: bob_in)
  then have first: "processShortLivedToken desk inmemory_cache 2 ''glst_u'' (accounts, tokened) =
      (Inr (shortlived_session bob ?p), snd (processShortLivedToken desk inmemory_cache 2 ''glst_u'' (accounts, tokened)))"
    using read by (simp add: processShortLivedToken_def shortlived_finish_def Let_def UnmarshalShortLivedPayload_def desk_def)
  have read': "shortlived_begin (si_crypto desk) inmemory_cache 2 ''glst_u'' tokened = Inr (AnyJSON (ShortLived ?p))"
    using read by (simp add: desk_def)
  from first read short_token_replayed [OF wf first read', THEN conjunct1] show ?thesis by blast
qed


lemma bob_code:
  "ValidateTOTP plain_crypto (62135596860 * second) ''S'' ''S2'' None = Inr (True, 2)"
proof -
  have "decimal 1 = ''1''" "decimal 2 = ''2''" by code_simp+
  then show ?thesis
    by (simp add: ValidateTOTP_def plain_crypto_def Unix_def second_def totpPeriod_def totpSkew_def upto.simps)
qed


section \<open>The grace window of administrators\<close>

lemma int64_small: "- (2 ^ 63) \<le> n \<Longrightarrow> n < 2 ^ 63 \<Longrightarrow> int64 n = n"
  by (simp add: int64_def)

lemma nudge_at:
  assumes "nc_RequireMFAForAdmins cfg" and "0 < nc_MFAHardFailDays cfg" and "nc_MFAHardFailDays cfg \<le> 106751"
    and "NewView (Compute cfg now \<lparr>snap_TwoFactorEnabled = False, snap_IsAdmin = True,
      snap_FirstShownAt = Some t, snap_SnoozedUntil = z\<rparr>) = v"
  shows "\<exists>x. v = Some x \<and> (view_HardFail x \<longleftrightarrow> t + nc_MFAHardFailDays cfg * day \<le> now)"
proof -
  have "int64 (nc_MFAHardFailDays cfg * day) = nc_MFAHardFailDays cfg * day"
    using assms(2,3) by (intro int64_small) (simp_all add: day_def second_def)
  then show ?thesis
    using assms by (auto simp: Compute_def NewView_def Let_def no_recommendation_def)
qed

text \<open>
  C31. The grace window closes for good: for an administrator without a second factor whose first
  reminder was at \<open>t\<close>, a password login grants a token scoped to enrolment exactly from \<open>t\<close> plus the
  configured days on, whatever was snoozed, and a full session before.  The bound on the days is the
  one under which their product fits Go's 64-bit durations.
\<close>

theorem grace_window:
  assumes "si_nudge h = Some cfg" and "nc_RequireMFAForAdmins cfg" and "0 < nc_MFAHardFailDays cfg"
    and "nc_MFAHardFailDays cfg \<le> 106751" and "si_rbac h = Some can" and "can (User_ID user) = Inr True"
    and "\<not> User_TwoFactorEnabled user" and "MFAFirstShownAt user = Some t"
    and "fst (completeLogin h now user remember u) = Accepted (LoginGrant r)"
  shows "(lr_MFAEnrollmentRequired r \<longleftrightarrow> t + nc_MFAHardFailDays cfg * day \<le> now) \<and>
    (if lr_MFAEnrollmentRequired r then si_GenerateMFAEnrollmentToken h user (si_enrollmentTokenTTL h)
     else si_GenerateTokenForUser h user (if remember then RememberMeDuration else DefaultTokenDuration)) = Inr (lr_Token r)"
proof -
  let ?snap = "\<lparr>snap_TwoFactorEnabled = False, snap_IsAdmin = True, snap_FirstShownAt = Some t,
    snap_SnoozedUntil = MFASnoozedUntil user\<rparr>"
  obtain x where x: "NewView (Compute cfg now ?snap) = Some x"
      "view_HardFail x \<longleftrightarrow> t + nc_MFAHardFailDays cfg * day \<le> now"
    using nudge_at [OF assms(2-4) refl] by blast
  have "\<not> rec_PersistFirstShown (Compute cfg now ?snap)"
    by (simp add: Compute_def no_recommendation_def Let_def)
  then have "evaluateMFANudge h now user u = (Some x, user, u)"
    using assms(1,5-8) x(1) by (simp add: evaluateMFANudge_def EvaluateMFANudge_def Let_def)
  then show ?thesis
    using assms(9) x(2)
    by (auto simp: completeLogin_def Let_def issueMFAEnrollmentSession_def newLoginResponseFromUser_def
        split: sum.splits if_splits)
qed

definition strict_desk :: "UserRepository SignIn" where
  "strict_desk = desk\<lparr>si_rbac := Some (\<lambda>_. Inr True),
     si_nudge := Some \<lparr>nc_RequireMFAForAdmins = True, nc_MFAHardFailDays = 7\<rparr>\<rparr>"

definition late_admin :: User where
  "late_admin = bob\<lparr>User_TwoFactorEnabled := False, User_mfa_first_shown_at := Some 0, User_mfa_snoozed_until := Some (8 * day)\<rparr>"

theorem grace_window_witness:
  "\<exists>r. fst (completeLogin strict_desk (7 * day) late_admin True accounts) = Accepted (LoginGrant r) \<and> lr_MFAEnrollmentRequired r"
proof -
  have "\<exists>r. fst (completeLogin strict_desk (7 * day) late_admin True accounts) = Accepted (LoginGrant r)"
    by (simp add: completeLogin_def Let_def evaluateMFANudge_def EvaluateMFANudge_def strict_desk_def desk_def late_admin_def
        MFAFirstShownAt_def MFASnoozedUntil_def Compute_def no_recommendation_def NewView_def issueMFAEnrollmentSession_def
        split: option.split)
  then obtain r where r: "fst (completeLogin strict_desk (7 * day) late_admin True accounts) = Accepted (LoginGrant r)" by blast
  have "lr_MFAEnrollmentRequired r \<longleftrightarrow> 0 + nc_MFAHardFailDays \<lparr>nc_RequireMFAForAdmins = True, nc_MFAHardFailDays = 7\<rparr> * day \<le> 7 * day"
    by (rule grace_window [OF _ _ _ _ _ _ _ _ r, THEN conjunct1])
      (simp_all add: strict_desk_def late_admin_def MFAFirstShownAt_def)
  with r show ?thesis by simp
qed

end
