(* ===== verification/Auth_Properties.thy ===== *)
theory Auth_Properties
  imports Route_Table Sign_In_Runs
begin

text \<open>
  What holds of credentials from the request that made them to the request that ends them: the kinds of
  token each part of a request may carry, the life of a personal access token, single-use tokens and
  the session they come from, logging out, and what another component of the panel does to it through
  the cache they share.
\<close>

section \<open>Kinds of token\<close>

lemma not_numeric_g: "\<not> IsNumeric (before_pipe (CHR ''g'' # token))"
  by (simp add: before_pipe_def IsNumeric_def)

lemma confined_unknown:
  assumes "IsChallengeToken token \<or> IsSSOTicket token"
  shows "detectTokenType m token = tokenTypeUnknown" and "token \<noteq> ''''"
  using assms not_numeric_g
  by (auto simp: detectTokenType_def IsChallengeToken_def IsSSOTicket_def IsShortLivedToken_def ChallengeTokenPrefix_def
      SSOTicketPrefix_def ShortLivedTokenPrefix_def prefix_def)

text \<open>
  C21. Every credential is good for its own purpose only.  A second-factor challenge or a single-sign-on
  ticket is never a session: any request that carries one is refused before the handler, also where
  guests are let in.  Of the requests that are given a session, one that carries its credential in the
  URL has a single-use token, one that carries it in a cookie has no personal access token of its own,
  and a session confined to enrolment comes from a signed session token.
\<close>

theorem token_kinds:
  assumes "extractToken rq = (token, source)"
  shows "(IsChallengeToken token \<or> IsSSOTicket token \<longrightarrow>
      auth_middleware m now rq optional handler ctx st = (Rejected (HTTPError 401 ''invalid or expired token''), st)) \<and>
    (auth_middleware m now rq optional reached None st = (Accepted (Some s), st') \<longrightarrow>
      (source = tokenSourceQuery \<longrightarrow> session_ShortLived s) \<and>
      (source = tokenSourceCookie \<longrightarrow> session_ShortLived s \<or> session_Token s = None) \<and>
      (session_MFAEnrollmentOnly s \<longrightarrow> detectTokenType m token = tokenTypeUserAuth \<and> \<not> IsTokenSession (Some s)))"
proof (intro conjI impI, goal_cases)
  case 1
  then show ?case using confined_unknown(1) [OF 1, of m] confined_unknown(2) [OF 1] assms by (simp add: auth_middleware_def sourceAllowsTokenType_def)
next
  case 2
  then show ?case
    using auth_middleware_accepts(2-4) [OF 2(1)] process_token_session [OF auth_middleware_accepts(2) [OF 2(1)]] assms
    by (simp add: sourceAllowsTokenType_def)
next
  case 3
  then show ?case
    using auth_middleware_accepts(2-4) [OF 3(1)] process_token_session [OF auth_middleware_accepts(2) [OF 3(1)]] assms
    by (auto simp: sourceAllowsTokenType_def)
next
  case 4
  then show ?case
    using process_token_session(4) [OF auth_middleware_accepts(2) [OF 4(1)]] assms by simp
next
  case 5
  then show ?case
    using process_token_session(3,4) [OF auth_middleware_accepts(2) [OF 5(1)]] assms by (simp add: IsTokenSession_def)
qed

theorem token_kinds_witness:
  "auth_middleware gate 1 (bearer ''glsso_t'') True reached None panel0 =
     (Rejected (HTTPError 401 ''invalid or expired token''), panel0) \<and>
   \<not> IsTokenSession (Some (session_of_bob True))"
proof -
  have x: "extractToken (bearer ''glsso_t'') = (''glsso_t'', tokenSourceHeader)"
    "extractToken (bearer ''v4.local.enrol'') = (''v4.local.enrol'', tokenSourceHeader)" by simp_all
  have "IsSSOTicket ''glsso_t''" by (simp add: IsSSOTicket_def SSOTicketPrefix_def)
  then have "auth_middleware gate 1 (bearer ''glsso_t'') True reached None panel0 =
      (Rejected (HTTPError 401 ''invalid or expired token''), panel0)"
    using token_kinds [OF x(1)] by blast
  moreover have "auth_middleware gate 1 (bearer ''v4.local.enrol'') True reached None panel0 =
      (Accepted (Some (session_of_bob True)), panel0)"
    by (simp add: gate_user_token [where scoped = True] reached_def)
  then have "session_MFAEnrollmentOnly (session_of_bob True) \<longrightarrow> \<not> IsTokenSession (Some (session_of_bob True))"
    using token_kinds [OF x(2)] by blast
  ultimately show ?thesis by (simp add: session_of_bob_def)
qed

section \<open>Logging out\<close>

lemma role_save_empties:
  assumes "Cached_SaveRole (panel_rbac ttl hash j1 j2 j3) role (s, c) = (Inr role', (s', c'))"
  shows "im_wf c'" and "im_view c' t k = None"
proof -
  have "c' = invalidateRoleCache (panel_rbac ttl hash j1 j2 j3) c"
    using assms by (auto simp: Cached_SaveRole_def split: prod.splits sum.splits)
  then show "im_wf c'" "im_view c' t k = None"
    by (simp_all add: invalidateRoleCache_def InvalidatePatternBestEffort_def InvalidatePattern_def im.Clear_eq)
qed

abbreviation denied_key :: "('u, 'p, 'c) AuthMiddleware \<Rightarrow> string \<Rightarrow> string" where
  "denied_key m token \<equiv> revocationKeyPrefix @ TokenIdentifier (am_crypto m) token"

lemma IsRevoked_view:
  assumes "am_revocation m = Some inmemory_cache" and "im_wf c"
  shows "IsRevoked m t (TokenIdentifier (am_crypto m) token) c = Inr (im_view c t (denied_key m token) \<noteq> None)"
  using assms by (simp add: IsRevoked_def CacheRevocation_IsRevoked_def im.get split: option.split)

lemma session_token_middleware:
  assumes "am_revocation m = Some inmemory_cache" and "im_wf c" and "extractToken rq = (token, source)" and "token \<noteq> ''''"
    and "detectTokenType m token = tokenTypeUserAuth"
  shows "auth_middleware m t rq False handler ctx (u, p, c) =
    (if source = tokenSourceHeader \<or> source = tokenSourceCookie then
       (case processUserAuthToken m t token u of
          Inl e \<Rightarrow> (Rejected e, u, p, c)
        | Inr s \<Rightarrow> if im_view c t (denied_key m token) = None then handler (Some s) (u, p, c)
                  else (Rejected (HTTPError 401 ''token has been revoked''), u, p, c))
     else (Rejected (HTTPError 401 ''missing authentication token''), u, p, c))"
  using assms(3-5) IsRevoked_view [OF assms(1,2), of t token]
  by (auto simp: auth_middleware_def sourceAllowsTokenType_def finishRejected_def process_token_def
      split: tokenSource.splits sum.splits)

lemma extractBearerToken_eq: "extractBearerToken rq = fst (extractToken rq)"
  by (auto simp: extractBearerToken_def extractToken_def Let_def split: option.splits)

lemma logout_denies:
  assumes "im_wf c" and "0 \<le> now" and "token \<noteq> ''''" and "fst (extractToken rq) = token"
    and "am_ValidateToken m now token = Inr claims" and "claims_ExpirationTime claims = Inr (Some exp)" and "now < exp"
    and "logout_ServeHTTP m inmemory_cache now rq ctx (u, p, c) = (Accepted (), u', p', c')"
  shows "im_wf c' \<and> u' = u \<and> p' = p \<and>
    (\<forall>t. im_view c' t (denied_key m token) = (if t \<le> exp then Some (AnyBool True) else None))"
proof -
  have "revocationTTL m now token = exp - now" using assms(5-7) by (simp add: revocationTTL_def)
  then have "u' = u \<and> p' = p \<and>
      c' = set_in inmemory_cache now (denied_key m token) (AnyBool True) [WithExpiration (exp - now)] c"
    using assms by (auto simp: logout_ServeHTTP_def extractBearerToken_eq CacheRevocation_Revoke_def im.Set_eq split: if_splits)
  then show ?thesis using assms(1,2,7) by (auto simp: im.view_set holds_until_def)
qed


text \<open>The sample token service with an expiry, and the state after logging out.\<close>

definition clock_gate :: "(UserRepository, PersonalAccessTokenRepository, InMemory) AuthMiddleware" where
  "clock_gate = gate\<lparr>am_ValidateToken := (\<lambda>t token. if t \<le> 24 * hour then plain_claims token else Inl (Errorf ''token expired''))\<rparr>"

definition logged_out :: InMemory where
  "logged_out = snd (snd (snd (logout_ServeHTTP clock_gate inmemory_cache 1 (bearer ''v4.local.bob'') (Some (session_of_bob False)) panel0)))"

lemma logout_bob:
  "logout_ServeHTTP clock_gate inmemory_cache 1 (bearer ''v4.local.bob'') (Some (session_of_bob False)) panel0 =
     (Accepted (), accounts, NewPersonalAccessTokenRepository, logged_out)"
proof -
  have "extractBearerToken (bearer ''v4.local.bob'') = ''v4.local.bob''" by (simp add: extractBearerToken_eq)
  moreover have "IsAuthenticated (Some (session_of_bob False))" by (simp add: IsAuthenticated_def session_of_bob_def bob_def)
  moreover have "im_wf NewInMemory" by simp
  ultimately show ?thesis
    by (simp add: logged_out_def logout_ServeHTTP_def panel0_def CacheRevocation_Revoke_def im.Set_eq Let_def)
qed

abbreviation bob_claims :: Claims where
  "bob_claims \<equiv> \<lparr>claims_Subject = Inr ''user:login:bob'', claims_ExpirationTime = Inr (Some (24 * hour)),
     claims_Scope = Inr '''', claims_IssuedAt = Inr (Some 0)\<rparr>"

lemma clock_gate_claims:
  "\<forall>t. am_ValidateToken clock_gate t ''v4.local.bob'' = (if t \<le> 24 * hour then Inr bob_claims else Inl (Errorf ''token expired''))"
  by (simp add: clock_gate_def plain_claims_def)

lemma clock_gate_kind: "detectTokenType clock_gate ''v4.local.bob'' = tokenTypeUserAuth"
  by (simp add: detectTokenType_def clock_gate_def gate_def IsShortLivedToken_def ShortLivedTokenPrefix_def)

lemma clock_gate_revocation: "am_revocation clock_gate = Some inmemory_cache"
  by (simp add: clock_gate_def gate_def)

lemma day_ahead: "(1 :: int) < 24 * hour" "(2 :: int) \<le> 24 * hour"
  by (simp_all add: hour_def second_def)

lemma clock_gate_bob: "processUserAuthToken clock_gate 2 ''v4.local.bob'' accounts = Inr (session_of_bob False)"
proof -
  have "si_users (am_signin clock_gate) = UserService inmemory_users" by (simp add: clock_gate_def gate_def desk_def)
  moreover have "User_Login bob = ''bob''" "PasswordChangedAt bob = None" by (simp_all add: bob_def PasswordChangedAt_def)
  ultimately show ?thesis
    using find_bob_login clock_gate_claims day_ahead(2)
    by (simp add: processUserAuthToken_def subject_prefix_def TrimPrefix_def rejectIfIssuedBeforePasswordChange_def
        session_of_bob_def ScopeMFAEnrollment_def)
qed

lemma logged_out_ok:
  "im_wf logged_out" "im_view logged_out 2 (denied_key clock_gate ''v4.local.bob'') \<noteq> None"
  using logout_denies [OF im_wf_new _ _ _ _ _ day_ahead(1) logout_bob [unfolded panel0_def], of "''v4.local.bob''" bob_claims]
    clock_gate_claims day_ahead by simp_all


text \<open>
  C37. Saving a role undoes every logout and resets the login limiter.  The caching layer of the
  access-control repository answers a pattern invalidation on a cache other than Redis by clearing it,
  and the denylist and the counters of failed sign-ins are kept in the same cache: a token that was
  refused as revoked is accepted again, and no account and no address is limited any more.
\<close>

theorem role_save_undoes_logout:
  assumes "Cached_SaveRole (panel_rbac ttl hash j1 j2 j3) role (rs, c) = (Inr role', (rs', c'))"
    and "im_wf c" and "am_revocation m = Some inmemory_cache" and "im_view c now (denied_key m token) \<noteq> None"
    and "extractToken rq = (token, tokenSourceHeader)" and "token \<noteq> ''''" and "detectTokenType m token = tokenTypeUserAuth"
    and "processUserAuthToken m now token u = Inr s" and "0 < lm_maxPerIP lm" and "0 < lm_maxPerUser lm"
  shows "auth_middleware m now rq False handler ctx (u, p, c) = (Rejected (HTTPError 401 ''token has been revoked''), u, p, c) \<and>
    auth_middleware m now rq False handler ctx (u, p, c') = handler (Some s) (u, p, c') \<and>
    shouldBlock lm inmemory_cache sha now ip username c' = None"
proof -
  have empty: "im_wf c'" "\<And>t k. im_view c' t k = None" using role_save_empties [OF assms(1)] by auto
  have "auth_middleware m now rq False handler ctx (u, p, c) = (Rejected (HTTPError 401 ''token has been revoked''), u, p, c)"
    using assms(4) by (auto simp: session_token_middleware [OF assms(3,2,5-7)] assms(8))
  moreover have "auth_middleware m now rq False handler ctx (u, p, c') = handler (Some s) (u, p, c')"
    by (simp add: session_token_middleware [OF assms(3) empty(1) assms(5-7)] empty(2) assms(8))
  ultimately show ?thesis using shouldBlock_empty [OF assms(9,10) empty(1)] empty(2) by simp
qed

theorem role_save_undoes_logout_witness:
  "\<exists>role' rs' c'. Cached_SaveRole plain_panel support_role (NewRBACRepository, logged_out) = (Inr role', (rs', c')) \<and>
     auth_middleware clock_gate 2 (bearer ''v4.local.bob'') False reached None (accounts, NewPersonalAccessTokenRepository, c') =
       (Accepted (Some (session_of_bob False)), accounts, NewPersonalAccessTokenRepository, c')"
proof -
  have "saveable support_role NewRBACRepository"
    by (simp add: saveable_def support_role_def NewRBACRepository_def counter_room_def)
  then obtain role' rs' where "SaveRole inmemory_roles support_role NewRBACRepository = (Inr role', rs')"
    using SaveRole_wf [OF rbac_wf_new] by blast
  then have save: "Cached_SaveRole plain_panel support_role (NewRBACRepository, logged_out) =
      (Inr role', (rs', invalidateRoleCache plain_panel logged_out))"
    by (simp add: Cached_SaveRole_def)
  have "auth_middleware clock_gate 2 (bearer ''v4.local.bob'') False reached None
      (accounts, NewPersonalAccessTokenRepository, invalidateRoleCache plain_panel logged_out) =
    reached (Some (session_of_bob False)) (accounts, NewPersonalAccessTokenRepository, invalidateRoleCache plain_panel logged_out)"
    by (rule role_save_undoes_logout [OF save logged_out_ok(1) clock_gate_revocation logged_out_ok(2) _ _ clock_gate_kind
          clock_gate_bob, where lm = "NewLoginRateLimitMiddleware []", THEN conjunct2, THEN conjunct1])
      (simp_all add: limiter_defs)
  with save show ?thesis by (auto simp: reached_def)
qed

section \<open>Personal access tokens\<close>

lemma decimal_digits: "c \<in> set (decimal n) \<Longrightarrow> 48 \<le> (of_char c :: nat) \<and> of_char c \<le> (57 :: nat)"
proof (induction n rule: decimal.induct)
  case (1 n)
  have digit: "48 \<le> (of_char (digit k) :: nat) \<and> of_char (digit k) \<le> (57 :: nat)" if "k < 10" for k
    using that by (simp add: digit_def)
  show ?case
  proof (cases "n < 10")
    case True
    then show ?thesis using 1(2) digit [of n] by (simp add: decimal.simps [of n])
  next
    case False
    have "c \<in> set (decimal (n div 10)) \<or> c = digit (n mod 10)"
      using 1(2) False by (auto simp: decimal.simps [of n])
    then show ?thesis using 1(1) False digit [of "n mod 10"] by auto
  qed
qed

lemma IsNumeric_decimal: "IsNumeric (decimal n)"
  using decimal_digits by (auto simp: IsNumeric_def list_all_iff)

lemma decimal_value_decimal: "decimal_value (decimal n) = int n"
proof (induction n rule: decimal.induct)
  case (1 n)
  have digit: "(of_char (digit k) :: nat) = 48 + k" if "k < 10" for k
    using that by (simp add: digit_def)
  show ?case
  proof (cases "n < 10")
    case True
    then show ?thesis using digit [of n] by (simp add: decimal.simps [of n] decimal_value_def)
  next
    case False
    then have "decimal_value (decimal n) = 10 * int (n div 10) + int (n mod 10)"
      using 1 digit [of "n mod 10"] by (simp add: decimal.simps [of n] decimal_value_def)
    then show ?thesis by (simp add: zdiv_int zmod_int)
  qed
qed

lemma Atoi_decimal:
  assumes "n < 2 ^ 63"
  shows "Atoi (decimal n) = Inr (int n)"
proof -
  have "hd (decimal n) \<noteq> CHR ''-'' \<and> hd (decimal n) \<noteq> CHR ''+''"
    using decimal_digits [of "hd (decimal n)" n] by auto
  moreover have "int n < 2 ^ 63" using assms by (metis of_nat_less_iff of_nat_numeral of_nat_power)
  ultimately show ?thesis using IsNumeric_decimal by (simp add: Atoi_def decimal_value_decimal)
qed

lemma token_text:
  assumes "CHR '' '' \<notin> set plain"
  shows "before_pipe (decimal n @ ''|'' @ plain) = decimal n"
    and "tl (dropWhile (\<lambda>c. c \<noteq> CHR ''|'') (decimal n @ ''|'' @ plain)) = plain"
    and "detectTokenType m (decimal n @ ''|'' @ plain) = tokenTypePersonalAccess"
    and "extractToken (bearer (decimal n @ ''|'' @ plain)) = (decimal n @ ''|'' @ plain, tokenSourceHeader)"
proof -
  have nodes: "\<forall>c \<in> set (decimal n). c \<noteq> CHR ''|'' \<and> c \<noteq> CHR '' '' \<and> c \<noteq> CHR ''g'' \<and> c \<noteq> CHR ''v'' \<and> c \<noteq> CHR ''e''"
    using decimal_digits [of _ n] by fastforce
  then show pipe: "before_pipe (decimal n @ ''|'' @ plain) = decimal n"
    by (simp add: before_pipe_def takeWhile_append2)
  show "tl (dropWhile (\<lambda>c. c \<noteq> CHR ''|'') (decimal n @ ''|'' @ plain)) = plain"
    using nodes by (simp add: dropWhile_append2)
  obtain d ds where d: "decimal n = d # ds" using decimal_not_Nil by (metis neq_Nil_conv)
  then have "d \<noteq> CHR ''g'' \<and> d \<noteq> CHR ''v'' \<and> d \<noteq> CHR ''e''" using nodes by simp
  then show "detectTokenType m (decimal n @ ''|'' @ plain) = tokenTypePersonalAccess"
    using pipe IsNumeric_decimal [of n] d
    by (auto simp: detectTokenType_def IsShortLivedToken_def ShortLivedTokenPrefix_def)
  show "extractToken (bearer (decimal n @ ''|'' @ plain)) = (decimal n @ ''|'' @ plain, tokenSourceHeader)"
    using nodes assms by (intro extract_bearer) auto
qed

lemma Save_token_new:
  assumes "pr_wf p" and "counter_room (pr_nextID p) 1" and "PAT_ID tok = 0" and "PAT_CreatedAt tok = Some now"
    and "i = id_of_counter (pr_nextID p + 1)" and "tok' = tok\<lparr>PAT_UpdatedAt := Some now, PAT_ID := i\<rparr>"
  shows "\<exists>p'. Tokens_Save inmemory_tokens now tok p = (None, tok', p') \<and> pr_wf p' \<and> token_in p' = (token_in p)(i \<mapsto> tok')"
proof -
  have next_id: "unat (pr_nextID p + 1) = Suc (unat (pr_nextID p))"
    using assms(2) by (simp add: counter_room_Suc [where n = 0])
  have "Tokens_Save inmemory_tokens now tok p =
      (None, tok', p\<lparr>pr_nextID := pr_nextID p + 1, pr_tokens := AList.update i tok' (pr_tokens p)\<rparr>)"
    using assms(3-6) by (cases tok) (simp add: inmemory_tokens_def PATRepository_Save_def PATRepository_create_def Let_def)
  moreover have "pr_wf (p\<lparr>pr_nextID := pr_nextID p + 1, pr_tokens := AList.update i tok' (pr_tokens p)\<rparr>)"
    using assms(1,5,6) next_id by (fastforce simp: pr_wf_def dest!: set_alist_update)
  ultimately show ?thesis by (simp add: token_in_def)
qed

lemma pat_middleware:
  assumes "am_tokens m = inmemory_tokens" and "am_revocation m = Some inmemory_cache" and "im_wf c" and "pr_wf p"
    and "CHR '' '' \<notin> set plain" and "unat i < 2 ^ 63" and "i \<noteq> 0" and "token = decimal (unat i) @ ''|'' @ plain"
  shows "token_in p i = None \<Longrightarrow> auth_middleware m t (bearer token) False handler ctx (u, p, c) =
      (Rejected (HTTPError 401 ''personal access token not found''), u, p, c)"
    and "token_in p i = Some tok \<Longrightarrow> PAT_Token tok = cr_SHA256 (am_crypto m) plain \<Longrightarrow> PAT_TokenableType tok = EntityTypeUser \<Longrightarrow>
      Users_Find (am_users m) (Some (FindUserByIDs [PAT_TokenableID tok])) [] one_user u = Inr [user] \<Longrightarrow>
      rejectPATIfCreatedBeforePasswordChange user tok = None \<Longrightarrow> (\<And>k. im_view c t (revocationKeyPrefix @ k) = None) \<Longrightarrow>
      auth_middleware m t (bearer token) False handler ctx (u, p, c) =
        handler (Some \<lparr>session_Login = User_Login user, session_Email = User_Email user, session_User = Some user,
          session_Token = Some tok, session_ShortLived = False, session_MFAEnrollmentOnly = False\<rparr>) (u, p, c)"
proof -
  have "uint i \<noteq> 0" using assms(7) by (simp add: uint_0_iff)
  then have i: "Atoi (decimal (unat i)) = Inr (uint i)" "\<not> uint i \<le> 0"
    using Atoi_decimal [OF assms(6)] by (simp, simp add: order_less_le order.strict_iff_not)
  have pipe: "CHR ''|'' \<in> set token" "token \<noteq> ''''" using assms(8) by simp_all
  note shape = token_text(1,2,4) [OF assms(5), where n = "unat i", folded assms(8)]
    token_text(3) [OF assms(5), where n = "unat i" and m = m, folded assms(8)]
  have find: "Tokens_Find (am_tokens m) (Some (FindPersonalAccessTokenByIDs [i])) [] one_token p =
      Inr (case token_in p i of None \<Rightarrow> [] | Some t \<Rightarrow> [t])"
    using mem_tokens.find_token [OF assms(4)] assms(1) by simp
  show "token_in p i = None \<Longrightarrow> auth_middleware m t (bearer token) False handler ctx (u, p, c) =
      (Rejected (HTTPError 401 ''personal access token not found''), u, p, c)"
    using find i pipe shape
    by (simp add: auth_middleware_def sourceAllowsTokenType_def process_token_def processPersonalAccessToken_def)
  show "auth_middleware m t (bearer token) False handler ctx (u, p, c) =
        handler (Some \<lparr>session_Login = User_Login user, session_Email = User_Email user, session_User = Some user,
          session_Token = Some tok, session_ShortLived = False, session_MFAEnrollmentOnly = False\<rparr>) (u, p, c)"
    if "token_in p i = Some tok" "PAT_Token tok = cr_SHA256 (am_crypto m) plain" "PAT_TokenableType tok = EntityTypeUser"
      "Users_Find (am_users m) (Some (FindUserByIDs [PAT_TokenableID tok])) [] one_user u = Inr [user]"
      "rejectPATIfCreatedBeforePasswordChange user tok = None" "\<And>k. im_view c t (revocationKeyPrefix @ k) = None"
    using that find i pipe shape
    by (simp add: IsRevoked_view [OF assms(2,3)] auth_middleware_def sourceAllowsTokenType_def process_token_def processPersonalAccessToken_def)
qed

lemma posttoken_accepted:
  assumes "posttoken_ServeHTTP m can now (Inr plain) b (Some s) (u, p, c) = (Accepted token, st1)" and "session_User s = Some user"
  obtains input abilities tok tok' p' where "json_Decode b = Some input" and "ti_Abilities input = Some abilities"
    and "abilities \<noteq> []" and "validateAdminAbilities can user abilities = None"
    and "tok = \<lparr>PAT_ID = 0, PAT_TokenableType = EntityTypeUser, PAT_TokenableID = User_ID user,
      PAT_Name = ti_TokenName input, PAT_Token = cr_SHA256 (am_crypto m) plain, PAT_Abilities = Some abilities,
      PAT_LastUsedAt = None, PAT_CreatedAt = Some now, PAT_UpdatedAt = Some now\<rparr>"
    and "Tokens_Save (am_tokens m) now tok p = (None, tok', p')" and "st1 = (u, p', c)" and "token = newTokenResponse tok' plain"
proof -
  obtain input where input: "json_Decode b = Some input" "tokenInput_Validate input = None"
    using assms by (auto simp: posttoken_ServeHTTP_def split: if_splits option.splits)
  then obtain abilities where a: "ti_Abilities input = Some abilities" "abilities \<noteq> []" "list_all ValidateAbility abilities"
    by (auto simp: tokenInput_Validate_def split: if_splits option.splits)
  then have parse: "ParseAbilities abilities = abilities" by (simp add: ParseAbilities_def list_all_iff filter_id_conv)
  let ?tok = "\<lparr>PAT_ID = 0, PAT_TokenableType = EntityTypeUser, PAT_TokenableID = User_ID user,
      PAT_Name = ti_TokenName input, PAT_Token = cr_SHA256 (am_crypto m) plain, PAT_Abilities = Some abilities,
      PAT_LastUsedAt = None, PAT_CreatedAt = Some now, PAT_UpdatedAt = Some now\<rparr>"
  obtain e tok' p' where save: "Tokens_Save (am_tokens m) now ?tok p = (e, tok', p')" by (metis prod.collapse)
  have "validateAdminAbilities can user abilities = None \<and> e = None \<and> st1 = (u, p', c) \<and> token = newTokenResponse tok' plain"
    using assms input a(1) parse save
    by (auto simp: posttoken_ServeHTTP_def Let_def split: if_splits option.splits)
  with that input a save show thesis by blast
qed

lemma owner_deletes:
  assumes "am_tokens m = inmemory_tokens" and "pr_wf p" and "token_in p i = Some tok" and "PAT_TokenableID tok = User_ID user"
    and "session_User s = Some user" and "User_ID user \<noteq> 0" and "im_wf c" and "0 \<le> now"
  shows "\<exists>p' c'. deletetoken_ServeHTTP m inmemory_cache now (Some i) (Some s) (u, p, c) = (Accepted (), u, p', c') \<and>
    pr_wf p' \<and> token_in p' i = None \<and> im_wf c'"
proof -
  obtain p' where p': "Tokens_Delete inmemory_tokens i p = (None, p')" "pr_wf p'" "token_in p' i = None"
    using mem_tokens.delete_token [OF assms(2), of i] by auto
  then show ?thesis
    using mem_tokens.find_token [OF assms(2), of None i] assms
    by (simp add: deletetoken_ServeHTTP_def IsAuthenticated_def CacheRevocation_Revoke_def im.Set_eq)
qed

text \<open>
  C20. A personal access token does what it was made for, until it is revoked.  The text handed to a
  user who makes a token authenticates every later request that carries it as that user, with exactly
  the abilities asked for, which are abilities of administrators only when the user is one; and from
  the moment its owner deletes it no request with it is let through.
\<close>

theorem token_lifecycle:
  assumes "am_tokens m = inmemory_tokens" and "am_users m = UserService inmemory_users"
    and "am_revocation m = Some inmemory_cache" and "pr_wf p" and "counter_room (pr_nextID p) 1" and "ur_wf u" and "im_wf c"
    and "session_User s = Some user" and "user_in u (User_ID user) = Some user" and "User_ID user \<noteq> 0"
    and "\<And>t k. im_view c t (revocationKeyPrefix @ k) = None"
    and "\<forall>cutoff. PasswordChangedAt user = Some cutoff \<longrightarrow> cutoff \<le> now" and "CHR '' '' \<notin> set plain" and "0 \<le> now2"
    and "posttoken_ServeHTTP m can now (Inr plain) b (Some s) (u, p, c) = (Accepted token, st1)"
  shows "\<exists>input s' i st2. json_Decode b = Some input \<and> session_User s' = Some user \<and> IsTokenSession (Some s') \<and>
    PAT_Abilities (the (session_Token s')) = ti_Abilities input \<and>
    (can (User_ID user) = Inr False \<longrightarrow> (\<forall>a \<in> set (the (ti_Abilities input)). a \<notin> set GetAdminAbilities)) \<and>
    auth_middleware m t (bearer token) False handler ctx st1 = handler (Some s') st1 \<and>
    deletetoken_ServeHTTP m inmemory_cache now2 (Some i) (Some s) st1 = (Accepted (), st2) \<and>
    auth_middleware m t2 (bearer token) False handler ctx st2 = (Rejected (HTTPError 401 ''personal access token not found''), st2)"
proof -
  obtain input abilities tok tok' p' where made: "json_Decode b = Some input" "ti_Abilities input = Some abilities"
      "validateAdminAbilities can user abilities = None"
      "tok = \<lparr>PAT_ID = 0, PAT_TokenableType = EntityTypeUser, PAT_TokenableID = User_ID user,
        PAT_Name = ti_TokenName input, PAT_Token = cr_SHA256 (am_crypto m) plain, PAT_Abilities = Some abilities,
        PAT_LastUsedAt = None, PAT_CreatedAt = Some now, PAT_UpdatedAt = Some now\<rparr>"
      "Tokens_Save (am_tokens m) now tok p = (None, tok', p')" "st1 = (u, p', c)" "token = newTokenResponse tok' plain"
    using posttoken_accepted [OF assms(15,8)] by metis
  define i where "i = id_of_counter (pr_nextID p + 1)"
  have small: "unat i < 2 ^ 63" "i \<noteq> 0"
    using counter_room_Suc [of "pr_nextID p" 0] assms(5) by (auto simp: i_def counter_room_def unat_gt_0 [symmetric] word_neq_0_conv)
  have tok': "tok' = tok\<lparr>PAT_UpdatedAt := Some now, PAT_ID := i\<rparr>" "pr_wf p'" "token_in p' i = Some tok'"
    using Save_token_new [OF assms(4,5) _ _ i_def refl, of tok now] made(4,5) assms(1) by auto
  have text_of: "token = decimal (unat i) @ ''|'' @ plain"
    using made(7) tok'(1) by (simp add: newTokenResponse_def)
  let ?s = "\<lparr>session_Login = User_Login user, session_Email = User_Email user, session_User = Some user,
    session_Token = Some tok', session_ShortLived = False, session_MFAEnrollmentOnly = False\<rparr>"
  have auth: "auth_middleware m t (bearer token) False handler ctx st1 = handler (Some ?s) st1"
    unfolding made(6)
  proof (rule pat_middleware(2) [OF assms(1,3,7) tok'(2) assms(13) small text_of tok'(3)])
    show "Users_Find (am_users m) (Some (FindUserByIDs [PAT_TokenableID tok'])) [] one_user u = Inr [user]"
      using svc_users.find_id [OF assms(6), of "User_ID user"] assms(2,9) tok'(1) made(4) by simp
    show "rejectPATIfCreatedBeforePasswordChange user tok' = None"
      using assms(12) tok'(1) made(4) by (auto simp: rejectPATIfCreatedBeforePasswordChange_def split: option.splits)
  qed (use tok'(1) made(4) assms(11) in simp_all)
  have "PAT_TokenableID tok' = User_ID user" using tok'(1) made(4) by simp
  from owner_deletes [OF assms(1) tok'(2,3) this assms(8,10,7,14)]
  obtain p2 c2 where del: "deletetoken_ServeHTTP m inmemory_cache now2 (Some i) (Some s) st1 = (Accepted (), u, p2, c2)"
      and p2: "pr_wf p2" "token_in p2 i = None" "im_wf c2"
    unfolding made(6) by blast
  have gone: "auth_middleware m t2 (bearer token) False handler ctx (u, p2, c2) =
      (Rejected (HTTPError 401 ''personal access token not found''), u, p2, c2)"
    by (rule pat_middleware(1) [OF assms(1,3) p2(3,1) assms(13) small text_of p2(2)])
  have "IsTokenSession (Some ?s)" using tok'(1) small(2) by (simp add: IsTokenSession_def)
  moreover have "can (User_ID user) = Inr False \<longrightarrow> (\<forall>a \<in> set abilities. a \<notin> set GetAdminAbilities)"
    using made(3) by (auto simp: validateAdminAbilities_def list_ex_iff split: if_splits)
  ultimately show ?thesis
    using made(1,2,4) tok'(1) auth del gone
    by (intro exI [of _ input] exI [of _ ?s] exI [of _ i] exI [of _ "(u, p2, c2)"]) simp
qed

definition list_token :: tokenInput where
  "list_token = \<lparr>ti_TokenName = ''ci'', ti_Abilities = Some [PATAbilityServerList]\<rparr>"

theorem token_lifecycle_witness:
  "\<exists>token st1 s' st2. posttoken_ServeHTTP gate (\<lambda>_. Inr False) 1 (Inr ''x'') (Document list_token '''') (Some (session_of_bob False)) panel0 =
     (Accepted token, st1) \<and>
   auth_middleware gate 2 (bearer token) False reached None st1 = (Accepted (Some s'), st1) \<and>
   PAT_Abilities (the (session_Token s')) = Some [PATAbilityServerList] \<and>
   auth_middleware gate 3 (bearer token) False reached None st2 = (Rejected (HTTPError 401 ''personal access token not found''), st2)"
proof -
  let ?s = "session_of_bob False"
  have gate: "am_tokens gate = inmemory_tokens" "am_users gate = UserService inmemory_users" "am_revocation gate = Some inmemory_cache"
    by (simp_all add: gate_def desk_def)
  have pat: "pr_wf NewPersonalAccessTokenRepository" "counter_room (pr_nextID NewPersonalAccessTokenRepository) 1"
    by (simp_all add: pr_wf_def NewPersonalAccessTokenRepository_def counter_room_def)
  have valid: "tokenInput_Validate list_token = None" "validateAdminAbilities (\<lambda>_. Inr False) bob [PATAbilityServerList] = None"
    by code_simp+
  let ?t = "\<lparr>PAT_ID = 0, PAT_TokenableType = EntityTypeUser, PAT_TokenableID = User_ID bob,
        PAT_Name = ''ci'', PAT_Token = cr_SHA256 (am_crypto gate) ''x'', PAT_Abilities = Some (ParseAbilities [PATAbilityServerList]),
        PAT_LastUsedAt = None, PAT_CreatedAt = Some 1, PAT_UpdatedAt = Some 1\<rparr>"
  obtain tok p' where "Tokens_Save inmemory_tokens 1 ?t NewPersonalAccessTokenRepository = (None, tok, p')"
    using Save_token_new [OF pat _ _ refl refl, of ?t 1] by auto
  then have post: "posttoken_ServeHTTP gate (\<lambda>_. Inr False) 1 (Inr ''x'') (Document list_token '''') (Some ?s)
      (accounts, NewPersonalAccessTokenRepository, NewInMemory) = (Accepted (newTokenResponse tok ''x''), accounts, p', NewInMemory)"
    using valid gate by (simp add: posttoken_ServeHTTP_def json_Decode_def IsAuthenticated_def IsTokenSession_def session_of_bob_def
        list_token_def bob_def)
  have bob: "session_User ?s = Some bob" "user_in accounts (User_ID bob) = Some bob" "User_ID bob \<noteq> 0" "PasswordChangedAt bob = None"
    using bob_in by (simp_all add: session_of_bob_def bob_def PasswordChangedAt_def)
  obtain input s' i st2 where life: "json_Decode (Document list_token '''') = Some input"
      "PAT_Abilities (the (session_Token s')) = ti_Abilities input"
      "auth_middleware gate 2 (bearer (newTokenResponse tok ''x'')) False reached None (accounts, p', NewInMemory) =
         reached (Some s') (accounts, p', NewInMemory)"
      "auth_middleware gate 3 (bearer (newTokenResponse tok ''x'')) False reached None st2 =
         (Rejected (HTTPError 401 ''personal access token not found''), st2)"
    using token_lifecycle [OF gate pat accounts_wf im_wf_new bob(1-3) _ _ _ _ post, of 1 2 reached None 3] bob(4) by auto
  then show ?thesis using post by (cases st2) (auto simp: panel0_def reached_def json_Decode_def list_token_def)
qed

section \<open>Single-use tokens\<close>

text \<open>
  A single-use token stands for the session that asked for it and for nothing more.  Redeemed within
  its lifetime, which is at most ten seconds, it gives a session of the same account, marked as
  short-lived; the session carries the personal access token of its origin with the same identifier
  and the same abilities exactly when the origin was such a token; after its lifetime it is refused.
\<close>

theorem short_token_inherits:
  assumes "shorttoken_ServeHTTP (si_crypto h) inmemory_cache ttl now (Inr secret) (Some s) c = (Accepted (token, n), c1)"
    and "im_wf c" and "0 \<le> now" and "now \<le> t" and "si_users h = UserService inmemory_users" and "ur_wf u"
    and "session_User s = Some user" and "user_in u (User_ID user) = Some user"
  shows "shorttoken_ttl ttl \<le> 10 * second \<and>
    (if t \<le> now + shorttoken_ttl ttl
     then \<exists>s'. fst (processShortLivedToken h inmemory_cache t token (u, c1)) = Inr s' \<and> session_User s' = Some user \<and>
       session_ShortLived s' \<and> IsTokenSession (Some s') = IsTokenSession (Some s) \<and>
       (IsTokenSession (Some s) \<longrightarrow> PAT_ID (the (session_Token s')) = PAT_ID (the (session_Token s)) \<and>
          PAT_Abilities (the (session_Token s')) = Some (case PAT_Abilities (the (session_Token s)) of None \<Rightarrow> [] | Some a \<Rightarrow> a))
     else fst (processShortLivedToken h inmemory_cache t token (u, c1)) =
       Inl (HTTPError 401 ''invalid or expired short-lived token''))"
proof -
  let ?k = "ShortLivedCacheKey (si_crypto h) token"
  let ?p = "\<lparr>Short_UserID = User_ID user, Short_Login = User_Login user, Short_Email = User_Email user,
    Short_PATID = (if IsTokenSession (Some s) then PAT_ID (the (session_Token s)) else 0),
    Short_Abilities = (if IsTokenSession (Some s)
      then (case PAT_Abilities (the (session_Token s)) of None \<Rightarrow> [] | Some abilities \<Rightarrow> abilities) else [])\<rparr>"
  have ttl: "0 < shorttoken_ttl ttl" "shorttoken_ttl ttl \<le> 10 * second"
    by (simp_all add: shorttoken_ttl_def maxTokenTTL_def second_def)
  have c1: "c1 = set_in inmemory_cache now ?k (AnyJSON (ShortLived ?p)) [WithExpiration (shorttoken_ttl ttl)] c"
    using assms(1,2,3,7) by (auto simp: shorttoken_ServeHTTP_def Let_def im.Set_eq split: if_splits)
  then have wf: "im_wf c1" using assms(2,3) by simp
  have view: "im_view c1 t ?k = (if t \<le> now + shorttoken_ttl ttl then Some (AnyJSON (ShortLived ?p)) else None)"
    using assms(2,3) ttl(1) by (simp add: c1 im.view_set holds_until_def)
  have find: "Users_Find (si_users h) (Some (FindUserByIDs [User_ID user])) [] one_user u = Inr [user]"
    using svc_users.find_id [OF assms(6), of "User_ID user"] assms(5,8) by simp
  have entry: "shortlived_begin (si_crypto h) inmemory_cache t token c1 =
      (if t \<le> now + shorttoken_ttl ttl then Inr (AnyJSON (ShortLived ?p))
       else Inl (HTTPError 401 ''invalid or expired short-lived token''))"
    using wf view by (simp add: shortlived_begin_def im.get)
  have "fst (shortlived_finish h inmemory_cache token (AnyJSON (ShortLived ?p)) (u, c1)) = Inr (shortlived_session user ?p)"
    using find by (simp add: shortlived_finish_def UnmarshalShortLivedPayload_def Let_def)
  moreover have "PAT_ID (the (session_Token s)) \<noteq> 0" if "IsTokenSession (Some s)"
    using that by (auto simp: IsTokenSession_def split: option.splits)
  ultimately show ?thesis
    using entry ttl(2) by (auto simp: processShortLivedToken_def shortlived_session_def IsTokenSession_def)
qed

theorem short_token_inherits_witness:
  "\<exists>n c1 s'. shorttoken_ServeHTTP plain_crypto inmemory_cache 0 1 (Inr ''u'') (Some bare_token) NewInMemory = (Accepted (''glst_u'', n), c1) \<and>
     fst (processShortLivedToken desk inmemory_cache 2 ''glst_u'' (accounts, c1)) = Inr s' \<and>
     PAT_Abilities (the (session_Token s')) = Some []"
proof -
  have user: "session_User bare_token = Some bob" "IsAuthenticated (Some bare_token)" "IsTokenSession (Some bare_token)"
    by (simp_all add: bare_token_def session_of_bob_def IsAuthenticated_def bob_def IsTokenSession_def)
  obtain n c1 where mint: "shorttoken_ServeHTTP plain_crypto inmemory_cache 0 1 (Inr ''u'') (Some bare_token) NewInMemory =
      (Accepted (''glst_u'', n), c1)"
    using user by (auto simp: shorttoken_ServeHTTP_def Let_def im.Set_eq ShortLivedTokenPrefix_def)
  have d: "si_crypto desk = plain_crypto" "si_users desk = UserService inmemory_users" by (simp_all add: desk_def)
  have ttl: "(2 :: int) \<le> 1 + shorttoken_ttl 0" by (simp add: shorttoken_ttl_def maxTokenTTL_def second_def)
  have bob: "user_in accounts (User_ID bob) = Some bob" using bob_in by (simp add: bob_def)
  obtain s' where "fst (processShortLivedToken desk inmemory_cache 2 ''glst_u'' (accounts, c1)) = Inr s'"
      "PAT_Abilities (the (session_Token s')) = Some (case PAT_Abilities (the (session_Token bare_token)) of None \<Rightarrow> [] | Some a \<Rightarrow> a)"
    using short_token_inherits [OF mint [folded d(1)] im_wf_new _ _ d(2) accounts_wf user(1) bob, of 2] ttl user(3) by auto
  then show ?thesis using mint by (auto simp: bare_token_def)
qed

end
