(* ===== verification/Profile_Properties.thy ===== *)
theory Profile_Properties
  imports Profile Auth_Properties
begin

text \<open>
  What the settings of an account do to its credentials: a change of the password and the sessions and
  tokens from before it, the second factor as a machine with three states, and the recovery codes.
\<close>

section \<open>The account store behind the service\<close>

text \<open>What the service stores for an account that exists.\<close>

definition saved :: "time \<Rightarrow> User \<Rightarrow> User" where
  "saved now user =
     user\<lparr>User_Login := ToLower (User_Login user), User_Email := ToLower (User_Email user),
          User_CreatedAt := (if User_CreatedAt user = None \<or> User_CreatedAt user = Some 0 then Some now else User_CreatedAt user),
          User_UpdatedAt := Some now\<rparr>"

text \<open>The account with identifier \<open>i\<close>, the only one of its login.\<close>

definition sole_account :: "UserRepository \<Rightarrow> uint \<Rightarrow> User \<Rightarrow> bool" where
  "sole_account r i user \<longleftrightarrow> ur_wf r \<and> user_in r i = Some user \<and> ToLower (User_Login user) = User_Login user \<and>
     (\<forall>j v. user_in r j = Some v \<and> User_Login v = User_Login user \<longrightarrow> j = i)"

lemma sole_account_id: "sole_account r i user \<Longrightarrow> User_ID user = i \<and> i \<noteq> 0"
  by (auto simp: sole_account_def ur_wf_def user_in_def dest!: map_of_SomeD)

lemma saved_sel [simp]:
  "User_ID (saved now user) = User_ID user" "User_Password (saved now user) = User_Password user"
  "User_Login (saved now user) = ToLower (User_Login user)"
  "User_TwoFactorEnabled (saved now user) = User_TwoFactorEnabled user"
  "User_TwoFactorSecret (saved now user) = User_TwoFactorSecret user"
  "User_TwoFactorRecoveryCodes (saved now user) = User_TwoFactorRecoveryCodes user"
  "PasswordChangedAt (saved now user) = PasswordChangedAt user"
  by (simp_all add: saved_def PasswordChangedAt_def)

lemma service_save:
  assumes "sole_account r i user" and "User_ID user' = i" and "User_Login user' = User_Login user"
  shows "\<exists>r'. Users_Save (UserService inmemory_users) now user' r = (None, saved now user', r') \<and>
    sole_account r' i (saved now user') \<and> (\<forall>j. j \<noteq> i \<longrightarrow> user_in r' j = user_in r j)"
proof -
  have i: "user_in r i = Some user" "User_ID user = i" "i \<noteq> 0" "ur_wf r" "ToLower (User_Login user) = User_Login user"
    using assms(1) sole_account_id [OF assms(1)] by (auto simp: sole_account_def)
  let ?r = "r\<lparr>ur_users := AList.update i (saved now user') (ur_users r)\<rparr>"
  have "Users_Save (UserService inmemory_users) now user' r = (None, saved now user', ?r)"
    using i assms(2) by (simp add: UserService_def UserService_Save_def inmemory_users_def UserRepository_Save_def saved_def Let_def)
  moreover have "ur_wf ?r"
    using i assms(2) by (auto simp: ur_wf_def user_in_def dest!: set_alist_update map_of_SomeD)
  moreover have "user_in ?r = (user_in r)(i \<mapsto> saved now user')" by (simp add: user_in_def map_of_update)
  ultimately show ?thesis
    using assms i by (auto simp: sole_account_def)
qed

lemma filter_sole:
  assumes "sole_account r i user"
  shows "filter (\<lambda>v. User_Login v = User_Login user) (map snd (ur_users r)) = [user]"
proof -
  have "(User_Login v = User_Login user) = (User_ID v = i)" if "v \<in> set (map snd (ur_users r))" for v
  proof -
    from that obtain k where "(k, v) \<in> set (ur_users r)" by auto
    then have k: "user_in r k = Some v" "User_ID v = k"
      using assms by (auto simp: sole_account_def ur_wf_def user_in_def wf_map_def intro: map_of_is_SomeI)
    then show ?thesis using assms by (auto simp: sole_account_def)
  qed
  then have "filter (\<lambda>v. User_Login v = User_Login user) (map snd (ur_users r)) = filter (\<lambda>v. User_ID v = i) (map snd (ur_users r))"
    by (rule filter_cong [OF refl])
  then show ?thesis
    using filter_key [of "ur_users r" User_ID i] assms by (simp add: sole_account_def ur_wf_def user_in_def case_prod_beta)
qed

lemma find_sole:
  assumes "sole_account r i user"
  shows "Users_Find (UserService inmemory_users) (Some (FindUserByLogins [User_Login user])) [] one_user r = Inr [user]"
    and "si_users h = UserService inmemory_users \<Longrightarrow> find_by_login h (User_Login user) r = Inr user"
proof -
  have "user_matches (FindUserByLogins [User_Login user]) = (\<lambda>v. User_Login v = User_Login user)"
    by (auto simp: user_matches_def FindUserByLogins_def fun_eq_iff)
  moreover note filter_sole [OF assms]
  ultimately show f: "Users_Find (UserService inmemory_users) (Some (FindUserByLogins [User_Login user])) [] one_user r = Inr [user]"
    using assms
    by (simp add: UserService_def UserService_Find_def inmemory_users_def UserRepository_Find_def FindUserByLogins_def
        sole_account_def sortUsers_def one_user_def applyPagination_one)
  then show "find_by_login h (User_Login user) r = Inr user" if "si_users h = UserService inmemory_users"
    using that by (simp add: find_by_login_def)
qed

lemma applyPagination_subset: "applyPagination page xs = Inr ys \<Longrightarrow> set ys \<subseteq> set xs"
  by (auto simp: applyPagination_def slice_def Let_def split: option.splits if_splits dest: in_set_takeD in_set_dropD)

lemma found_in_store:
  assumes "ur_wf r" and "Users_Find (UserService inmemory_users) (Some f) [] one_user r = Inr (v # vs)"
  shows "user_in r (User_ID v) = Some v"
proof -
  have "v \<in> snd ` set (ur_users r)"
    using assms(2)
    by (auto simp: UserService_def UserService_Find_def inmemory_users_def UserRepository_Find_def sortUsers_def
        dest!: applyPagination_subset)
  then show ?thesis using assms(1) by (force simp: ur_wf_def user_in_def wf_map_def intro!: map_of_is_SomeI)
qed

section \<open>A change of the password\<close>

lemma putprofile_changes:
  assumes "si_users h = UserService inmemory_users" and "sole_account u i user" and "session_Login s = User_Login user"
    and "putprofile_ServeHTTP h policy now b (Some s) u = (Accepted (Some token), u')"
  shows "\<exists>input password current n user'. json_Decode b = Some (Some input) \<and> up_Password input = Some password \<and>
    up_CurrentPassword input = Some current \<and> VerifyPassword (si_crypto h) (User_Password user) current = Inr n \<and>
    ValidatePassword policy password = None \<and> HashPassword (si_crypto h) (si_activeCost h) password = Inr (User_Password user') \<and>
    sole_account u' i user' \<and> PasswordChangedAt user' = Some (now div second * second) \<and> User_Login user' = User_Login user \<and>
    si_GenerateTokenForUser h user' sessionTokenDuration = Inr token"
proof -
  from assms(4) obtain input0 input where i: "json_Decode b = Some (Some input0)" "updateProfileInput_Validate policy input0 = Inr input"
    by (auto simp: putprofile_ServeHTTP_def split: if_splits option.splits sum.splits)
  then have same: "up_Password input = up_Password input0" "up_CurrentPassword input = up_CurrentPassword input0"
      "\<forall>p. up_Password input = Some p \<longrightarrow> ValidatePassword policy p = None"
    by (auto simp: updateProfileInput_Validate_def Let_def split: if_splits option.splits)
  from assms(4) i find_sole(2) [OF assms(2,1)] assms(3)
  obtain password user1 where p: "up_Password input = Some password" "applyPasswordChange h now input password user = Inr user1"
      "(let user2 = (case up_Name input of None \<Rightarrow> user1 | Some name \<Rightarrow> user1\<lparr>User_Name := Some name\<rparr>)
         in case Users_Save (si_users h) now user2 u of
           (Some e, _, u') \<Rightarrow> (Rejected (WithMessage e ''failed to update profile''), u')
         | (None, user', u') \<Rightarrow>
            case si_GenerateTokenForUser h user' sessionTokenDuration of
              Inl e \<Rightarrow> (Rejected (WithMessage e ''failed to generate token''), u')
            | Inr token \<Rightarrow> (Accepted (Some token), u')) = (Accepted (Some token), u')"
    by (auto simp: putprofile_ServeHTTP_def Let_def split: if_splits option.splits sum.splits prod.splits)
  from p(2) obtain current n hash where c: "up_CurrentPassword input = Some current"
      "VerifyPassword (si_crypto h) (User_Password user) current = Inr n"
      "HashPassword (si_crypto h) (si_activeCost h) password = Inr hash"
      "user1 = SetPasswordChangedAt (Some now) (user\<lparr>User_Password := hash\<rparr>)"
    by (auto simp: applyPasswordChange_def split: option.splits sum.splits)
  define user2 where "user2 = (case up_Name input of None \<Rightarrow> user1 | Some name \<Rightarrow> user1\<lparr>User_Name := Some name\<rparr>)"
  have u2: "User_ID user2 = i" "User_Login user2 = User_Login user" "User_Password user2 = hash"
      "PasswordChangedAt user2 = Some (now div second * second)"
    using sole_account_id [OF assms(2)] c(4)
    by (auto simp: user2_def SetPasswordChangedAt_def PasswordChangedAt_def setMetadataTime_def split: option.splits)
  obtain u1 where "Users_Save (si_users h) now user2 u = (None, saved now user2, u1)" "sole_account u1 i (saved now user2)"
    using service_save [OF assms(2) u2(1,2), of now] assms(1) by auto
  moreover from this p(3) have "u1 = u'" "si_GenerateTokenForUser h (saved now user2) sessionTokenDuration = Inr token"
    by (auto simp: user2_def [symmetric] Let_def split: sum.splits)
  moreover have "User_Login (saved now user2) = User_Login user" using u2(2) assms(2) by (simp add: sole_account_def)
  ultimately show ?thesis
    using i(1) same p(1) c u2 by (intro exI [of _ input0] exI [of _ password] exI [of _ current] exI [of _ n] exI [of _ "saved now user2"]) auto
qed

lemma full_session_postdates:
  assumes "am_users m = UserService inmemory_users" and "sole_account u i user" and "PasswordChangedAt user = Some cutoff"
    and "auth_middleware m t rq optional reached None (u, p, c) = (Accepted (Some s), st)"
    and "session_User s = Some v" and "User_ID v = i" and "\<not> session_ShortLived s"
  shows "case session_Token s of
      None \<Rightarrow> \<exists>claims. am_ValidateToken m t (fst (extractToken rq)) = Inr claims \<and>
        (\<forall>iat. claims_IssuedAt claims = Inr (Some iat) \<longrightarrow> cutoff \<le> iat)
    | Some tok \<Rightarrow> \<forall>created. PAT_CreatedAt tok = Some created \<longrightarrow> cutoff \<le> created"
proof -
  let ?token = "fst (extractToken rq)"
  note acc = auth_middleware_accepts(2,4) [OF assms(4)]
  have ok: "ur_wf u" "user_in u i = Some user" using assms(2) by (auto simp: sole_account_def)
  have the_user: "v = user" if "Users_Find (UserService inmemory_users) (Some f) [] one_user u = Inr (v # vs)" for f vs
    using found_in_store [OF ok(1) that] assms(6) ok(2) by simp
  from acc(2) process_token_session(1) [OF acc(1)] assms(7) consider
    "detectTokenType m ?token = tokenTypeUserAuth" | "detectTokenType m ?token = tokenTypePersonalAccess"
    by (cases "detectTokenType m ?token") auto
  then show ?thesis
  proof cases
    case 1
    then have "processUserAuthToken m t ?token u = Inr s" using acc(1) by (simp add: process_token_def)
    then show ?thesis
      using assms(1,3,5) the_user
      by (fastforce simp: processUserAuthToken_def rejectIfIssuedBeforePasswordChange_def Let_def
          split: sum.splits if_splits list.splits option.splits)
  next
    case 2
    then have "processPersonalAccessToken m t ?token (u, p, c) = Inr s" using acc(1) by (auto simp: process_token_def)
    then show ?thesis
      using assms(1,3,5) the_user
      by (fastforce simp: processPersonalAccessToken_def rejectPATIfCreatedBeforePasswordChange_def Let_def
          split: sum.splits if_splits list.splits option.splits bool.splits)
  qed
qed

lemma new_token_accepted:
  assumes "am_users m = UserService inmemory_users" and "sole_account u i user" and "PasswordChangedAt user = Some cutoff"
    and "User_Login user \<noteq> ''''" and "am_ValidateToken m t token = Inr claims"
    and "claims_Subject claims = Inr (subject_prefix @ User_Login user)"
    and "\<forall>iat. claims_IssuedAt claims = Inr (Some iat) \<longrightarrow> cutoff \<le> iat"
  shows "\<exists>s. processUserAuthToken m t token u = Inr s \<and> session_User s = Some user"
proof -
  have "rejectIfIssuedBeforePasswordChange user claims = None"
    using assms(3,7) by (auto simp: rejectIfIssuedBeforePasswordChange_def split: sum.splits option.splits)
  then show ?thesis
    using assms(1,4-6) find_sole(1) [OF assms(2)]
    by (simp add: processUserAuthToken_def TrimPrefix_def FindUserByLogins_def)
qed

section \<open>A second request that saves an older account\<close>


text \<open>The sample account changes its password five seconds after the epoch of the model.\<close>

definition new_password :: "updateProfileInput option body" where
  "new_password = Document (Some \<lparr>up_Name = None, up_Password = Some ''correct horse battery'', up_CurrentPassword = Some ''hunter2''\<rparr>) ''''"

definition changed_accounts :: UserRepository where
  "changed_accounts = snd (putprofile_ServeHTTP desk ResetPasswordPolicy (5 * second) new_password (Some (session_of_bob False)) accounts)"

definition snoozed_accounts :: UserRepository where
  "snoozed_accounts = snd (snooze_ServeHTTP desk \<lparr>nc_RequireMFAForAdmins = True, nc_MFAHardFailDays = 0\<rparr> (\<lambda>_. Inr False) (6 * second)
     (Some (session_of_bob False)) changed_accounts)"

lemma bob_changes_password:
  "putprofile_ServeHTTP desk ResetPasswordPolicy (5 * second) new_password (Some (session_of_bob False)) accounts =
     (Accepted (Some ''bob''), changed_accounts)"
  "snooze_ServeHTTP desk \<lparr>nc_RequireMFAForAdmins = True, nc_MFAHardFailDays = 0\<rparr> (\<lambda>_. Inr False) (6 * second)
     (Some (session_of_bob False)) changed_accounts = (Accepted None, snoozed_accounts)"
  unfolding changed_accounts_def snoozed_accounts_def by code_simp+

lemma bob_sole: "sole_account accounts 1 bob"
  using accounts_wf by (simp add: sole_account_def accounts_def user_in_def bob_def ToLower_def lower_char_def)

lemma gate_users: "am_users gate = UserService inmemory_users" "am_signin gate = desk"
  by (simp_all add: gate_def desk_def)

lemma gate_bob: "processUserAuthToken gate t ''v4.local.bob'' accounts = Inr (session_of_bob False)"
  using find_sole(1) [OF bob_sole]
  by (simp add: processUserAuthToken_def gate_def plain_claims_def subject_prefix_def TrimPrefix_def desk_def FindUserByLogins_def bob_def
      rejectIfIssuedBeforePasswordChange_def PasswordChangedAt_def session_of_bob_def ScopeMFAEnrollment_def Let_def)


section \<open>The second factor as a machine\<close>

datatype factor = Off | Pending | On

definition factor_of :: "User \<Rightarrow> factor" where
  "factor_of user = (if User_TwoFactorEnabled user then On else if User_TwoFactorSecret user = None then Off else Pending)"

datatype factor_request =
    Setup "string \<Rightarrow> string result" "string \<Rightarrow> (string \<times> string) result"
  | Confirm "nat \<Rightarrow> nat \<Rightarrow> nat result" "string body"
  | Disable "disableInput body"
  | NewCodes "nat \<Rightarrow> nat \<Rightarrow> nat result" "string body"

definition accepted :: "'a reply \<times> 'u \<Rightarrow> bool \<times> 'u" where
  "accepted r = (case r of (Accepted _, u) \<Rightarrow> (True, u) | (Rejected _, u) \<Rightarrow> (False, u))"

fun serve_factor :: "'u SignIn \<Rightarrow> time \<Rightarrow> factor_request \<Rightarrow> AuthSession option \<Rightarrow> 'u \<Rightarrow> bool \<times> 'u" where
  "serve_factor h now (Setup encrypt generated) ctx u = accepted (setup_ServeHTTP h encrypt now generated ctx u)"
| "serve_factor h now (Confirm random b) ctx u = accepted (confirm_ServeHTTP h now random b ctx u)"
| "serve_factor h now (Disable b) ctx u = accepted (disable_ServeHTTP h now b ctx u)"
| "serve_factor h now (NewCodes random b) ctx u = accepted (recoverycodes_ServeHTTP h now random b ctx u)"

text \<open>The specification: from which state a request leads where.\<close>

fun factor_step :: "factor_request \<Rightarrow> factor \<Rightarrow> factor option" where
  "factor_step (Setup _ _) f = (if f = On then None else Some Pending)"
| "factor_step (Confirm _ _) f = (if f = Pending then Some On else None)"
| "factor_step (Disable _) f = (if f = On then Some Off else None)"
| "factor_step (NewCodes _ _) f = (if f = On then Some On else None)"

lemma accepted_simps [simp]: "accepted (Accepted a, u) = (True, u)" "accepted (Rejected e, u) = (False, u)"
  by (simp_all add: accepted_def)

text \<open>The outcome of a handler that saves one change of the account.\<close>

definition factor_outcome :: "UserRepository \<Rightarrow> uint \<Rightarrow> User \<Rightarrow> factor_request \<Rightarrow> bool \<times> UserRepository \<Rightarrow> bool" where
  "factor_outcome u i user rq res \<longleftrightarrow>
     (if fst res
      then \<exists>user'. sole_account (snd res) i user' \<and> factor_step rq (factor_of user) = Some (factor_of user') \<and>
        User_Login user' = User_Login user \<and> (\<forall>j. j \<noteq> i \<longrightarrow> user_in (snd res) j = user_in u j)
      else snd res = u)"

lemma save_outcome:
  assumes "si_users h = UserService inmemory_users" and "sole_account u i user" and "User_ID user' = i"
    and "User_Login user' = User_Login user" and "factor_step rq (factor_of user) = Some (factor_of user')"
  shows "factor_outcome u i user rq (accepted (save_and_reply h now failure user' answer u))"
proof -
  obtain r' where "Users_Save (si_users h) now user' u = (None, saved now user', r')" "sole_account r' i (saved now user')"
      "\<forall>j. j \<noteq> i \<longrightarrow> user_in r' j = user_in u j"
    using service_save [OF assms(2-4), of now] assms(1) by auto
  moreover have "factor_of (saved now user') = factor_of user'" by (simp add: factor_of_def)
  moreover have "User_Login (saved now user') = User_Login user" using assms(2,4) by (simp add: sole_account_def)
  ultimately show ?thesis using assms(5) by (auto simp: save_and_reply_def factor_outcome_def)
qed

lemma upgraded_sel [simp]:
  "User_ID (upgraded h pw n user) = User_ID user" "User_Login (upgraded h pw n user) = User_Login user"
  "User_TwoFactorEnabled (upgraded h pw n user) = User_TwoFactorEnabled user"
  "User_TwoFactorSecret (upgraded h pw n user) = User_TwoFactorSecret user"
  by (auto simp: upgraded_def split: sum.splits)

lemma rejected_outcome [simp]: "factor_outcome u i user rq (False, u)"
  by (simp add: factor_outcome_def)

text \<open>
  C7. The four requests on the second factor move an account between three states, and nothing else
  does.  Setting up leads to a pending secret and is refused once the factor is on; confirming leads
  from a pending secret to the factor being on; disabling and new recovery codes are for accounts with
  the factor on.  A refused request changes nothing, an accepted one changes that account only, and a
  personal access token never has a request accepted.
\<close>

theorem second_factor_machine:
  assumes "si_users h = UserService inmemory_users" and "sole_account u i user" and "session_Login s = User_Login user"
    and "serve_factor h now rq (Some s) u = (ok, u')"
  shows "if ok
    then \<not> IsTokenSession (Some s) \<and> (\<exists>user'. sole_account u' i user' \<and> factor_step rq (factor_of user) = Some (factor_of user') \<and>
        User_Login user' = User_Login user \<and> (\<forall>j. j \<noteq> i \<longrightarrow> user_in u' j = user_in u j))
    else u' = u"
proof -
  have i: "i = User_ID user" using sole_account_id [OF assms(2)] by simp
  note found = find_sole(2) [OF assms(2,1)]
  note save = save_outcome [OF assms(1) assms(2) [unfolded i]]
  have "factor_outcome u (User_ID user) user rq (serve_factor h now rq (Some s) u)"
  proof (cases rq)
    case (Setup encrypt generated)
    then show ?thesis
      using found assms(3)
      by (auto simp: setup_ServeHTTP_def factor_of_def intro!: save split: option.splits sum.splits)
  next
    case (Confirm random b)
    then show ?thesis
      using found assms(3)
      by (auto simp: confirm_ServeHTTP_def loadPendingEnrollment_def factor_of_def Let_def
          intro!: save split: option.splits sum.splits)
  next
    case (Disable b)
    then show ?thesis
      using found assms(3)
      by (auto simp: disable_ServeHTTP_def factor_of_def Let_def intro!: save split: option.splits sum.splits)
  next
    case (NewCodes random b)
    then show ?thesis
      using found assms(3)
      by (auto simp: recoverycodes_ServeHTTP_def factor_of_def Let_def intro!: save split: option.splits sum.splits)
  qed
  moreover have "\<not> IsTokenSession (Some s)" if ok
    using assms(4) that
    by (cases rq) (auto simp: setup_ServeHTTP_def confirm_ServeHTTP_def disable_ServeHTTP_def recoverycodes_ServeHTTP_def
        second_factor_session_def EnsureSecondFactorChangeAllowedForSession_def split: if_splits)
  ultimately show ?thesis using assms(4) by (auto simp: factor_outcome_def i)
qed

text \<open>The sample account with its second factor on disables it with its password and the code of the moment.\<close>

definition epoch :: time where "epoch = 62135596800 * second"

definition disable_bob :: factor_request where
  "disable_bob = Disable (Document \<lparr>di_Password = ''hunter2'', di_Code = '' S0 ''\<rparr> '''')"

theorem second_factor_machine_witness:
  "fst (serve_factor desk epoch disable_bob (Some (session_of_bob False)) accounts) \<and>
   (\<exists>user'. user_in (snd (serve_factor desk epoch disable_bob (Some (session_of_bob False)) accounts)) 1 = Some user' \<and>
      factor_of bob = On \<and> factor_of user' = Off)"
proof -
  have ok: "fst (serve_factor desk epoch disable_bob (Some (session_of_bob False)) accounts)" by code_simp
  then have run: "serve_factor desk epoch disable_bob (Some (session_of_bob False)) accounts =
      (True, snd (serve_factor desk epoch disable_bob (Some (session_of_bob False)) accounts))"
    by (simp add: prod_eq_iff)
  have "session_Login (session_of_bob False) = User_Login bob" by (simp add: session_of_bob_def bob_def)
  from second_factor_machine [OF _ bob_sole this run] ok show ?thesis
    by (auto simp: desk_def sole_account_def disable_bob_def factor_of_def bob_def split: if_splits)
qed

section \<open>Recovery codes are good for signing in\<close>

definition alphabet_draws :: "(nat \<Rightarrow> nat \<Rightarrow> nat result) \<Rightarrow> bool" where
  "alphabet_draws random \<longleftrightarrow> (\<forall>i j n. random i j = Inr n \<longrightarrow> n < length recoveryAlphabet)"

definition code_letter :: "char \<Rightarrow> bool" where
  "code_letter r \<longleftrightarrow> 97 \<le> (of_char r :: nat) \<and> (of_char r :: nat) \<le> 122 \<or> 48 \<le> (of_char r :: nat) \<and> (of_char r :: nat) \<le> 57"

lemma alphabet_letters: "list_all code_letter recoveryAlphabet"
  by code_simp

lemma lower_code_letter: "code_letter r \<Longrightarrow> lower_char r = r"
  by (auto simp: code_letter_def lower_char_def)

lemma randomFromAlphabet_letters:
  "\<forall>d \<in> set draws. \<forall>n. d = Inr n \<longrightarrow> n < length recoveryAlphabet \<Longrightarrow> randomFromAlphabet draws = Inr raw \<Longrightarrow>
     list_all code_letter raw \<and> length raw = length draws"
proof (induction draws arbitrary: raw rule: randomFromAlphabet.induct)
  case (3 n draws)
  then show ?case
    using alphabet_letters by (auto simp: list_all_iff split: sum.splits)
qed auto

lemma normalize_code:
  assumes "list_all code_letter raw"
  shows "normalizeRecoveryInput (take n raw @ ''-'' @ drop n raw) = raw"
proof -
  have keep: "filter code_letter (map lower_char xs) = xs" if "list_all code_letter xs" for xs
    using that by (induction xs) (auto simp: lower_code_letter)
  have "list_all code_letter (take n raw)" "list_all code_letter (drop n raw)"
    using assms by (auto simp: list_all_iff dest: in_set_takeD in_set_dropD)
  moreover have "\<not> code_letter (lower_char (CHR ''-''))" by (simp add: code_letter_def lower_char_def)
  moreover have "normalizeRecoveryInput xs = filter code_letter (map lower_char xs)" for xs
    by (simp add: normalizeRecoveryInput_def ToLower_def code_letter_def [abs_def])
  ultimately show ?thesis by (simp add: keep)
qed

lemma spend_code_finds:
  "(hash, False) \<in> set codes \<Longrightarrow> cr_bcrypt_Compare cr hash input \<Longrightarrow> spend_code cr input codes \<noteq> None"
  by (induction codes) auto

lemma recovery_loop_good:
  assumes "\<forall>p c hash. cr_bcrypt_Generate cr p c = Inr hash \<longrightarrow> cr_bcrypt_Compare cr hash p"
  shows "\<forall>draws \<in> set rows. draws \<noteq> [] \<and> (\<forall>d \<in> set draws. \<forall>n. d = Inr n \<longrightarrow> n < length recoveryAlphabet) \<Longrightarrow>
    recovery_loop cr rows = Inr (plain, stored) \<Longrightarrow> length plain = length rows \<and>
    (\<forall>code \<in> set plain. normalizeRecoveryInput code \<noteq> '''' \<and>
      (\<exists>hash. (hash, False) \<in> set stored \<and> cr_bcrypt_Compare cr hash (normalizeRecoveryInput code)))"
proof (induction rows arbitrary: plain stored)
  case (Cons draws rows)
  from Cons.prems(2) obtain raw hash plain' stored' where r: "randomFromAlphabet draws = Inr raw"
      "cr_bcrypt_Generate cr raw DefaultBcryptCost = Inr hash" "recovery_loop cr rows = Inr (plain', stored')"
      "plain = (take recoveryGroupLen raw @ ''-'' @ drop recoveryGroupLen raw) # plain'" "stored = (hash, False) # stored'"
    by (auto split: sum.splits)
  have "list_all code_letter raw \<and> length raw = length draws"
    using randomFromAlphabet_letters [OF _ r(1)] Cons.prems(1) by auto
  then have n: "normalizeRecoveryInput (take recoveryGroupLen raw @ ''-'' @ drop recoveryGroupLen raw) = raw" "raw \<noteq> ''''"
    using normalize_code [of raw] Cons.prems(1) by auto
  from Cons.IH [OF _ r(3)] Cons.prems(1) have "length plain' = length rows \<and>
    (\<forall>code \<in> set plain'. normalizeRecoveryInput code \<noteq> '''' \<and>
      (\<exists>hash. (hash, False) \<in> set stored' \<and> cr_bcrypt_Compare cr hash (normalizeRecoveryInput code)))" by simp
  then show ?case using r(2,4,5) n assms by auto
qed auto

lemma GenerateRecoveryCodes_good:
  assumes "\<forall>p c hash. cr_bcrypt_Generate cr p c = Inr hash \<longrightarrow> cr_bcrypt_Compare cr hash p" and "alphabet_draws random"
    and "GenerateRecoveryCodes cr random = Inr (plain, stored)"
  shows "length plain = 10" and "\<forall>code \<in> set plain. snd (ConsumeRecoveryCode cr stored code)"
proof -
  let ?rows = "map (\<lambda>i. map (random i) [0..<recoveryGroupLen * recoveryGroups]) [0..<RecoveryCodeCount]"
  have "length plain = length ?rows \<and> (\<forall>code \<in> set plain. normalizeRecoveryInput code \<noteq> '''' \<and>
      (\<exists>hash. (hash, False) \<in> set stored \<and> cr_bcrypt_Compare cr hash (normalizeRecoveryInput code)))"
    using assms(2,3)
    by (intro recovery_loop_good [OF assms(1)])
      (auto simp: GenerateRecoveryCodes_def alphabet_draws_def recoveryGroupLen_def recoveryGroups_def)
  then show "length plain = 10" "\<forall>code \<in> set plain. snd (ConsumeRecoveryCode cr stored code)"
    using spend_code_finds by (fastforce simp: RecoveryCodeCount_def ConsumeRecoveryCode_def Let_def split: option.splits)+
qed

lemma login_finds_sole:
  assumes "sole_account r i user" and "li_Email input = ''''" and "ToLower (li_Login input) = User_Login user"
  shows "Users_Find (UserService inmemory_users) (Some (login_filter input)) [] one_user r = Inr [user]"
proof -
  have "Users_Find (UserService inmemory_users) (Some (login_filter input)) [] one_user r =
      Users_Find (UserService inmemory_users) (Some (FindUserByLogins [User_Login user])) [] one_user r"
    using assms by (simp add: UserService_def UserService_Find_def login_filter_def IsEmailLogin_def FindUserByLogins_def sole_account_def)
  then show ?thesis using find_sole(1) [OF assms(1)] by simp
qed

lemma rehash_keeps_factor:
  assumes "si_users h = UserService inmemory_users" and "sole_account u i user"
    and "rehashPasswordIfNeeded h now user password needsRehash u = (user', u')"
  shows "User_TwoFactorEnabled user' = User_TwoFactorEnabled user"
proof -
  have "fst (snd (Users_Save (UserService inmemory_users) now (user\<lparr>User_Password := hash\<rparr>) u)) = saved now (user\<lparr>User_Password := hash\<rparr>)"
    for hash
    using service_save [OF assms(2), of "user\<lparr>User_Password := hash\<rparr>" now] sole_account_id [OF assms(2)] by auto
  then have "User_TwoFactorEnabled (fst (rehashPasswordIfNeeded h now user password needsRehash u)) = User_TwoFactorEnabled user"
    using assms(1) by (simp add: rehashPasswordIfNeeded_def Let_def split: sum.splits)
  then show ?thesis using assms(3) by simp
qed

lemma login_challenges:
  assumes "si_users h = UserService inmemory_users" and "sole_account u i user" and "User_TwoFactorEnabled user"
    and "li_Email input = ''''" and "ToLower (li_Login input) = User_Login user"
    and "login_ServeHTTP h C now random ip (Document input rest) (u, c) = (Accepted g, st)"
  shows "\<exists>token n url. g = ChallengeGrant token n url"
proof -
  have keeps: "User_TwoFactorEnabled user'" if "rehashPasswordIfNeeded h now user p n u = (user', u')" for p n user' u'
    using rehash_keeps_factor [OF assms(1,2) that] assms(3) by simp
  obtain needsRehash where "VerifyPassword (si_crypto h) (User_Password user) (li_Password input) = Inr needsRehash"
    using assms(1,6) login_finds_sole [OF assms(2,4,5)]
    by (cases "VerifyPassword (si_crypto h) (User_Password user) (li_Password input)")
      (auto simp: login_ServeHTTP_def json_Decode_def split: option.splits)
  moreover obtain user' u' where "rehashPasswordIfNeeded h now user (li_Password input) needsRehash u = (user', u')" by (rule prod.exhaust)
  moreover note keeps [OF this]
  moreover obtain r c' where "IssueTwoFactorChallenge (si_crypto h) C now random user' (RememberMe input) c = (r, c')" by (rule prod.exhaust)
  ultimately show ?thesis
    using assms(1,6) login_finds_sole [OF assms(2,4,5)]
    by (cases r) (auto simp: login_ServeHTTP_def json_Decode_def issueTwoFactorChallenge_def split: option.splits)
qed

lemma confirm_saves:
  assumes "si_users h = UserService inmemory_users" and "sole_account u i user" and "session_Login s = User_Login user"
    and "confirm_ServeHTTP h now random b (Some s) u = (Accepted codes, u1)"
  shows "\<exists>stored step. GenerateRecoveryCodes (si_crypto h) random = Inr (codes, stored) \<and>
    sole_account u1 i (saved now (user\<lparr>User_TwoFactorEnabled := True, User_TwoFactorLastUsedStep := Some step,
      User_TwoFactorRecoveryCodes := Some stored\<rparr>))"
proof -
  let ?on = "\<lambda>step stored. user\<lparr>User_TwoFactorEnabled := True, User_TwoFactorLastUsedStep := Some step, User_TwoFactorRecoveryCodes := Some stored\<rparr>"
  from assms(4) find_sole(2) [OF assms(2,1)] assms(3) obtain step plain stored where c:
      "GenerateRecoveryCodes (si_crypto h) random = Inr (plain, stored)"
      "save_and_reply h now ''failed to enable two-factor authentication'' (?on step stored) plain u = (Accepted codes, u1)"
    by (auto simp: confirm_ServeHTTP_def loadPendingEnrollment_def split: option.splits sum.splits if_splits)
  have "User_ID (?on step stored) = i" "User_Login (?on step stored) = User_Login user" using sole_account_id [OF assms(2)] by simp_all
  from service_save [OF assms(2) this, of now] obtain r' where
      "Users_Save (UserService inmemory_users) now (?on step stored) u = (None, saved now (?on step stored), r')"
      "sole_account r' i (saved now (?on step stored))" by blast
  with c assms(1) show ?thesis by (auto simp: save_and_reply_def)
qed


text \<open>The sample account with a pending secret confirms it at the epoch.\<close>

definition enrolling :: UserRepository where
  "enrolling = \<lparr>ur_users = [(1, bob\<lparr>User_TwoFactorEnabled := False\<rparr>)], ur_nextID = 1\<rparr>"

definition enrolled :: "string list reply \<times> UserRepository" where
  "enrolled = confirm_ServeHTTP desk epoch (\<lambda>i j. Inr ((i + j) mod 31)) (Document ''S0'' '''') (Some (session_of_bob False)) enrolling"

definition shown_codes :: "string list" where
  "shown_codes = (case fst enrolled of Accepted codes \<Rightarrow> codes | Rejected _ \<Rightarrow> [])"

lemma bob_confirms:
  "confirm_ServeHTTP desk epoch (\<lambda>i j. Inr ((i + j) mod 31)) (Document ''S0'' '''') (Some (session_of_bob False)) enrolling =
     (Accepted shown_codes, snd enrolled)"
proof -
  have "(case fst enrolled of Accepted codes \<Rightarrow> True | Rejected _ \<Rightarrow> False)" by code_simp
  then have "fst enrolled = Accepted shown_codes" by (simp add: shown_codes_def split: reply.splits)
  then show ?thesis unfolding enrolled_def [symmetric] by (metis prod.collapse)
qed

lemma enrolling_sole: "sole_account enrolling 1 (bob\<lparr>User_TwoFactorEnabled := False\<rparr>)"
  by (simp add: sole_account_def enrolling_def user_in_def bob_def ToLower_def lower_char_def ur_wf_def wf_map_def)


end
