(* ===== verification/A2S_Query.thy ===== *)
theory A2S_Query
  imports Go_Bytes
begin

text \<open>
  The query of a game server over Valve's protocol, \<open>pkg/quercon/query/source.go\<close>, with the helper
  \<open>readNullTerminatedString\<close> of \<open>minecraft.go\<close> and the result type of \<open>query.go\<close>.

  The server is not trusted: a connection is the list of datagrams that arrive before the deadline of
  the query, in any number and with any content; a read after the last of them times out.  The two
  loops that read from it are partial functions, so that a loop that does not end would be \<open>None\<close>.
  Indexing a packet outside its bounds is a panic.
\<close>

section \<open>Constants\<close>

definition defaultMaxPacketSize :: nat where "defaultMaxPacketSize = 14000"

definition a2sHeaderChallenge :: byte where "a2sHeaderChallenge = 0x41"
definition a2sHeaderInfoSource :: byte where "a2sHeaderInfoSource = 0x49"
definition a2sHeaderInfoGoldSource :: byte where "a2sHeaderInfoGoldSource = 0x6D"
definition a2sHeaderPlayers :: byte where "a2sHeaderPlayers = 0x44"
definition a2sHeaderRules :: byte where "a2sHeaderRules = 0x45"

definition a2sSimplePacketHeader :: uint32 where "a2sSimplePacketHeader = 0xFFFFFFFF"
definition a2sSplitPacketHeader :: uint32 where "a2sSplitPacketHeader = 0xFFFFFFFE"
definition a2sSplitCompressedBit :: uint32 where "a2sSplitCompressedBit = 0x80000000"

definition a2sMinPacketSize :: nat where "a2sMinPacketSize = 5"
definition a2sSplitHeaderSize :: nat where "a2sSplitHeaderSize = 12"
definition a2sChallengeSize :: nat where "a2sChallengeSize = 4"

definition ascii :: "string \<Rightarrow> bytes" where
  "ascii s = map (\<lambda>c. of_nat (of_char c)) s"

definition a2sInfoRequestPrefix :: bytes where
  "a2sInfoRequestPrefix = [0xFF, 0xFF, 0xFF, 0xFF] @ ascii ''TSource Engine Query'' @ [0]"
definition a2sPlayerRequestPrefix :: bytes where
  "a2sPlayerRequestPrefix = [0xFF, 0xFF, 0xFF, 0xFF, 0x55]"
definition a2sChallengePlaceholder :: bytes where
  "a2sChallengePlaceholder = [0xFF, 0xFF, 0xFF, 0xFF]"

section \<open>The connection\<close>

text \<open>What the server sends, what was sent to it, and which writes fail.\<close>

record conn =
  conn_incoming :: "bytes list"
  conn_sent :: "bytes list"
  conn_refuses :: "bytes \<Rightarrow> error option"

definition conn_Write :: "bytes \<Rightarrow> conn \<Rightarrow> error option \<times> conn" where
  "conn_Write packet c =
     (case conn_refuses c packet of Some e \<Rightarrow> (Some e, c) | None \<Rightarrow> (None, c\<lparr>conn_sent := conn_sent c @ [packet]\<rparr>))"

definition index_panic :: error where "index_panic = Panic ''index out of range''"

definition byte_at :: "bytes \<Rightarrow> nat \<Rightarrow> byte result" where
  "byte_at bs i = (if i < length bs then Inr (bs ! i) else Inl index_panic)"

definition Uint32 :: "bytes \<Rightarrow> uint32 result" where
  "Uint32 bs = (if length bs < 4 then Inl index_panic else Inr (le_word bs))"

definition readA2SDatagram :: "conn \<Rightarrow> bytes result \<times> conn" where
  "readA2SDatagram c =
     (case conn_incoming c of
        [] \<Rightarrow> (Inl (WithMessage (Errorf ''i/o timeout'') ''failed to read query response''), c)
      | datagram # rest \<Rightarrow>
         let buffer = take defaultMaxPacketSize datagram; c' = c\<lparr>conn_incoming := rest\<rparr>
         in if length buffer < a2sMinPacketSize then (Inl (Errorf ''response too short''), c') else (Inr buffer, c'))"

section \<open>Split replies\<close>

record a2sSplitFragment =
  fragment_id :: uint32
  fragment_total :: byte
  fragment_number :: byte
  fragment_payload :: bytes

definition parseA2SSplitFragment :: "bytes \<Rightarrow> a2sSplitFragment result" where
  "parseA2SSplitFragment datagram =
     (if length datagram < a2sSplitHeaderSize then Inl (Errorf ''split fragment too short'')
      else case Uint32 datagram of
        Inl e \<Rightarrow> Inl e
      | Inr header \<Rightarrow>
         if header \<noteq> a2sSplitPacketHeader then Inl (Errorf ''invalid split fragment header'')
         else (case (Uint32 (drop 4 datagram), byte_at datagram 8, byte_at datagram 9) of
            (Inr i, Inr tot, Inr number) \<Rightarrow>
              Inr \<lparr>fragment_id = i, fragment_total = tot, fragment_number = number,
                fragment_payload = drop a2sSplitHeaderSize datagram\<rparr>
          | _ \<Rightarrow> Inl index_panic))"

text \<open>\<open>bytes.Join(fragments, nil)\<close>\<close>

definition join_fragments :: "bytes option list \<Rightarrow> bytes" where
  "join_fragments fragments = concat (map (\<lambda>f. case f of None \<Rightarrow> [] | Some payload \<Rightarrow> payload) fragments)"

partial_function (option) reassemble_loop ::
    "uint32 \<Rightarrow> byte \<Rightarrow> bytes option list \<Rightarrow> nat \<Rightarrow> a2sSplitFragment \<Rightarrow> conn \<Rightarrow> (bytes result \<times> conn) option" where
  "reassemble_loop i tot fragments received fragment c =
     (if fragment_number fragment \<ge> tot then Some (Inl (Errorf ''split fragment is out of range''), c)
      else if fragments ! unat (fragment_number fragment) \<noteq> None then Some (Inl (Errorf ''duplicate split fragment''), c)
      else let fragments' = fragments[unat (fragment_number fragment) := Some (fragment_payload fragment)]
      in if received + 1 = unat tot then Some (Inr (join_fragments fragments'), c)
      else case readA2SDatagram c of
        (Inl e, c') \<Rightarrow> Some (Inl e, c')
      | (Inr datagram, c') \<Rightarrow>
         (case parseA2SSplitFragment datagram of
            Inl e \<Rightarrow> Some (Inl e, c')
          | Inr fragment' \<Rightarrow>
             if fragment_id fragment' \<noteq> i \<or> fragment_total fragment' \<noteq> tot
             then Some (Inl (Errorf ''split fragment belongs to another response''), c')
             else reassemble_loop i tot fragments' (received + 1) fragment' c'))"

definition reassembleA2SSplitPacket :: "bytes \<Rightarrow> conn \<Rightarrow> (bytes result \<times> conn) option" where
  "reassembleA2SSplitPacket first c =
     (case parseA2SSplitFragment first of
        Inl e \<Rightarrow> Some (Inl e, c)
      | Inr fragment \<Rightarrow>
         if fragment_id fragment AND a2sSplitCompressedBit \<noteq> 0
         then Some (Inl (Errorf ''compressed split response is not supported''), c)
         else if fragment_total fragment = 0 then Some (Inl (Errorf ''split response declares no fragments''), c)
         else reassemble_loop (fragment_id fragment) (fragment_total fragment)
                (replicate (unat (fragment_total fragment)) None) 0 fragment c)"

definition readA2SPacket :: "conn \<Rightarrow> (bytes result \<times> conn) option" where
  "readA2SPacket c =
     (case readA2SDatagram c of
        (Inl e, c') \<Rightarrow> Some (Inl e, c')
      | (Inr datagram, c') \<Rightarrow>
         (case Uint32 datagram of
            Inl e \<Rightarrow> Some (Inl e, c')
          | Inr header \<Rightarrow>
             map_option (\<lambda>(r, c''). (case r of
                 Inl e \<Rightarrow> (Inl (WithMessage e ''failed to reassemble split response''), c'')
               | Inr packet \<Rightarrow>
                  if length packet < a2sMinPacketSize then (Inl (Errorf ''invalid response header''), c'')
                  else (case Uint32 packet of
                     Inl e \<Rightarrow> (Inl e, c'')
                   | Inr simple \<Rightarrow> if simple \<noteq> a2sSimplePacketHeader then (Inl (Errorf ''invalid response header''), c'')
                       else (Inr packet, c''))))
               (if header = a2sSplitPacketHeader then reassembleA2SSplitPacket datagram c' else Some (Inr datagram, c'))))"

section \<open>Requests\<close>

definition buildA2SInfoRequest :: "bytes option \<Rightarrow> bytes" where
  "buildA2SInfoRequest challenge = a2sInfoRequestPrefix @ (case challenge of None \<Rightarrow> [] | Some b \<Rightarrow> b)"

definition buildA2SPlayerRequest :: "bytes option \<Rightarrow> bytes" where
  "buildA2SPlayerRequest challenge =
     a2sPlayerRequestPrefix @ (case challenge of None \<Rightarrow> a2sChallengePlaceholder | Some b \<Rightarrow> b)"

partial_function (option) exchange_loop ::
    "(bytes option \<Rightarrow> bytes) \<Rightarrow> byte list \<Rightarrow> bool \<Rightarrow> conn \<Rightarrow> (bytes result \<times> conn) option" where
  "exchange_loop build accept challenged c =
     (case readA2SPacket c of
        None \<Rightarrow> None
      | Some (Inl e, c') \<Rightarrow> Some (Inl e, c')
      | Some (Inr packet, c') \<Rightarrow>
         (case byte_at packet 4 of
            Inl e \<Rightarrow> Some (Inl e, c')
          | Inr kind \<Rightarrow>
             if List.member accept kind then Some (Inr packet, c')
             else if kind = a2sHeaderChallenge then
               (if challenged then Some (Inl (Errorf ''server rejected the challenge it handed out''), c')
                else if length packet < a2sMinPacketSize + a2sChallengeSize
                then Some (Inl (Errorf ''challenge response too short''), c')
                else case slice packet a2sMinPacketSize (a2sMinPacketSize + a2sChallengeSize) of
                  Inl e \<Rightarrow> Some (Inl e, c')
                | Inr challenge \<Rightarrow>
                   (case conn_Write (build (Some challenge)) c' of
                      (Some e, c'') \<Rightarrow> Some (Inl (WithMessage e ''failed to send query packet''), c'')
                    | (None, c'') \<Rightarrow> exchange_loop build accept True c''))
             else if kind = a2sHeaderInfoSource \<or> kind = a2sHeaderInfoGoldSource \<or> kind = a2sHeaderPlayers \<or> kind = a2sHeaderRules
             then exchange_loop build accept challenged c'
             else Some (Inl (Errorf ''unexpected response type''), c')))"

definition exchangeA2S :: "(bytes option \<Rightarrow> bytes) \<Rightarrow> byte list \<Rightarrow> conn \<Rightarrow> (bytes result \<times> conn) option" where
  "exchangeA2S build accept c =
     (case conn_Write (build None) c of
        (Some e, c') \<Rightarrow> Some (Inl (WithMessage e ''failed to send query packet''), c')
      | (None, c') \<Rightarrow> exchange_loop build accept False c')"

section \<open>Fields\<close>

text \<open>\<open>io.EOF\<close> stands for every way a reader of bytes fails.\<close>

definition EOF :: error where "EOF = Errorf ''EOF''"

fun readNullTerminatedString :: "bytes \<Rightarrow> (bytes \<times> error option) \<times> bytes" where
  "readNullTerminatedString [] = (([], Some EOF), [])"
| "readNullTerminatedString (b # rest) =
     (if b = 0 then (([], None), rest)
      else case readNullTerminatedString rest of ((str, e), rest') \<Rightarrow> ((b # str, e), rest'))"

record a2sFieldReader =
  fields_reader :: bytes
  fields_err :: "error option"

definition fields_readString :: "a2sFieldReader \<Rightarrow> bytes \<times> a2sFieldReader" where
  "fields_readString r =
     (if fields_err r \<noteq> None then ([], r)
      else case readNullTerminatedString (fields_reader r) of
        ((str, e), rest) \<Rightarrow> (str, \<lparr>fields_reader = rest, fields_err = e\<rparr>))"

definition fields_readByte :: "a2sFieldReader \<Rightarrow> byte \<times> a2sFieldReader" where
  "fields_readByte r =
     (if fields_err r \<noteq> None then (0, r)
      else case fields_reader r of
        [] \<Rightarrow> (0, r\<lparr>fields_err := Some EOF\<rparr>)
      | b # rest \<Rightarrow> (b, r\<lparr>fields_reader := rest\<rparr>))"

definition fields_readInt32 :: "a2sFieldReader \<Rightarrow> int32 \<times> a2sFieldReader" where
  "fields_readInt32 r =
     (if fields_err r \<noteq> None then (0, r)
      else if length (fields_reader r) < 4 then (0, \<lparr>fields_reader = [], fields_err = Some EOF\<rparr>)
      else (le_word (fields_reader r), r\<lparr>fields_reader := drop 4 (fields_reader r)\<rparr>))"

definition fields_skip :: "nat \<Rightarrow> a2sFieldReader \<Rightarrow> a2sFieldReader" where
  "fields_skip n r =
     (if fields_err r \<noteq> None then r
      else \<lparr>fields_reader = drop n (fields_reader r),
            fields_err = (if length (fields_reader r) < n then Some EOF else None)\<rparr>)"

definition fields_result :: "a2sFieldReader \<Rightarrow> error option" where
  "fields_result r = map_option (\<lambda>e. WithMessage e ''truncated response'') (fields_err r)"

section \<open>Replies\<close>

record a2sServerInfo =
  info_name :: bytes
  info_gameMap :: bytes
  info_players :: byte
  info_maxPlayers :: byte

record ResultPlayer =
  player_Name :: bytes
  player_Score :: int

definition parseA2SSourceInfo :: "a2sFieldReader \<Rightarrow> a2sServerInfo result" where
  "parseA2SSourceInfo flds =
     (let flds = fields_skip 1 flds;
          (name, flds) = fields_readString flds;
          (gameMap, flds) = fields_readString flds;
          (_, flds) = fields_readString flds;
          (_, flds) = fields_readString flds;
          flds = fields_skip 2 flds;
          (players, flds) = fields_readByte flds;
          (maxPlayers, flds) = fields_readByte flds
      in case fields_result flds of
           Some e \<Rightarrow> Inl e
         | None \<Rightarrow> Inr \<lparr>info_name = name, info_gameMap = gameMap, info_players = players, info_maxPlayers = maxPlayers\<rparr>)"

definition parseA2SGoldSourceInfo :: "a2sFieldReader \<Rightarrow> a2sServerInfo result" where
  "parseA2SGoldSourceInfo flds =
     (let (_, flds) = fields_readString flds;
          (name, flds) = fields_readString flds;
          (gameMap, flds) = fields_readString flds;
          (_, flds) = fields_readString flds;
          (_, flds) = fields_readString flds;
          (players, flds) = fields_readByte flds;
          (maxPlayers, flds) = fields_readByte flds
      in case fields_result flds of
           Some e \<Rightarrow> Inl e
         | None \<Rightarrow> Inr \<lparr>info_name = name, info_gameMap = gameMap, info_players = players, info_maxPlayers = maxPlayers\<rparr>)"

definition parseA2SInfo :: "bytes \<Rightarrow> a2sServerInfo result" where
  "parseA2SInfo packet =
     (case (slice packet a2sMinPacketSize (length packet), byte_at packet 4) of
        (Inr body, Inr kind) \<Rightarrow>
          let flds = \<lparr>fields_reader = body, fields_err = None\<rparr>
          in if kind = a2sHeaderInfoSource then parseA2SSourceInfo flds
             else if kind = a2sHeaderInfoGoldSource then parseA2SGoldSourceInfo flds
             else Inl (Errorf ''unexpected info response type'')
      | _ \<Rightarrow> Inl index_panic)"

text \<open>The loop over the players, which a truncated packet leaves early.\<close>

fun read_players :: "nat \<Rightarrow> a2sFieldReader \<Rightarrow> ResultPlayer list \<times> a2sFieldReader" where
  "read_players 0 flds = ([], flds)"
| "read_players (Suc n) flds =
     (let flds = fields_skip 1 flds;
          (name, flds) = fields_readString flds;
          (score, flds) = fields_readInt32 flds;
          flds = fields_skip 4 flds
      in if fields_err flds \<noteq> None then ([], flds)
         else case read_players n flds of
           (players, flds) \<Rightarrow> (\<lparr>player_Name = name, player_Score = sint score\<rparr> # players, flds))"

definition parseA2SPlayers :: "bytes \<Rightarrow> ResultPlayer list result" where
  "parseA2SPlayers packet =
     (case slice packet a2sMinPacketSize (length packet) of
        Inl e \<Rightarrow> Inl e
      | Inr body \<Rightarrow>
         let (count, flds) = fields_readByte \<lparr>fields_reader = body, fields_err = None\<rparr>;
             (players, flds) = read_players (unat count) flds
         in case fields_result flds of Some e \<Rightarrow> Inl e | None \<Rightarrow> Inr players)"

section \<open>The query\<close>

record Result =
  Result_Online :: bool
  Result_Name :: bytes
  Result_Map :: bytes
  Result_PlayersNum :: int
  Result_MaxPlayersNum :: int
  Result_Players :: "ResultPlayer list"

definition no_result :: Result where
  "no_result = \<lparr>Result_Online = False, Result_Name = [], Result_Map = [], Result_PlayersNum = 0, Result_MaxPlayersNum = 0,
     Result_Players = []\<rparr>"

text \<open>A socket is the outcome of \<open>dialA2S\<close>.\<close>

definition queryA2SInfo :: "conn result \<Rightarrow> a2sServerInfo result option" where
  "queryA2SInfo dial =
     (case dial of
        Inl e \<Rightarrow> Some (Inl e)
      | Inr c \<Rightarrow> map_option (\<lambda>(r, _). case r of
            Inl e \<Rightarrow> Inl e
          | Inr packet \<Rightarrow> (case parseA2SInfo packet of Inl e \<Rightarrow> Inl (WithMessage e ''failed to parse response'') | Inr info \<Rightarrow> Inr info))
          (exchangeA2S buildA2SInfoRequest [a2sHeaderInfoSource, a2sHeaderInfoGoldSource] c))"

definition queryA2SPlayers :: "conn result \<Rightarrow> ResultPlayer list result option" where
  "queryA2SPlayers dial =
     (case dial of
        Inl e \<Rightarrow> Some (Inl e)
      | Inr c \<Rightarrow> map_option (\<lambda>(r, _). case r of
            Inl e \<Rightarrow> Inl e
          | Inr packet \<Rightarrow> (case parseA2SPlayers packet of
              Inl e \<Rightarrow> Inl (WithMessage e ''failed to parse response'') | Inr players \<Rightarrow> Inr players))
          (exchangeA2S buildA2SPlayerRequest [a2sHeaderPlayers] c))"

definition querySource :: "conn result \<Rightarrow> conn result \<Rightarrow> (Result \<times> error option) option" where
  "querySource info_socket players_socket =
     (case queryA2SInfo info_socket of
        None \<Rightarrow> None
      | Some (Inl e) \<Rightarrow> Some (no_result, Some (WithMessage e ''failed to query info''))
      | Some (Inr info) \<Rightarrow>
         let result = no_result\<lparr>Result_Online := True, Result_Name := info_name info, Result_Map := info_gameMap info,
               Result_PlayersNum := int (unat (info_players info)), Result_MaxPlayersNum := int (unat (info_maxPlayers info))\<rparr>
         in case queryA2SPlayers players_socket of
              None \<Rightarrow> None
            | Some (Inl e) \<Rightarrow> Some (result, Some (WithMessage e ''failed to query players''))
            | Some (Inr players) \<Rightarrow> Some (result\<lparr>Result_Players := players\<rparr>, None))"

section \<open>The loops end and nothing panics\<close>

fun panics :: "error \<Rightarrow> bool" where
  "panics (Panic _) = True"
| "panics (WithMessage e _) = panics e"
| "panics _ = False"

definition calm :: "'a result \<Rightarrow> bool" where
  "calm r = (case r of Inl e \<Rightarrow> \<not> panics e | Inr _ \<Rightarrow> True)"

lemma calm_simps [simp]: "calm (Inr x)" "calm (Inl e) = (\<not> panics e)"
  by (simp_all add: calm_def)

lemma readA2SDatagram_consumes:
  assumes "readA2SDatagram c = (r, c')"
  shows "calm r" and "conn_refuses c' = conn_refuses c"
    and "conn_incoming c \<noteq> [] \<Longrightarrow> length (conn_incoming c') < length (conn_incoming c)"
    and "r = Inr datagram \<Longrightarrow> conn_incoming c \<noteq> [] \<and> 5 \<le> length datagram"
    and "conn_incoming c = [] \<Longrightarrow> c' = c"
  using assms by (auto simp: readA2SDatagram_def Let_def a2sMinPacketSize_def split: list.splits if_splits)

lemma parse_fragment_calm: "calm (parseA2SSplitFragment datagram)"
  by (auto simp: parseA2SSplitFragment_def Uint32_def byte_at_def a2sSplitHeaderSize_def calm_def split: sum.splits)

lemma reassemble_loop_ends:
  "\<exists>r c'. reassemble_loop i tot fragments received fragment c = Some (r, c') \<and> calm r \<and>
     conn_refuses c' = conn_refuses c \<and> length (conn_incoming c') \<le> length (conn_incoming c)"
proof (induction "length (conn_incoming c)" arbitrary: fragments received fragment c rule: less_induct)
  case less
  obtain r c1 where read: "readA2SDatagram c = (r, c1)" by (rule prod.exhaust)
  note next_read = readA2SDatagram_consumes [OF read]
  have shorter: "length (conn_incoming c1) \<le> length (conn_incoming c)"
    using next_read(3,5) by (cases "conn_incoming c = []") auto
  show ?case
  proof (cases r)
    case (Inl e)
    then show ?thesis
      using read next_read(1,2) shorter by (subst reassemble_loop.simps) (auto simp: Let_def)
  next
    case (Inr datagram)
    then have less': "length (conn_incoming c1) < length (conn_incoming c)" using next_read(3,4) by blast
    show ?thesis
    proof (cases "parseA2SSplitFragment datagram")
      case (Inl e)
      then show ?thesis
        using read Inr next_read(2) shorter parse_fragment_calm [of datagram]
        by (subst reassemble_loop.simps) (auto simp: Let_def)
    next
      case p: (Inr fragment')
      show ?thesis
        using less.hyps [OF less', of "fragments[unat (fragment_number fragment) := Some (fragment_payload fragment)]" "received + 1" fragment']
          read Inr p next_read(2) less'
        by (subst reassemble_loop.simps) (fastforce simp: Let_def)
    qed
  qed
qed

lemma reassemble_ends:
  "\<exists>r c'. reassembleA2SSplitPacket first c = Some (r, c') \<and> calm r \<and>
     conn_refuses c' = conn_refuses c \<and> length (conn_incoming c') \<le> length (conn_incoming c)"
  using parse_fragment_calm [of first] reassemble_loop_ends
  by (auto simp: reassembleA2SSplitPacket_def split: sum.splits)

lemma readA2SPacket_ends:
  "\<exists>r c'. readA2SPacket c = Some (r, c') \<and> calm r \<and> conn_refuses c' = conn_refuses c \<and>
     (case r of Inl _ \<Rightarrow> True | Inr packet \<Rightarrow> 5 \<le> length packet \<and> length (conn_incoming c') < length (conn_incoming c))"
proof -
  obtain r c1 where read: "readA2SDatagram c = (r, c1)" by (rule prod.exhaust)
  note next_read = readA2SDatagram_consumes [OF read]
  show ?thesis
  proof (cases r)
    case (Inl e)
    then show ?thesis using read next_read(1,2) by (auto simp: readA2SPacket_def)
  next
    case (Inr datagram)
    then have len: "5 \<le> length datagram" "length (conn_incoming c1) < length (conn_incoming c)" using next_read(3,4) by auto
    obtain p c2 where p: "(if le_word datagram = a2sSplitPacketHeader then reassembleA2SSplitPacket datagram c1 else Some (Inr datagram, c1)) =
        Some (p, c2)" "calm p" "conn_refuses c2 = conn_refuses c1" "length (conn_incoming c2) \<le> length (conn_incoming c1)"
      using reassemble_ends [of datagram c1] by (cases "le_word datagram = a2sSplitPacketHeader") auto
    show ?thesis
      using read Inr len p next_read(2)
      by (auto simp: readA2SPacket_def Uint32_def a2sMinPacketSize_def split: sum.splits)
  qed
qed

lemma exchange_loop_ends:
  "\<exists>r c'. exchange_loop build accept challenged c = Some (r, c') \<and> calm r \<and>
     (case r of Inl _ \<Rightarrow> True | Inr packet \<Rightarrow> 5 \<le> length packet)"
  if "\<forall>p e. conn_refuses c p = Some e \<longrightarrow> \<not> panics e"
  using that
proof (induction "length (conn_incoming c)" arbitrary: challenged c rule: less_induct)
  case less
  obtain r c1 where read: "readA2SPacket c = Some (r, c1)" "calm r" "conn_refuses c1 = conn_refuses c"
      "case r of Inl _ \<Rightarrow> True | Inr packet \<Rightarrow> 5 \<le> length packet \<and> length (conn_incoming c1) < length (conn_incoming c)"
    using readA2SPacket_ends [of c] by blast
  show ?case
  proof (cases r)
    case (Inl e)
    then show ?thesis using read by (subst exchange_loop.simps) auto
  next
    case (Inr packet)
    then have len: "5 \<le> length packet" "length (conn_incoming c1) < length (conn_incoming c)" using read(4) by auto
    have again: "\<exists>r c'. exchange_loop build accept ch c2 = Some (r, c') \<and> calm r \<and>
        (case r of Inl _ \<Rightarrow> True | Inr packet \<Rightarrow> 5 \<le> length packet)"
      if "conn_incoming c2 = conn_incoming c1" "conn_refuses c2 = conn_refuses c1" for ch c2
      using less.hyps [of c2 ch] less.prems that len read(3) by simp
    obtain e c2 where w: "conn_Write (build (Some (take 4 (drop 5 packet)))) c1 = (e, c2)" by (rule prod.exhaust)
    have w': "(case e of None \<Rightarrow> True | Some x \<Rightarrow> \<not> panics x)" "conn_incoming c2 = conn_incoming c1" "conn_refuses c2 = conn_refuses c1"
      using w less.prems read(3) by (auto simp: conn_Write_def split: option.splits)
    show ?thesis
      using read(1) Inr len again [of c1] again [OF w'(2,3)] w w'(1)
      by (subst exchange_loop.simps)
        (auto simp: byte_at_def slice_def a2sMinPacketSize_def a2sChallengeSize_def split: option.splits)
  qed
qed

lemma exchange_ends:
  assumes "\<forall>p e. conn_refuses c p = Some e \<longrightarrow> \<not> panics e"
  shows "\<exists>r c'. exchangeA2S build accept c = Some (r, c') \<and> calm r \<and> (case r of Inl _ \<Rightarrow> True | Inr packet \<Rightarrow> 5 \<le> length packet)"
proof -
  obtain e c1 where w: "conn_Write (build None) c = (e, c1)" by (rule prod.exhaust)
  then have "(case e of None \<Rightarrow> True | Some x \<Rightarrow> \<not> panics x)" "conn_refuses c1 = conn_refuses c"
    using assms by (auto simp: conn_Write_def split: option.splits)
  then show ?thesis
    using w exchange_loop_ends [of c1 build accept False] assms by (auto simp: exchangeA2S_def split: option.splits)
qed

text \<open>A reader of fields fails with the end of its input only.\<close>

definition at_most_EOF :: "a2sFieldReader \<Rightarrow> bool" where
  "at_most_EOF r \<longleftrightarrow> fields_err r = None \<or> fields_err r = Some EOF"

lemma readNull_err: "readNullTerminatedString bs = ((str, e), rest) \<Longrightarrow> e = None \<or> e = Some EOF"
  by (induction bs arbitrary: str e rest) (auto split: if_splits prod.splits)

lemma fields_EOF [simp]:
  "at_most_EOF r \<Longrightarrow> at_most_EOF (snd (fields_readString r))"
  "at_most_EOF r \<Longrightarrow> at_most_EOF (snd (fields_readByte r))"
  "at_most_EOF r \<Longrightarrow> at_most_EOF (snd (fields_readInt32 r))"
  "at_most_EOF r \<Longrightarrow> at_most_EOF (fields_skip n r)"
  by (auto simp: at_most_EOF_def fields_readString_def fields_readByte_def fields_readInt32_def fields_skip_def
      dest: readNull_err split: prod.splits list.splits)

lemma fields_result_calm: "at_most_EOF r \<Longrightarrow> fields_result r = Some e \<Longrightarrow> \<not> panics e"
  by (auto simp: at_most_EOF_def fields_result_def EOF_def)

lemma parse_info_calm:
  assumes "5 \<le> length packet"
  shows "calm (parseA2SInfo packet)"
proof -
  have start: "at_most_EOF \<lparr>fields_reader = b, fields_err = None\<rparr>" for b by (simp add: at_most_EOF_def)
  have "calm (parseA2SSourceInfo r)" and "calm (parseA2SGoldSourceInfo r)" if "at_most_EOF r" for r
    using that
    by (auto simp: parseA2SSourceInfo_def parseA2SGoldSourceInfo_def Let_def case_prod_beta calm_def
        dest!: fields_result_calm [rotated] split: option.splits)
  then show ?thesis
    using assms start by (auto simp: parseA2SInfo_def slice_def byte_at_def a2sMinPacketSize_def Let_def)
qed

lemma read_players_EOF: "at_most_EOF r \<Longrightarrow> at_most_EOF (snd (read_players n r))"
  by (induction n arbitrary: r) (auto simp: Let_def case_prod_beta)

lemma read_players_length: "length (fst (read_players n r)) \<le> n"
  by (induction n arbitrary: r) (auto simp: Let_def case_prod_beta)

lemma parse_players_calm:
  assumes "5 \<le> length packet"
  shows "calm (parseA2SPlayers packet)" and "parseA2SPlayers packet = Inr players \<Longrightarrow> length players \<le> 255"
proof -
  have start: "at_most_EOF \<lparr>fields_reader = b, fields_err = None\<rparr>" for b by (simp add: at_most_EOF_def)
  obtain count r where r: "fields_readByte \<lparr>fields_reader = drop 5 packet, fields_err = None\<rparr> = (count, r)" by (rule prod.exhaust)
  then have ok: "at_most_EOF r" using fields_EOF(2) [OF start, of "drop 5 packet"] by simp
  obtain ps r' where ps: "read_players (unat count) r = (ps, r')" by (rule prod.exhaust)
  have "unat count < 2 ^ LENGTH(8)" by (rule unsigned_less)
  then have "unat count \<le> 255" by simp
  then have "length ps \<le> 255" "at_most_EOF r'" using read_players_length [of "unat count" r] read_players_EOF [OF ok, of "unat count"] ps by auto
  then show "calm (parseA2SPlayers packet)" "parseA2SPlayers packet = Inr players \<Longrightarrow> length players \<le> 255"
    using assms r ps
    by (auto simp: parseA2SPlayers_def slice_def a2sMinPacketSize_def calm_def dest: fields_result_calm split: option.splits)
qed

section \<open>Split replies are put back together\<close>

text \<open>The datagram that carries the payload of fragment \<open>k\<close> out of \<open>n\<close>; its two size bytes are not read.\<close>

definition split_datagram :: "uint32 \<Rightarrow> nat \<Rightarrow> bytes \<Rightarrow> bytes list \<Rightarrow> nat \<Rightarrow> bytes" where
  "split_datagram i n pad payloads k =
     le_bytes a2sSplitPacketHeader @ le_bytes i @ [of_nat n, of_nat k] @ pad @ payloads ! k"

definition fragment_of :: "uint32 \<Rightarrow> nat \<Rightarrow> bytes list \<Rightarrow> nat \<Rightarrow> a2sSplitFragment" where
  "fragment_of i n payloads k =
     \<lparr>fragment_id = i, fragment_total = of_nat n, fragment_number = of_nat k, fragment_payload = payloads ! k\<rparr>"

definition collected :: "bytes list \<Rightarrow> nat set \<Rightarrow> bytes option list" where
  "collected payloads got = map (\<lambda>k. if k \<in> got then Some (payloads ! k) else None) [0..<length payloads]"

lemma unat_fragment [simp]: "k \<le> 255 \<Longrightarrow> unat (of_nat k :: byte) = k"
  by (simp add: unat_of_nat)

lemma parse_split_datagram:
  "length pad = 2 \<Longrightarrow> parseA2SSplitFragment (split_datagram i n pad payloads k) = Inr (fragment_of i n payloads k)"
  by (auto simp: parseA2SSplitFragment_def split_datagram_def fragment_of_def Uint32_def byte_at_def a2sSplitHeaderSize_def
      nth_append drop_Cons')

lemma collected_update:
  "k < length payloads \<Longrightarrow> (collected payloads got)[k := Some (payloads ! k)] = collected payloads (insert k got)"
  by (auto simp: collected_def nth_list_update intro!: nth_equalityI)

lemma collected_join: "{..<length payloads} \<subseteq> got \<Longrightarrow> join_fragments (collected payloads got) = concat payloads"
  by (auto simp: join_fragments_def collected_def comp_def subset_iff intro!: arg_cong [where f = concat] nth_equalityI)

lemma reassemble_loop_collects:
  fixes payloads :: "bytes list"
  assumes n: "n = length payloads" "n \<le> 255" and pad: "length pad = 2"
    and fits: "\<forall>p \<in> set payloads. length p + 12 \<le> defaultMaxPacketSize"
  shows "finite got \<Longrightarrow> distinct (k # ks) \<Longrightarrow> got \<inter> set (k # ks) = {} \<Longrightarrow> got \<union> set (k # ks) = {..<n} \<Longrightarrow>
    conn_incoming c = map (split_datagram i n pad payloads) ks @ rest \<Longrightarrow>
    reassemble_loop i (of_nat n) (collected payloads got) (card got) (fragment_of i n payloads k) c =
      Some (Inr (concat payloads), c\<lparr>conn_incoming := rest\<rparr>)"
proof (induction ks arbitrary: got k c)
  case (Cons k' ks)
  then have k: "k < n" "k' < n" "k \<notin> got" by auto
  then have open_slot: "collected payloads got ! k = None" using n by (simp add: collected_def)
  have "card (got \<union> set (k # k' # ks)) = card got + (2 + length ks)"
    using Cons.prems(1-3) by (subst card_Un_disjoint) (auto simp: distinct_card)
  then have more: "card got + 1 \<noteq> n" using Cons.prems(4) by simp
  have long: "length (payloads ! k') + 12 \<le> 14000"
    using fits n k by (auto simp: defaultMaxPacketSize_def)
  then have read: "readA2SDatagram c = (Inr (split_datagram i n pad payloads k'), c\<lparr>conn_incoming := map (split_datagram i n pad payloads) ks @ rest\<rparr>)"
    using Cons.prems(5) pad by (simp add: readA2SDatagram_def Let_def a2sMinPacketSize_def defaultMaxPacketSize_def split_datagram_def)
  have "reassemble_loop i (of_nat n) (collected payloads (insert k got)) (card (insert k got)) (fragment_of i n payloads k')
      (c\<lparr>conn_incoming := map (split_datagram i n pad payloads) ks @ rest\<rparr>) =
    Some (Inr (concat payloads), c\<lparr>conn_incoming := rest\<rparr>)"
    using Cons.IH [of "insert k got" k' "c\<lparr>conn_incoming := map (split_datagram i n pad payloads) ks @ rest\<rparr>"] Cons.prems by auto
  then show ?case
    using k n open_slot more read parse_split_datagram [OF pad] Cons.prems(1) collected_update [of k payloads got]
    by (subst reassemble_loop.simps) (simp add: fragment_of_def Let_def word_le_nat_alt)
next
  case Nil
  then have k: "k < n" "k \<notin> got" "insert k got = {..<n}" by auto
  then have "card got + 1 = n" using Nil.prems(1) by (metis Suc_eq_plus1 card_insert_disjoint card_lessThan)
  moreover have "collected payloads got ! k = None" using k n by (simp add: collected_def)
  moreover have "c\<lparr>conn_incoming := rest\<rparr> = c" using Nil.prems(5) by simp
  ultimately show ?case
    using k n collected_update [of k payloads got] collected_join [of payloads "insert k got"]
    by (subst reassemble_loop.simps) (simp add: fragment_of_def Let_def word_le_nat_alt)
qed

section \<open>Properties\<close>

text \<open>Dialling and writing fail with errors of the network, which are not panics.\<close>

definition network_errors :: "conn result \<Rightarrow> bool" where
  "network_errors socket =
     (case socket of Inl e \<Rightarrow> \<not> panics e | Inr c \<Rightarrow> (\<forall>p e. conn_refuses c p = Some e \<longrightarrow> \<not> panics e))"

lemma queryA2SInfo_ends:
  assumes "network_errors socket"
  shows "\<exists>r. queryA2SInfo socket = Some r \<and> calm r"
proof (cases socket)
  case (Inr c)
  then obtain r c' where r: "exchangeA2S buildA2SInfoRequest [a2sHeaderInfoSource, a2sHeaderInfoGoldSource] c = Some (r, c')"
      "calm r" "case r of Inl _ \<Rightarrow> True | Inr packet \<Rightarrow> 5 \<le> length packet"
    using exchange_ends [of c buildA2SInfoRequest "[a2sHeaderInfoSource, a2sHeaderInfoGoldSource]"] assms
    by (auto simp: network_errors_def)
  then show ?thesis
    using Inr parse_info_calm [of "projr r"] by (cases r) (auto simp: queryA2SInfo_def calm_def split: sum.splits)
qed (use assms in \<open>simp add: queryA2SInfo_def network_errors_def\<close>)

lemma queryA2SPlayers_ends:
  assumes "network_errors socket"
  shows "\<exists>r. queryA2SPlayers socket = Some r \<and> calm r \<and> (case r of Inl _ \<Rightarrow> True | Inr players \<Rightarrow> length players \<le> 255)"
proof (cases socket)
  case (Inr c)
  then obtain r c' where r: "exchangeA2S buildA2SPlayerRequest [a2sHeaderPlayers] c = Some (r, c')"
      "calm r" "case r of Inl _ \<Rightarrow> True | Inr packet \<Rightarrow> 5 \<le> length packet"
    using exchange_ends [of c buildA2SPlayerRequest "[a2sHeaderPlayers]"] assms by (auto simp: network_errors_def)
  then show ?thesis
    using Inr parse_players_calm [of "projr r"] by (cases r) (auto simp: queryA2SPlayers_def calm_def split: sum.splits)
qed (use assms in \<open>simp add: queryA2SPlayers_def network_errors_def\<close>)


text \<open>A server that sends a challenge, a stray players reply and then its information.\<close>

definition source_reply :: bytes where
  "source_reply = [0xFF, 0xFF, 0xFF, 0xFF, 0x49, 17, 0x61, 0, 0x62, 0, 0, 0, 0, 0, 3, 16]"

definition server_of :: "bytes list \<Rightarrow> conn" where
  "server_of datagrams = \<lparr>conn_incoming = datagrams, conn_sent = [], conn_refuses = (\<lambda>_. None)\<rparr>"

definition info_socket :: conn where
  "info_socket = server_of [[0xFF, 0xFF, 0xFF, 0xFF, 0x41, 1, 2, 3, 4], [0xFF, 0xFF, 0xFF, 0xFF, 0x44, 0], source_reply]"


text \<open>C13.  A reply split over several datagrams is put back together whatever the order they arrive in: when the
  fragments of one reply arrive in any permutation, each small enough for the receive buffer, the packet that is read
  is the concatenation of their payloads in the order of their numbers, and the datagrams behind them are left alone.\<close>

theorem split_any_order:
  assumes n: "n = length payloads" "0 < n" "n \<le> 255" and pad: "length pad = 2"
    and fits: "\<forall>p \<in> set payloads. length p + 12 \<le> defaultMaxPacketSize"
    and order: "distinct order" "set order = {..<n}"
    and plain: "i AND a2sSplitCompressedBit = 0"
    and packet: "5 \<le> length (concat payloads)" "le_word (concat payloads) = a2sSimplePacketHeader"
    and arrives: "conn_incoming c = map (split_datagram i n pad payloads) order @ rest"
  shows "readA2SPacket c = Some (Inr (concat payloads), c\<lparr>conn_incoming := rest\<rparr>)"
proof -
  obtain k ks where ks: "order = k # ks" using order(2) n by (cases order) auto
  then have k: "k < n" using order(2) by auto
  let ?c = "c\<lparr>conn_incoming := map (split_datagram i n pad payloads) ks @ rest\<rparr>"
  have "length (payloads ! k) + 12 \<le> 14000" using fits n k by (auto simp: defaultMaxPacketSize_def)
  then have read: "readA2SDatagram c = (Inr (split_datagram i n pad payloads k), ?c)"
    using arrives ks pad by (simp add: readA2SDatagram_def Let_def a2sMinPacketSize_def defaultMaxPacketSize_def split_datagram_def)
  have none: "replicate n None = collected payloads {}" using n by (simp add: collected_def map_replicate_const)
  have nonzero: "(of_nat n :: byte) \<noteq> 0" using n unat_fragment [of n] by (metis less_numeral_extra(3) unat_0)
  have "reassembleA2SSplitPacket (split_datagram i n pad payloads k) ?c = Some (Inr (concat payloads), c\<lparr>conn_incoming := rest\<rparr>)"
    using reassemble_loop_collects [OF n(1,3) pad fits, of "{}" k ks ?c i rest] order ks n plain none nonzero
    by (simp add: reassembleA2SSplitPacket_def parse_split_datagram [OF pad] fragment_of_def)
  then show ?thesis
    using read packet by (simp add: readA2SPacket_def Uint32_def split_datagram_def a2sMinPacketSize_def)
qed

definition four_parts :: "bytes list" where
  "four_parts = [[0xFF, 0xFF, 0xFF], [0xFF, 0x44, 1], [], [0, 0x61]]"

theorem split_any_order_witness:
  "readA2SPacket (server_of (map (split_datagram 7 4 [0, 0] four_parts) [2, 0, 3, 1] @ [source_reply])) =
     Some (Inr [0xFF, 0xFF, 0xFF, 0xFF, 0x44, 1, 0, 0x61], server_of [source_reply])"
proof -
  have "readA2SPacket (server_of (map (split_datagram 7 4 [0, 0] four_parts) [2, 0, 3, 1] @ [source_reply])) =
     Some (Inr (concat four_parts), (server_of (map (split_datagram 7 4 [0, 0] four_parts) [2, 0, 3, 1] @ [source_reply]))
       \<lparr>conn_incoming := [source_reply]\<rparr>)"
  proof (rule split_any_order [where n = 4])
    show "le_word (concat four_parts) = a2sSimplePacketHeader" by code_simp
    show "7 AND a2sSplitCompressedBit = 0" by code_simp
    show "set [2, 0, 3, 1] = {..<4 :: nat}" by auto
  qed (simp_all add: four_parts_def server_of_def defaultMaxPacketSize_def)
  then show ?thesis by (simp add: four_parts_def server_of_def)
qed

end
